theory Spec2Isabelle
  imports Complex_Main "HOL-Library.Word"
begin

unbundle bit_operations_syntax

section \<open>Machine types, memory and the unaligned loads (port.h)\<close>

text \<open>
  \<open>uint8_t\<close>, \<open>uint16_t\<close>, \<open>uint32_t\<close> and \<open>uint64_t\<close> are words; a C \<open>int\<close> that holds a
  position or a distance is a 32-bit word too, read through \<open>sint\<close> where the source compares
  it as a signed number. A \<open>const uint8_t *\<close> is the function that gives the byte at each
  offset from the pointer, and \<open>&p[k]\<close> is \<open>ptr_add p k\<close>. Lengths and counters of type
  \<open>size_t\<close> are natural numbers. The host is little-endian (\<open>IS_LITTLE_ENDIAN\<close>).
\<close>

type_synonym u8 = "8 word"
type_synonym u16 = "16 word"
type_synonym u32 = "32 word"
type_synonym u64 = "64 word"
type_synonym i32 = "32 word"
type_synonym byte_ptr = "nat \<Rightarrow> u8"

definition ptr_add :: "byte_ptr \<Rightarrow> nat \<Rightarrow> byte_ptr" where
  "ptr_add p k = (\<lambda>i. p (k + i))"

definition BROTLI_UNALIGNED_LOAD16 :: "byte_ptr \<Rightarrow> u16" where
  "BROTLI_UNALIGNED_LOAD16 p = ucast (p 0) OR push_bit 8 (ucast (p 1))"

definition BROTLI_UNALIGNED_LOAD32 :: "byte_ptr \<Rightarrow> u32" where
  "BROTLI_UNALIGNED_LOAD32 p =
     ucast (p 0) OR push_bit 8 (ucast (p 1)) OR push_bit 16 (ucast (p 2)) OR
     push_bit 24 (ucast (p 3))"

definition BROTLI_UNALIGNED_LOAD64 :: "byte_ptr \<Rightarrow> u64" where
  "BROTLI_UNALIGNED_LOAD64 p =
     ucast (p 0) OR push_bit 8 (ucast (p 1)) OR push_bit 16 (ucast (p 2)) OR
     push_bit 24 (ucast (p 3)) OR push_bit 32 (ucast (p 4)) OR push_bit 40 (ucast (p 5)) OR
     push_bit 48 (ucast (p 6)) OR push_bit 56 (ucast (p 7))"

definition BROTLI_LOADED_U32_TO_U24 :: "u32 \<Rightarrow> u32" where
  "BROTLI_LOADED_U32_TO_U24 v = v AND 0xFFFFFF"

definition BROTLI_LOADED_U32_TO_U16 :: "u32 \<Rightarrow> u32" where
  "BROTLI_LOADED_U32_TO_U16 v = v AND 0xFFFF"

section \<open>Constants, the shared hash and the scores (hash.h)\<close>

definition kDistanceCacheIndex :: "nat list" where
  "kDistanceCacheIndex = [0, 1, 2, 3, 0, 0, 0, 0, 0, 0, 1, 1, 1, 1, 1, 1]"

definition kDistanceCacheOffset :: "i32 list" where
  "kDistanceCacheOffset = [0, 0, 0, 0, -1, 1, -2, 2, -3, 3, -1, 1, -2, 2, -3, 3]"

definition kCutoffTransformsCount :: int where
  "kCutoffTransformsCount = 10"

definition kCutoffTransforms :: "nat list" where
  "kCutoffTransforms = [0, 12, 27, 23, 42, 63, 56, 48, 59, 64]"

definition kHashMul32 :: u32 where
  "kHashMul32 = 0x1e35a7bd"

definition Hash :: "nat \<Rightarrow> byte_ptr \<Rightarrow> u32" where
  "Hash kShiftBits data =
     drop_bit (32 - kShiftBits) (BROTLI_UNALIGNED_LOAD32 data * kHashMul32)"

text \<open>
  The collaborators whose headers are outside the sources at hand are the fields of one
  record: \<open>Log2Floor\<close> (fast_log.h), the static dictionary and its hash table
  (dictionary.h, dictionary_hash.h), and \<open>FindAllStaticDictionaryMatches\<close> with its two
  constants (static_dict.h). Every function below that needs one takes the record.
\<close>

record externals =
  Log2Floor :: "u32 \<Rightarrow> int"
  kStaticDictionaryHash :: "nat \<Rightarrow> u16"
  kBrotliDictionaryOffsetsByLength :: "nat \<Rightarrow> nat"
  kBrotliDictionarySizeBitsByLength :: "nat \<Rightarrow> nat"
  kBrotliDictionary :: byte_ptr
  kMaxDictionaryMatchLen :: nat
  kInvalidMatch :: int
  FindAllStaticDictionaryMatches :: "byte_ptr \<Rightarrow> int \<Rightarrow> int \<Rightarrow> bool \<times> (int \<Rightarrow> int)"

text \<open>Scores are \<open>double\<close>s in the source; they are real numbers here.\<close>

definition BackwardReferenceScore :: "externals \<Rightarrow> nat \<Rightarrow> u32 \<Rightarrow> real" where
  "BackwardReferenceScore ext copy_length backward_reference_offset =
     5.4 * real copy_length - 1.20 * real_of_int (Log2Floor ext backward_reference_offset)"

definition kDistanceShortCodeBitCost :: "real list" where
  "kDistanceShortCodeBitCost =
     [-0.6, 0.95, 1.17, 1.27, 0.93, 0.93, 0.96, 0.96, 0.99, 0.99,
      1.05, 1.05, 1.15, 1.15, 1.25, 1.25]"

definition BackwardReferenceScoreUsingLastDistance :: "nat \<Rightarrow> nat \<Rightarrow> real" where
  "BackwardReferenceScoreUsingLastDistance copy_length distance_short_code =
     5.4 * real copy_length - kDistanceShortCodeBitCost ! distance_short_code"

text \<open>
  Modelled from the spec: \<open>FindMatchLengthWithLimit\<close> lives in find_match_length.h, which
  is not among the sources. The spec uses it as the length of the common prefix of two byte
  sequences, cut at the limit.
\<close>

fun FindMatchLengthWithLimit :: "byte_ptr \<Rightarrow> byte_ptr \<Rightarrow> nat \<Rightarrow> nat" where
  "FindMatchLengthWithLimit s1 s2 0 = 0"
| "FindMatchLengthWithLimit s1 s2 (Suc limit) =
     (if s1 0 = s2 0 then Suc (FindMatchLengthWithLimit (ptr_add s1 1) (ptr_add s2 1) limit)
      else 0)"

section \<open>The block hasher \<open>HashLongestMatch\<close>: state, \<open>Reset\<close> and \<open>Store\<close>\<close>

text \<open>
  The template parameters \<open>kBucketBits\<close>, \<open>kBlockBits\<close> and \<open>kNumLastDistancesToCheck\<close> are
  arguments. The members lose their trailing underscore: \<open>num\<close> is the array \<open>num_\<close> of
  \<open>uint16_t\<close>, \<open>buckets\<close> the array \<open>buckets_\<close> of arrays of \<open>int\<close>.
\<close>

record HashLongestMatch =
  num :: "nat \<Rightarrow> u16"
  buckets :: "nat \<Rightarrow> nat \<Rightarrow> i32"
  num_dict_lookups :: nat
  num_dict_matches :: nat

definition kBlockSize :: "nat \<Rightarrow> nat" where
  "kBlockSize kBlockBits = 2 ^ kBlockBits"

definition kBlockMask :: "nat \<Rightarrow> nat" where
  "kBlockMask kBlockBits = 2 ^ kBlockBits - 1"

definition HashLongestMatch_Reset :: "HashLongestMatch \<Rightarrow> HashLongestMatch" where
  "HashLongestMatch_Reset h =
     h\<lparr>num := (\<lambda>_. 0), num_dict_lookups := 0, num_dict_matches := 0\<rparr>"

definition HashLongestMatch_HashBytes :: "nat \<Rightarrow> byte_ptr \<Rightarrow> u32" where
  "HashLongestMatch_HashBytes kBucketBits data =
     drop_bit (32 - kBucketBits) (BROTLI_UNALIGNED_LOAD32 data * 0x1e35a7bd)"

definition HashLongestMatch_Store ::
  "nat \<Rightarrow> nat \<Rightarrow> byte_ptr \<Rightarrow> i32 \<Rightarrow> HashLongestMatch \<Rightarrow> HashLongestMatch" where
  "HashLongestMatch_Store kBucketBits kBlockBits data ix h =
     (let key = unat (HashLongestMatch_HashBytes kBucketBits data);
          minor_ix = unat (num h key) AND kBlockMask kBlockBits
      in h\<lparr>buckets := (buckets h)(key := (buckets h key)(minor_ix := ix)),
           num := (num h)(key := num h key + 1)\<rparr>)"

text \<open>A sequence of \<open>Store\<close> calls, each with its data pointer and its position.\<close>

definition HashLongestMatch_Stores ::
  "nat \<Rightarrow> nat \<Rightarrow> (byte_ptr \<times> i32) list \<Rightarrow> HashLongestMatch \<Rightarrow> HashLongestMatch" where
  "HashLongestMatch_Stores kBucketBits kBlockBits calls h =
     foldl (\<lambda>s (data, ix). HashLongestMatch_Store kBucketBits kBlockBits data ix s) h calls"

text \<open>The positions stored under bucket \<open>key\<close>, oldest first.\<close>

definition stored_under :: "nat \<Rightarrow> nat \<Rightarrow> (byte_ptr \<times> i32) list \<Rightarrow> i32 list" where
  "stored_under kBucketBits key calls =
     map snd (filter (\<lambda>(data, ix). unat (HashLongestMatch_HashBytes kBucketBits data) = key) calls)"

section \<open>The quick hasher \<open>HashLongestMatchQuickly\<close>: state, \<open>Reset\<close> and \<open>Store\<close>\<close>

text \<open>
  The template parameters \<open>kBucketBits\<close>, \<open>kBucketSweep\<close> and \<open>kUseDictionary\<close> are
  arguments. \<open>quick_buckets\<close> is the array \<open>buckets_\<close> of \<open>uint32_t\<close>.
\<close>

record HashLongestMatchQuickly =
  quick_buckets :: "nat \<Rightarrow> u32"
  quick_num_dict_lookups :: nat
  quick_num_dict_matches :: nat

definition HashLongestMatchQuickly_Reset ::
  "HashLongestMatchQuickly \<Rightarrow> HashLongestMatchQuickly" where
  "HashLongestMatchQuickly_Reset q =
     q\<lparr>quick_buckets := (\<lambda>_. 0), quick_num_dict_lookups := 0, quick_num_dict_matches := 0\<rparr>"

definition HashLongestMatchQuickly_HashBytes :: "nat \<Rightarrow> byte_ptr \<Rightarrow> u32" where
  "HashLongestMatchQuickly_HashBytes kBucketBits data =
     ucast (drop_bit (64 - kBucketBits)
              (push_bit 24 (BROTLI_UNALIGNED_LOAD64 data) * (0x1e35a7bd :: u64)))"

definition HashLongestMatchQuickly_Store ::
  "nat \<Rightarrow> nat \<Rightarrow> byte_ptr \<Rightarrow> i32 \<Rightarrow> HashLongestMatchQuickly \<Rightarrow> HashLongestMatchQuickly" where
  "HashLongestMatchQuickly_Store kBucketBits kBucketSweep data ix q =
     (let key = unat (HashLongestMatchQuickly_HashBytes kBucketBits data);
          off = unat (drop_bit 3 ix) mod kBucketSweep
      in q\<lparr>quick_buckets := (quick_buckets q)(key + off := ix)\<rparr>)"

section \<open>The binary tree matchfinder \<open>BT4_Matchfinder\<close>: state and \<open>Reset\<close>\<close>

text \<open>
  \<open>hash_tabs\<close> holds the three subtables one after the other; \<open>Reset\<close> fills it.
  \<open>child_tab\<close> comes from \<open>new uint32_t[...]\<close> and nothing initialises it. A cell of it is
  \<open>Unassigned v\<close> until the first assignment to it, where \<open>v\<close> is whatever the memory holds,
  and \<open>Assigned v\<close> once the program has assigned \<open>v\<close> to it. The program reads a cell the
  same way in both cases: \<open>cell_value\<close>.
\<close>

datatype cell = Unassigned u32 | Assigned u32

fun cell_value :: "cell \<Rightarrow> u32" where
  "cell_value (Unassigned v) = v"
| "cell_value (Assigned v) = v"

record BT4_Matchfinder =
  window_mask :: u32
  hash_tabs :: "nat \<Rightarrow> u32"
  child_tab :: "nat \<Rightarrow> cell"
  max_search_depth :: u32
  nice_length :: u32

definition BT4_Reset :: "BT4_Matchfinder \<Rightarrow> BT4_Matchfinder" where
  "BT4_Reset m = m\<lparr>hash_tabs := (\<lambda>_. - window_mask m)\<rparr>"

section \<open>\<open>Hashers\<close>: warming up from a custom dictionary\<close>

text \<open>
  Each \<open>unique_ptr\<close> is an option: \<open>None\<close> is the null pointer of a hasher that \<open>Init\<close> has
  not created. Calling \<open>Store\<close> through it is the error \<open>NullDereference\<close>.
\<close>

datatype error = NullDereference

record Hashers =
  hash_h1 :: "HashLongestMatchQuickly option"
  hash_h2 :: "HashLongestMatchQuickly option"
  hash_h3 :: "HashLongestMatchQuickly option"
  hash_h4 :: "HashLongestMatchQuickly option"
  hash_h5 :: "HashLongestMatch option"
  hash_h6 :: "HashLongestMatch option"
  hash_h7 :: "HashLongestMatch option"
  hash_h8 :: "HashLongestMatch option"
  hash_h9 :: "HashLongestMatch option"
  hash_h10 :: "BT4_Matchfinder option"

text \<open>
  The loop of \<open>WarmupHash\<close>, from the value \<open>i\<close> of its counter. The template argument
  \<open>Hasher\<close> is the pair of its \<open>kHashTypeLength\<close> and its \<open>Store\<close>. Every call passes the
  pointer \<open>dict\<close> itself and the counter as the position.
\<close>

function WarmupHash_loop ::
  "nat \<Rightarrow> (byte_ptr \<Rightarrow> i32 \<Rightarrow> 'h \<Rightarrow> 'h) \<Rightarrow> nat \<Rightarrow> byte_ptr \<Rightarrow> nat \<Rightarrow> 'h option
     \<Rightarrow> error + 'h option" where
  "WarmupHash_loop kHashTypeLength store dict_size dict i hasher =
     (if i + kHashTypeLength - 1 < dict_size then
        (case hasher of
           None \<Rightarrow> Inl NullDereference
         | Some h \<Rightarrow>
             WarmupHash_loop kHashTypeLength store dict_size dict (i + 1)
               (Some (store dict (of_nat i) h)))
      else Inr hasher)"
  by pat_completeness auto
termination
  by (relation "measure (\<lambda>(k, st, dict_size, dict, i, hasher). dict_size + 1 - i)") auto

declare WarmupHash_loop.simps [simp del]

definition WarmupHash ::
  "nat \<Rightarrow> (byte_ptr \<Rightarrow> i32 \<Rightarrow> 'h \<Rightarrow> 'h) \<Rightarrow> nat \<Rightarrow> byte_ptr \<Rightarrow> 'h option \<Rightarrow> error + 'h option" where
  "WarmupHash kHashTypeLength store dict_size dict hasher =
     WarmupHash_loop kHashTypeLength store dict_size dict 0 hasher"

definition HashLongestMatchQuickly_kHashTypeLength :: nat where
  "HashLongestMatchQuickly_kHashTypeLength = 8"

definition HashLongestMatch_kHashTypeLength :: nat where
  "HashLongestMatch_kHashTypeLength = 4"

definition WarmupHash_quick ::
  "nat \<Rightarrow> nat \<Rightarrow> nat \<Rightarrow> byte_ptr \<Rightarrow> HashLongestMatchQuickly option
     \<Rightarrow> error + HashLongestMatchQuickly option" where
  "WarmupHash_quick kBucketBits kBucketSweep =
     WarmupHash HashLongestMatchQuickly_kHashTypeLength
       (HashLongestMatchQuickly_Store kBucketBits kBucketSweep)"

definition WarmupHash_block ::
  "nat \<Rightarrow> nat \<Rightarrow> nat \<Rightarrow> byte_ptr \<Rightarrow> HashLongestMatch option
     \<Rightarrow> error + HashLongestMatch option" where
  "WarmupHash_block kBucketBits kBlockBits =
     WarmupHash HashLongestMatch_kHashTypeLength (HashLongestMatch_Store kBucketBits kBlockBits)"

definition PrependCustomDictionary ::
  "int \<Rightarrow> nat \<Rightarrow> byte_ptr \<Rightarrow> Hashers \<Rightarrow> error + Hashers" where
  "PrependCustomDictionary hasher_type dict_size dict hs =
     (if hasher_type = 1 then
        map_sum id (\<lambda>h. hs\<lparr>hash_h1 := h\<rparr>) (WarmupHash_quick 16 1 dict_size dict (hash_h1 hs))
      else if hasher_type = 2 then
        map_sum id (\<lambda>h. hs\<lparr>hash_h2 := h\<rparr>) (WarmupHash_quick 16 2 dict_size dict (hash_h2 hs))
      else if hasher_type = 3 then
        map_sum id (\<lambda>h. hs\<lparr>hash_h3 := h\<rparr>) (WarmupHash_quick 16 4 dict_size dict (hash_h3 hs))
      else if hasher_type = 4 then
        map_sum id (\<lambda>h. hs\<lparr>hash_h4 := h\<rparr>) (WarmupHash_quick 17 4 dict_size dict (hash_h4 hs))
      else if hasher_type = 5 then
        map_sum id (\<lambda>h. hs\<lparr>hash_h5 := h\<rparr>) (WarmupHash_block 14 4 dict_size dict (hash_h5 hs))
      else if hasher_type = 6 then
        map_sum id (\<lambda>h. hs\<lparr>hash_h6 := h\<rparr>) (WarmupHash_block 14 5 dict_size dict (hash_h6 hs))
      else if hasher_type = 7 then
        map_sum id (\<lambda>h. hs\<lparr>hash_h7 := h\<rparr>) (WarmupHash_block 15 6 dict_size dict (hash_h7 hs))
      else if hasher_type = 8 then
        map_sum id (\<lambda>h. hs\<lparr>hash_h8 := h\<rparr>) (WarmupHash_block 15 7 dict_size dict (hash_h8 hs))
      else if hasher_type = 9 then
        map_sum id (\<lambda>h. hs\<lparr>hash_h9 := h\<rparr>) (WarmupHash_block 15 8 dict_size dict (hash_h9 hs))
      else Inr hs)"

text \<open>
  What the specification says of the warm-up, to compare with \<open>WarmupHash\<close>: one \<open>Store\<close> for
  each position \<open>i\<close> of \<open>[0, size - kHashTypeLength)\<close>, hashing the bytes at \<open>dict[i..]\<close>.
\<close>

definition spec_WarmupHash ::
  "nat \<Rightarrow> (byte_ptr \<Rightarrow> i32 \<Rightarrow> 'h \<Rightarrow> 'h) \<Rightarrow> nat \<Rightarrow> byte_ptr \<Rightarrow> 'h \<Rightarrow> 'h" where
  "spec_WarmupHash kHashTypeLength store dict_size dict h =
     foldl (\<lambda>s i. store (ptr_add dict i) (of_nat i) s) h [0..<dict_size - kHashTypeLength]"

text \<open>
  \<open>n - first\<close> calls of \<open>Store\<close> in a row, all with the data pointer \<open>data\<close>, recording the
  positions \<open>first, first + 1, ..., n - 1\<close> in this order.
\<close>

definition Store_positions ::
  "(byte_ptr \<Rightarrow> i32 \<Rightarrow> 'h \<Rightarrow> 'h) \<Rightarrow> byte_ptr \<Rightarrow> 'h \<Rightarrow> nat \<Rightarrow> nat \<Rightarrow> 'h" where
  "Store_positions store data h first n = foldl (\<lambda>s i. store data (of_nat i) s) h [first..<n]"

text \<open>
  \<open>length ptrs\<close> calls of \<open>Store\<close> in a row that record the positions
  \<open>0, 1, ..., length ptrs - 1\<close> in this order; the call that records \<open>i\<close> has the data
  pointer \<open>ptrs ! i\<close>.
\<close>

definition Store_calls :: "(byte_ptr \<Rightarrow> i32 \<Rightarrow> 'h \<Rightarrow> 'h) \<Rightarrow> byte_ptr list \<Rightarrow> 'h \<Rightarrow> 'h" where
  "Store_calls store ptrs h =
     foldl (\<lambda>s (p, i). store p (of_nat i) s) h (zip ptrs [0..<length ptrs])"

text \<open>A dictionary for the examples: one byte 1, then zeros.\<close>

definition example_dict :: byte_ptr where
  "example_dict = (\<lambda>i. if i = 0 then 1 else 0)"

text \<open>Concrete states, for the examples: every hasher just after \<open>Reset\<close>.\<close>

definition example_quick :: HashLongestMatchQuickly where
  "example_quick =
     \<lparr>quick_buckets = (\<lambda>_. 0), quick_num_dict_lookups = 0, quick_num_dict_matches = 0\<rparr>"

definition example_block :: HashLongestMatch where
  "example_block =
     \<lparr>num = (\<lambda>_. 0), buckets = (\<lambda>_ _. 0), num_dict_lookups = 0, num_dict_matches = 0\<rparr>"

definition example_hashers :: Hashers where
  "example_hashers =
     \<lparr>hash_h1 = Some example_quick, hash_h2 = Some example_quick,
      hash_h3 = Some example_quick, hash_h4 = Some example_quick,
      hash_h5 = Some example_block, hash_h6 = Some example_block,
      hash_h7 = Some example_block, hash_h8 = Some example_block,
      hash_h9 = Some example_block, hash_h10 = None\<rparr>"

section \<open>\<open>FindLongestMatch\<close>: the in/out parameters and the local variables\<close>

text \<open>
  The four pointers \<open>best_len_out\<close>, \<open>best_len_code_out\<close>, \<open>best_distance_out\<close> and
  \<open>best_score_out\<close> are one record, passed in and returned. Lengths are natural numbers (the
  callers pass a length that is not negative). The local variables \<open>best_score\<close>,
  \<open>best_len\<close> and \<open>match_found\<close> extend it; the quick hasher has \<open>compare_char\<close> as well.
\<close>

record outputs =
  best_len_out :: nat
  best_len_code_out :: nat
  best_distance_out :: i32
  best_score_out :: real

record locals = outputs +
  best_score :: real
  best_len :: nat
  match_found :: bool

record quick_locals = locals +
  compare_char :: u8

definition outputs_of :: "'a outputs_scheme \<Rightarrow> outputs" where
  "outputs_of st =
     \<lparr>best_len_out = best_len_out st, best_len_code_out = best_len_code_out st,
      best_distance_out = best_distance_out st, best_score_out = best_score_out st\<rparr>"

section \<open>\<open>HashLongestMatch::FindLongestMatch\<close>\<close>

text \<open>The body of the loop over the last distances, for the index \<open>i\<close>.\<close>

definition HashLongestMatch_last_distance_step ::
  "byte_ptr \<Rightarrow> nat \<Rightarrow> (nat \<Rightarrow> i32) \<Rightarrow> u32 \<Rightarrow> u32 \<Rightarrow> u32 \<Rightarrow> nat \<Rightarrow> locals \<Rightarrow> locals" where
  "HashLongestMatch_last_distance_step data ring_buffer_mask distance_cache cur_ix max_length
     max_backward i st =
     (let cur_ix_masked = unat cur_ix AND ring_buffer_mask;
          idx = kDistanceCacheIndex ! i;
          backward = distance_cache idx + kDistanceCacheOffset ! i;
          prev_ix = unat (cur_ix - backward)
      in if prev_ix \<ge> unat cur_ix then st
         else if backward > max_backward then st
         else
           (let prev_ix = prev_ix AND ring_buffer_mask
            in if cur_ix_masked + best_len st > ring_buffer_mask \<or>
                  prev_ix + best_len st > ring_buffer_mask \<or>
                  data (cur_ix_masked + best_len st) \<noteq> data (prev_ix + best_len st)
               then st
               else
                 (let len = FindMatchLengthWithLimit (ptr_add data prev_ix)
                              (ptr_add data cur_ix_masked) (unat max_length)
                  in if len \<ge> 3 \<or> (len = 2 \<and> i < 2) then
                       (let score = BackwardReferenceScoreUsingLastDistance len i
                        in if best_score st < score then
                             st\<lparr>best_score := score, best_len := len, best_len_out := len,
                                best_len_code_out := len, best_distance_out := backward,
                                best_score_out := score, match_found := True\<rparr>
                           else st)
                     else st)))"

function HashLongestMatch_last_distance_loop ::
  "nat \<Rightarrow> byte_ptr \<Rightarrow> nat \<Rightarrow> (nat \<Rightarrow> i32) \<Rightarrow> u32 \<Rightarrow> u32 \<Rightarrow> u32 \<Rightarrow> nat \<Rightarrow> locals \<Rightarrow> locals" where
  "HashLongestMatch_last_distance_loop kNumLastDistancesToCheck data ring_buffer_mask
     distance_cache cur_ix max_length max_backward i st =
     (if i < kNumLastDistancesToCheck then
        HashLongestMatch_last_distance_loop kNumLastDistancesToCheck data ring_buffer_mask
          distance_cache cur_ix max_length max_backward (i + 1)
          (HashLongestMatch_last_distance_step data ring_buffer_mask distance_cache cur_ix
             max_length max_backward i st)
      else st)"
  by pat_completeness auto
termination
  by (relation "measure (\<lambda>(n, d, m, dc, c, ml, mb, i, st). n - i)") auto

declare HashLongestMatch_last_distance_loop.simps [simp del]

text \<open>
  The body of the loop over the bucket, after the test of \<open>backward\<close> against
  \<open>max_backward\<close>, for the entry \<open>prev_ix\<close> of the bucket.
\<close>

definition HashLongestMatch_bucket_step ::
  "externals \<Rightarrow> byte_ptr \<Rightarrow> nat \<Rightarrow> u32 \<Rightarrow> u32 \<Rightarrow> i32 \<Rightarrow> locals \<Rightarrow> locals" where
  "HashLongestMatch_bucket_step ext data ring_buffer_mask cur_ix max_length prev_ix st =
     (let cur_ix_masked = unat cur_ix AND ring_buffer_mask;
          backward = cur_ix - prev_ix;
          prev_ix = unat prev_ix AND ring_buffer_mask
      in if cur_ix_masked + best_len st > ring_buffer_mask \<or>
            prev_ix + best_len st > ring_buffer_mask \<or>
            data (cur_ix_masked + best_len st) \<noteq> data (prev_ix + best_len st)
         then st
         else
           (let len = FindMatchLengthWithLimit (ptr_add data prev_ix)
                        (ptr_add data cur_ix_masked) (unat max_length)
            in if len \<ge> 4 then
                 (let score = BackwardReferenceScore ext len backward
                  in if best_score st < score then
                       st\<lparr>best_score := score, best_len := len, best_len_out := len,
                          best_len_code_out := len, best_distance_out := backward,
                          best_score_out := score, match_found := True\<rparr>
                     else st)
               else st))"

text \<open>
  The loop over the bucket: \<open>i\<close> runs from \<open>num_[key] - 1\<close> down to \<open>down\<close>, and stops at the
  first entry that is further away than \<open>max_backward\<close>.
\<close>

function HashLongestMatch_bucket_loop ::
  "externals \<Rightarrow> nat \<Rightarrow> (nat \<Rightarrow> i32) \<Rightarrow> int \<Rightarrow> byte_ptr \<Rightarrow> nat \<Rightarrow> u32 \<Rightarrow> u32 \<Rightarrow> u32 \<Rightarrow> int
     \<Rightarrow> locals \<Rightarrow> locals" where
  "HashLongestMatch_bucket_loop ext kBlockBits bucket down data ring_buffer_mask cur_ix
     max_length max_backward i st =
     (if i \<ge> down then
        (let prev_ix = bucket (nat i AND kBlockMask kBlockBits)
         in if 0 \<le> sint prev_ix then
              (if cur_ix - prev_ix > max_backward then st
               else HashLongestMatch_bucket_loop ext kBlockBits bucket down data
                      ring_buffer_mask cur_ix max_length max_backward (i - 1)
                      (HashLongestMatch_bucket_step ext data ring_buffer_mask cur_ix max_length
                         prev_ix st))
            else HashLongestMatch_bucket_loop ext kBlockBits bucket down data ring_buffer_mask
                   cur_ix max_length max_backward (i - 1) st)
      else st)"
  by pat_completeness auto
termination
  by (relation "measure (\<lambda>(e, k, b, down, d, m, c, ml, mb, i, st). nat (i - down + 1))") auto

declare HashLongestMatch_bucket_loop.simps [simp del]

text \<open>
  The statements before the dictionary: the initialisation, the loop over the last
  distances and the loop over the bucket.
\<close>

definition HashLongestMatch_search ::
  "externals \<Rightarrow> nat \<Rightarrow> nat \<Rightarrow> nat \<Rightarrow> byte_ptr \<Rightarrow> nat \<Rightarrow> (nat \<Rightarrow> i32) \<Rightarrow> u32 \<Rightarrow> u32 \<Rightarrow> u32
     \<Rightarrow> outputs \<Rightarrow> HashLongestMatch \<Rightarrow> locals" where
  "HashLongestMatch_search ext kBucketBits kBlockBits kNumLastDistancesToCheck data
     ring_buffer_mask distance_cache cur_ix max_length max_backward outs h =
     (let cur_ix_masked = unat cur_ix AND ring_buffer_mask;
          st = \<lparr>best_len_out = 0, best_len_code_out = 0,
                best_distance_out = best_distance_out outs,
                best_score_out = best_score_out outs,
                best_score = best_score_out outs, best_len = best_len_out outs,
                match_found = False\<rparr>;
          st = HashLongestMatch_last_distance_loop kNumLastDistancesToCheck data
                 ring_buffer_mask distance_cache cur_ix max_length max_backward 0 st;
          key = unat (HashLongestMatch_HashBytes kBucketBits (ptr_add data cur_ix_masked));
          down = (if unat (num h key) > kBlockSize kBlockBits
                  then int (unat (num h key)) - int (kBlockSize kBlockBits) else 0)
      in HashLongestMatch_bucket_loop ext kBlockBits (buckets h key) down data ring_buffer_mask
           cur_ix max_length max_backward (int (unat (num h key)) - 1) st)"

text \<open>The body of the loop over the two entries of the dictionary hash table.\<close>

definition HashLongestMatch_dict_step ::
  "externals \<Rightarrow> byte_ptr \<Rightarrow> nat \<Rightarrow> u32 \<Rightarrow> u32 \<Rightarrow> u32 \<Rightarrow> u32 \<Rightarrow> locals \<times> HashLongestMatch
     \<Rightarrow> locals \<times> HashLongestMatch" where
  "HashLongestMatch_dict_step ext data ring_buffer_mask cur_ix max_length max_backward key sh =
     (let cur_ix_masked = unat cur_ix AND ring_buffer_mask;
          st = fst sh;
          h = (snd sh)\<lparr>num_dict_lookups := num_dict_lookups (snd sh) + 1\<rparr>;
          v = kStaticDictionaryHash ext (unat key)
      in if v > 0 then
           (let len = unat (v AND 31);
                dist = unat (drop_bit 5 v);
                offset = kBrotliDictionaryOffsetsByLength ext len + len * dist
            in if len \<le> unat max_length then
                 (let matchlen = FindMatchLengthWithLimit (ptr_add data cur_ix_masked)
                                   (ptr_add (kBrotliDictionary ext) offset) len
                  in if int matchlen > int len - kCutoffTransformsCount \<and> matchlen > 0 then
                       (let transform_id = kCutoffTransforms ! (len - matchlen);
                            word_id = transform_id *
                                        2 ^ kBrotliDictionarySizeBitsByLength ext len + dist;
                            backward = max_backward + of_nat word_id + 1;
                            score = BackwardReferenceScore ext matchlen backward
                        in if best_score st < score then
                             (st\<lparr>best_score := score, best_len := matchlen,
                                 best_len_out := matchlen, best_len_code_out := len,
                                 best_distance_out := backward, best_score_out := score,
                                 match_found := True\<rparr>,
                              h\<lparr>num_dict_matches := num_dict_matches h + 1\<rparr>)
                           else (st, h))
                     else (st, h))
               else (st, h))
         else (st, h))"

function HashLongestMatch_dict_loop ::
  "externals \<Rightarrow> byte_ptr \<Rightarrow> nat \<Rightarrow> u32 \<Rightarrow> u32 \<Rightarrow> u32 \<Rightarrow> nat \<Rightarrow> u32 \<Rightarrow> locals \<times> HashLongestMatch
     \<Rightarrow> locals \<times> HashLongestMatch" where
  "HashLongestMatch_dict_loop ext data ring_buffer_mask cur_ix max_length max_backward k key sh =
     (if k < 2 then
        HashLongestMatch_dict_loop ext data ring_buffer_mask cur_ix max_length max_backward
          (k + 1) (key + 1)
          (HashLongestMatch_dict_step ext data ring_buffer_mask cur_ix max_length max_backward
             key sh)
      else sh)"
  by pat_completeness auto
termination
  by (relation "measure (\<lambda>(e, d, m, c, ml, mb, k, key, sh). 2 - k)") auto

declare HashLongestMatch_dict_loop.simps [simp del]

text \<open>The dictionary part, from the test of \<open>match_found\<close> and of the quota on.\<close>

definition HashLongestMatch_dictionary ::
  "externals \<Rightarrow> byte_ptr \<Rightarrow> nat \<Rightarrow> u32 \<Rightarrow> u32 \<Rightarrow> u32 \<Rightarrow> locals \<times> HashLongestMatch
     \<Rightarrow> locals \<times> HashLongestMatch" where
  "HashLongestMatch_dictionary ext data ring_buffer_mask cur_ix max_length max_backward sh =
     (if \<not> match_found (fst sh) \<and>
         num_dict_matches (snd sh) \<ge> num_dict_lookups (snd sh) div 2 ^ 7 then
        (let cur_ix_masked = unat cur_ix AND ring_buffer_mask;
             key = push_bit 1 (Hash 14 (ptr_add data cur_ix_masked))
         in HashLongestMatch_dict_loop ext data ring_buffer_mask cur_ix max_length max_backward
              0 key sh)
      else sh)"

definition HashLongestMatch_FindLongestMatch ::
  "externals \<Rightarrow> nat \<Rightarrow> nat \<Rightarrow> nat \<Rightarrow> byte_ptr \<Rightarrow> nat \<Rightarrow> (nat \<Rightarrow> i32) \<Rightarrow> u32 \<Rightarrow> u32 \<Rightarrow> u32
     \<Rightarrow> outputs \<Rightarrow> HashLongestMatch \<Rightarrow> bool \<times> outputs \<times> HashLongestMatch" where
  "HashLongestMatch_FindLongestMatch ext kBucketBits kBlockBits kNumLastDistancesToCheck data
     ring_buffer_mask distance_cache cur_ix max_length max_backward outs h =
     (let sh = HashLongestMatch_dictionary ext data ring_buffer_mask cur_ix max_length
                 max_backward
                 (HashLongestMatch_search ext kBucketBits kBlockBits kNumLastDistancesToCheck
                    data ring_buffer_mask distance_cache cur_ix max_length max_backward outs h,
                  h)
      in (match_found (fst sh), outputs_of (fst sh), snd sh))"

section \<open>\<open>HashLongestMatchQuickly::FindLongestMatch\<close>\<close>

text \<open>
  A part of the function either returns (\<open>Return\<close>, with the value returned and the
  parameters as they are then) or goes on with its local variables (\<open>Continue\<close>).
\<close>

datatype flow = Return bool outputs | Continue quick_locals

text \<open>The local variables after their declarations, before the first probe.\<close>

definition HashLongestMatchQuickly_init :: "byte_ptr \<Rightarrow> nat \<Rightarrow> u32 \<Rightarrow> outputs \<Rightarrow> quick_locals" where
  "HashLongestMatchQuickly_init ring_buffer ring_buffer_mask cur_ix outs =
     (let best_len_in = best_len_out outs;
          cur_ix_masked = unat cur_ix AND ring_buffer_mask
      in \<lparr>best_len_out = best_len_out outs, best_len_code_out = best_len_code_out outs,
          best_distance_out = best_distance_out outs,
          best_score_out = best_score_out outs,
          best_score = best_score_out outs, best_len = best_len_in,
          match_found = False,
          compare_char = ring_buffer (cur_ix_masked + best_len_in)\<rparr>)"

text \<open>The probe of \<open>distance_cache[0]\<close>.\<close>

definition HashLongestMatchQuickly_last_distance ::
  "nat \<Rightarrow> byte_ptr \<Rightarrow> nat \<Rightarrow> (nat \<Rightarrow> i32) \<Rightarrow> u32 \<Rightarrow> u32 \<Rightarrow> quick_locals \<Rightarrow> flow" where
  "HashLongestMatchQuickly_last_distance kBucketSweep ring_buffer ring_buffer_mask
     distance_cache cur_ix max_length st =
     (let cur_ix_masked = unat cur_ix AND ring_buffer_mask;
          backward = distance_cache 0;
          prev_ix = unat (cur_ix - backward)
      in if prev_ix < unat cur_ix then
           (let prev_ix = prev_ix AND ring_buffer_mask
            in if compare_char st = ring_buffer (prev_ix + best_len st) then
                 (let len = FindMatchLengthWithLimit (ptr_add ring_buffer prev_ix)
                              (ptr_add ring_buffer cur_ix_masked) (unat max_length)
                  in if len \<ge> 4 then
                       (let st = st\<lparr>best_score := BackwardReferenceScoreUsingLastDistance len 0,
                                     best_len := len, best_len_out := len,
                                     best_len_code_out := len, best_distance_out := backward,
                                     best_score_out :=
                                       BackwardReferenceScoreUsingLastDistance len 0,
                                     compare_char := ring_buffer (cur_ix_masked + len)\<rparr>
                        in if kBucketSweep = 1 then Return True (outputs_of st)
                           else Continue (st\<lparr>match_found := True\<rparr>))
                     else Continue st)
               else Continue st)
         else Continue st)"

text \<open>The probe of the single bucket entry, for \<open>kBucketSweep == 1\<close>.\<close>

definition HashLongestMatchQuickly_single_probe ::
  "externals \<Rightarrow> byte_ptr \<Rightarrow> nat \<Rightarrow> u32 \<Rightarrow> u32 \<Rightarrow> u32 \<Rightarrow> nat \<Rightarrow> u32 \<Rightarrow> quick_locals \<Rightarrow> flow" where
  "HashLongestMatchQuickly_single_probe ext ring_buffer ring_buffer_mask cur_ix max_length
     max_backward best_len_in bucket_entry st =
     (let cur_ix_masked = unat cur_ix AND ring_buffer_mask;
          prev_ix = unat bucket_entry;
          backward = cur_ix - bucket_entry;
          prev_ix = prev_ix AND ring_buffer_mask
      in if compare_char st \<noteq> ring_buffer (prev_ix + best_len_in) then
           Return False (outputs_of st)
         else if backward = 0 \<or> backward > max_backward then Return False (outputs_of st)
         else
           (let len = FindMatchLengthWithLimit (ptr_add ring_buffer prev_ix)
                        (ptr_add ring_buffer cur_ix_masked) (unat max_length)
            in if len \<ge> 4 then
                 Return True
                   (outputs_of
                      (st\<lparr>best_len_out := len, best_len_code_out := len,
                          best_distance_out := backward,
                          best_score_out := BackwardReferenceScore ext len backward\<rparr>))
               else Continue st))"

text \<open>The body of the loop over the \<open>kBucketSweep\<close> entries, for the entry \<open>bucket_entry\<close>.\<close>

definition HashLongestMatchQuickly_sweep_step ::
  "externals \<Rightarrow> byte_ptr \<Rightarrow> nat \<Rightarrow> u32 \<Rightarrow> u32 \<Rightarrow> u32 \<Rightarrow> u32 \<Rightarrow> quick_locals \<Rightarrow> quick_locals" where
  "HashLongestMatchQuickly_sweep_step ext ring_buffer ring_buffer_mask cur_ix max_length
     max_backward bucket_entry st =
     (let cur_ix_masked = unat cur_ix AND ring_buffer_mask;
          backward = cur_ix - bucket_entry;
          prev_ix = unat bucket_entry AND ring_buffer_mask
      in if compare_char st \<noteq> ring_buffer (prev_ix + best_len st) then st
         else if backward = 0 \<or> backward > max_backward then st
         else
           (let len = FindMatchLengthWithLimit (ptr_add ring_buffer prev_ix)
                        (ptr_add ring_buffer cur_ix_masked) (unat max_length)
            in if len \<ge> 4 then
                 (let score = BackwardReferenceScore ext len backward
                  in if best_score st < score then
                       st\<lparr>best_score := score, best_len := len, best_len_out := len,
                          best_len_code_out := len, best_distance_out := backward,
                          best_score_out := score,
                          compare_char := ring_buffer (cur_ix_masked + len),
                          match_found := True\<rparr>
                     else st)
               else st))"

function HashLongestMatchQuickly_sweep_loop ::
  "externals \<Rightarrow> nat \<Rightarrow> (nat \<Rightarrow> u32) \<Rightarrow> nat \<Rightarrow> byte_ptr \<Rightarrow> nat \<Rightarrow> u32 \<Rightarrow> u32 \<Rightarrow> u32 \<Rightarrow> nat
     \<Rightarrow> quick_locals \<Rightarrow> quick_locals" where
  "HashLongestMatchQuickly_sweep_loop ext kBucketSweep bucket_array key ring_buffer
     ring_buffer_mask cur_ix max_length max_backward i st =
     (if i < kBucketSweep then
        HashLongestMatchQuickly_sweep_loop ext kBucketSweep bucket_array key ring_buffer
          ring_buffer_mask cur_ix max_length max_backward (i + 1)
          (HashLongestMatchQuickly_sweep_step ext ring_buffer ring_buffer_mask cur_ix max_length
             max_backward (bucket_array (key + i)) st)
      else st)"
  by pat_completeness auto
termination
  by (relation "measure (\<lambda>(e, n, b, k, r, m, c, ml, mb, i, st). n - i)") auto

declare HashLongestMatchQuickly_sweep_loop.simps [simp del]

text \<open>
  The statements before the dictionary: the initialisation, the probe of the last distance
  and the probe of the bucket.
\<close>

definition HashLongestMatchQuickly_search ::
  "externals \<Rightarrow> nat \<Rightarrow> nat \<Rightarrow> byte_ptr \<Rightarrow> nat \<Rightarrow> (nat \<Rightarrow> i32) \<Rightarrow> u32 \<Rightarrow> u32 \<Rightarrow> u32
     \<Rightarrow> outputs \<Rightarrow> HashLongestMatchQuickly \<Rightarrow> flow" where
  "HashLongestMatchQuickly_search ext kBucketBits kBucketSweep ring_buffer ring_buffer_mask
     distance_cache cur_ix max_length max_backward outs q =
     (let best_len_in = best_len_out outs;
          cur_ix_masked = unat cur_ix AND ring_buffer_mask;
          st = HashLongestMatchQuickly_init ring_buffer ring_buffer_mask cur_ix outs
      in case HashLongestMatchQuickly_last_distance kBucketSweep ring_buffer ring_buffer_mask
                distance_cache cur_ix max_length st of
           Return r outs' \<Rightarrow> Return r outs'
         | Continue st \<Rightarrow>
             (let key = unat (HashLongestMatchQuickly_HashBytes kBucketBits
                                (ptr_add ring_buffer cur_ix_masked))
              in if kBucketSweep = 1 then
                   HashLongestMatchQuickly_single_probe ext ring_buffer ring_buffer_mask cur_ix
                     max_length max_backward best_len_in (quick_buckets q key) st
                 else
                   Continue
                     (HashLongestMatchQuickly_sweep_loop ext kBucketSweep (quick_buckets q) key
                        ring_buffer ring_buffer_mask cur_ix max_length max_backward 0 st)))"

text \<open>The dictionary part, from the test of \<open>kUseDictionary\<close> to the final \<open>return\<close>.\<close>

definition HashLongestMatchQuickly_dictionary ::
  "externals \<Rightarrow> bool \<Rightarrow> byte_ptr \<Rightarrow> nat \<Rightarrow> u32 \<Rightarrow> u32 \<Rightarrow> u32 \<Rightarrow> quick_locals
     \<Rightarrow> HashLongestMatchQuickly \<Rightarrow> bool \<times> outputs \<times> HashLongestMatchQuickly" where
  "HashLongestMatchQuickly_dictionary ext kUseDictionary ring_buffer ring_buffer_mask cur_ix
     max_length max_backward st q =
     (if kUseDictionary \<and> \<not> match_found st \<and>
         quick_num_dict_matches q \<ge> quick_num_dict_lookups q div 2 ^ 7 then
        (let cur_ix_masked = unat cur_ix AND ring_buffer_mask;
             q = q\<lparr>quick_num_dict_lookups := quick_num_dict_lookups q + 1\<rparr>;
             key = push_bit 1 (Hash 14 (ptr_add ring_buffer cur_ix_masked));
             v = kStaticDictionaryHash ext (unat key)
         in if v > 0 then
              (let len = unat (v AND 31);
                   dist = unat (drop_bit 5 v);
                   offset = kBrotliDictionaryOffsetsByLength ext len + len * dist
               in if len \<le> unat max_length then
                    (let matchlen = FindMatchLengthWithLimit (ptr_add ring_buffer cur_ix_masked)
                                      (ptr_add (kBrotliDictionary ext) offset) len
                     in if int matchlen > int len - kCutoffTransformsCount \<and> matchlen > 0 then
                          (let transform_id = kCutoffTransforms ! (len - matchlen);
                               word_id = transform_id *
                                           2 ^ kBrotliDictionarySizeBitsByLength ext len + dist;
                               backward = max_backward + of_nat word_id + 1;
                               score = BackwardReferenceScore ext matchlen backward
                           in if best_score st < score then
                                (True,
                                 outputs_of
                                   (st\<lparr>best_score := score, best_len := matchlen,
                                       best_len_out := matchlen, best_len_code_out := len,
                                       best_distance_out := backward,
                                       best_score_out := score\<rparr>),
                                 q\<lparr>quick_num_dict_matches := quick_num_dict_matches q + 1\<rparr>)
                              else (match_found st, outputs_of st, q))
                        else (match_found st, outputs_of st, q))
                  else (match_found st, outputs_of st, q))
            else (match_found st, outputs_of st, q))
      else (match_found st, outputs_of st, q))"

definition HashLongestMatchQuickly_FindLongestMatch ::
  "externals \<Rightarrow> nat \<Rightarrow> nat \<Rightarrow> bool \<Rightarrow> byte_ptr \<Rightarrow> nat \<Rightarrow> (nat \<Rightarrow> i32) \<Rightarrow> u32 \<Rightarrow> u32 \<Rightarrow> u32
     \<Rightarrow> outputs \<Rightarrow> HashLongestMatchQuickly \<Rightarrow> bool \<times> outputs \<times> HashLongestMatchQuickly" where
  "HashLongestMatchQuickly_FindLongestMatch ext kBucketBits kBucketSweep kUseDictionary
     ring_buffer ring_buffer_mask distance_cache cur_ix max_length max_backward outs q =
     (case HashLongestMatchQuickly_search ext kBucketBits kBucketSweep ring_buffer
             ring_buffer_mask distance_cache cur_ix max_length max_backward outs q of
        Return r outs' \<Rightarrow> (r, outs', q)
      | Continue st \<Rightarrow>
          HashLongestMatchQuickly_dictionary ext kUseDictionary ring_buffer ring_buffer_mask
            cur_ix max_length max_backward st q)"

section \<open>Matches found before the dictionary, and invariants of the searches\<close>

text \<open>
  The match that \<open>FindLongestMatch\<close> has found when it reaches the dictionary part, if there
  is one: it comes from the last distances or from the hash table, and the dictionary part is
  then skipped.
\<close>

definition HashLongestMatch_local_match ::
  "externals \<Rightarrow> nat \<Rightarrow> nat \<Rightarrow> nat \<Rightarrow> byte_ptr \<Rightarrow> nat \<Rightarrow> (nat \<Rightarrow> i32) \<Rightarrow> u32 \<Rightarrow> u32 \<Rightarrow> u32
     \<Rightarrow> outputs \<Rightarrow> HashLongestMatch \<Rightarrow> outputs option" where
  "HashLongestMatch_local_match ext kBucketBits kBlockBits kNumLastDistancesToCheck data
     ring_buffer_mask distance_cache cur_ix max_length max_backward outs h =
     (let st = HashLongestMatch_search ext kBucketBits kBlockBits kNumLastDistancesToCheck data
                 ring_buffer_mask distance_cache cur_ix max_length max_backward outs h
      in if match_found st then Some (outputs_of st) else None)"

definition HashLongestMatchQuickly_local_match ::
  "externals \<Rightarrow> nat \<Rightarrow> nat \<Rightarrow> byte_ptr \<Rightarrow> nat \<Rightarrow> (nat \<Rightarrow> i32) \<Rightarrow> u32 \<Rightarrow> u32 \<Rightarrow> u32
     \<Rightarrow> outputs \<Rightarrow> HashLongestMatchQuickly \<Rightarrow> outputs option" where
  "HashLongestMatchQuickly_local_match ext kBucketBits kBucketSweep ring_buffer
     ring_buffer_mask distance_cache cur_ix max_length max_backward outs q =
     (case HashLongestMatchQuickly_search ext kBucketBits kBucketSweep ring_buffer
             ring_buffer_mask distance_cache cur_ix max_length max_backward outs q of
        Return r outs' \<Rightarrow> if r then Some outs' else None
      | Continue st \<Rightarrow> if match_found st then Some (outputs_of st) else None)"

text \<open>The bucket that \<open>HashLongestMatch::FindLongestMatch\<close> scans at \<open>cur_ix\<close>.\<close>

definition HashLongestMatch_bucket_at ::
  "nat \<Rightarrow> byte_ptr \<Rightarrow> nat \<Rightarrow> u32 \<Rightarrow> HashLongestMatch \<Rightarrow> nat \<Rightarrow> i32" where
  "HashLongestMatch_bucket_at kBucketBits data ring_buffer_mask cur_ix h =
     buckets h (unat (HashLongestMatch_HashBytes kBucketBits
                        (ptr_add data (unat cur_ix AND ring_buffer_mask))))"

text \<open>
  Invariants of the loops. \<open>score_inv s0\<close>: the local best score never falls below the
  score \<open>s0\<close> passed in, and once a match is found the score written out is the local best
  score and exceeds \<open>s0\<close>. \<open>distance_inv\<close>: once a match is found, the distance written out
  is at most \<open>max_backward\<close>, and is not 0 when \<open>nonzero\<close> holds. \<open>quick_distance_inv\<close>: once a
  match is found, the distance written out is not 0 and is either at most \<open>max_backward\<close>
  or the last distance, which is at most \<open>cur_ix\<close>.
\<close>

definition score_inv :: "real \<Rightarrow> 'a locals_scheme \<Rightarrow> bool" where
  "score_inv s0 st \<longleftrightarrow>
     s0 \<le> best_score st \<and>
     (match_found st \<longrightarrow> best_score_out st = best_score st \<and> s0 < best_score st)"

definition distance_inv :: "bool \<Rightarrow> u32 \<Rightarrow> 'a locals_scheme \<Rightarrow> bool" where
  "distance_inv nonzero max_backward st \<longleftrightarrow>
     (match_found st \<longrightarrow>
        best_distance_out st \<le> max_backward \<and> (nonzero \<longrightarrow> best_distance_out st \<noteq> 0))"

definition quick_distance_ok :: "u32 \<Rightarrow> u32 \<Rightarrow> u32 \<Rightarrow> u32 \<Rightarrow> bool" where
  "quick_distance_ok last_distance cur_ix max_backward d \<longleftrightarrow>
     d \<noteq> 0 \<and> (d \<le> max_backward \<or> (d = last_distance \<and> d \<le> cur_ix))"

text \<open>
  Collaborators for the examples: the floor of the binary logarithm (\<open>-1\<close> at 0), and a
  static dictionary whose hash table is empty.
\<close>

function bit_length :: "nat \<Rightarrow> nat" where
  "bit_length n = (if n = 0 then 0 else 1 + bit_length (n div 2))"
  by pat_completeness auto
termination
  by (relation "measure id") auto

declare bit_length.simps [simp del]

definition example_externals :: externals where
  "example_externals =
     \<lparr>Log2Floor = (\<lambda>n. int (bit_length (unat n)) - 1),
      kStaticDictionaryHash = (\<lambda>_. 0),
      kBrotliDictionaryOffsetsByLength = (\<lambda>_. 0),
      kBrotliDictionarySizeBitsByLength = (\<lambda>_. 0),
      kBrotliDictionary = (\<lambda>_. 0),
      kMaxDictionaryMatchLen = 37,
      kInvalidMatch = 268435455,
      FindAllStaticDictionaryMatches = (\<lambda>data min_length max_length. (False, (\<lambda>_. 268435455)))\<rparr>"

text \<open>
  The key of the static dictionary hash table as the specification writes it, to compare
  with \<open>Hash<14>(p) << 1\<close> of the source.
\<close>

definition spec_dictionary_key :: "byte_ptr \<Rightarrow> u32" where
  "spec_dictionary_key p = Hash 15 p AND NOT 1"

text \<open>
  An entry \<open>v\<close> of \<open>kStaticDictionaryHash\<close> names the word of length \<open>v & 31\<close> and index
  \<open>v >> 5\<close> of the static dictionary. \<open>dictionary_word_matches\<close>: the word is not empty and
  not longer than \<open>max_length\<close>, the data at \<open>p\<close> starts with the whole word, and the score
  of the word as a match at the distance \<open>max_backward + (v >> 5) + 1\<close> is above \<open>score0\<close>.
  \<open>dictionary_word_outputs\<close>: the values of the four out-parameters that report this word.
\<close>

definition dictionary_word_matches ::
  "externals \<Rightarrow> byte_ptr \<Rightarrow> u32 \<Rightarrow> u32 \<Rightarrow> real \<Rightarrow> u16 \<Rightarrow> bool" where
  "dictionary_word_matches ext p max_length max_backward score0 v \<longleftrightarrow>
     (let len = unat (v AND 31);
          dist = unat (drop_bit 5 v)
      in 0 < len \<and> len \<le> unat max_length \<and>
         FindMatchLengthWithLimit p
           (ptr_add (kBrotliDictionary ext) (kBrotliDictionaryOffsetsByLength ext len + len * dist))
           len = len \<and>
         score0 < BackwardReferenceScore ext len (max_backward + of_nat dist + 1))"

definition dictionary_word_outputs :: "externals \<Rightarrow> u32 \<Rightarrow> u16 \<Rightarrow> outputs" where
  "dictionary_word_outputs ext max_backward v =
     (let len = unat (v AND 31);
          backward = max_backward + of_nat (unat (drop_bit 5 v)) + 1
      in \<lparr>best_len_out = len, best_len_code_out = len, best_distance_out = backward,
          best_score_out = BackwardReferenceScore ext len backward\<rparr>)"

text \<open>
  Two static dictionaries for the examples, of zero bytes: the hash table of the first has
  the entry 4 (the word of length 4 and index 0) at the key 0 and nothing else, the hash
  table of the second has it at the key 1.
\<close>

definition example_table_first :: externals where
  "example_table_first = example_externals\<lparr>kStaticDictionaryHash := (\<lambda>i. if i = 0 then 4 else 0)\<rparr>"

definition example_table_second :: externals where
  "example_table_second = example_externals\<lparr>kStaticDictionaryHash := (\<lambda>i. if i = 1 then 4 else 0)\<rparr>"

text \<open>Local variables for the examples: no match yet, all scores and lengths 0.\<close>

definition example_locals :: locals where
  "example_locals =
     \<lparr>best_len_out = 0, best_len_code_out = 0, best_distance_out = 0, best_score_out = 0,
      best_score = 0, best_len = 0, match_found = False\<rparr>"

definition example_quick_locals :: quick_locals where
  "example_quick_locals =
     \<lparr>best_len_out = 0, best_len_code_out = 0, best_distance_out = 0, best_score_out = 0,
      best_score = 0, best_len = 0, match_found = False, compare_char = 0\<rparr>"

section \<open>\<open>BackwardMatch\<close> and the array of matches\<close>

text \<open>
  \<open>length_and_code\<close> is an integer without a width: a length is at most \<open>max_length\<close>, far
  below the \<open>2^26\<close> at which the shift by 5 would leave an \<open>int\<close>. The two constructors
  with arguments are \<open>BackwardMatch_dist_len\<close> and \<open>BackwardMatch_dist_len_code\<close>.
\<close>

record BackwardMatch =
  distance :: i32
  length_and_code :: int

definition BackwardMatch_dist_len :: "i32 \<Rightarrow> int \<Rightarrow> BackwardMatch" where
  "BackwardMatch_dist_len dist_arg len =
     \<lparr>distance = dist_arg, length_and_code = push_bit 5 len\<rparr>"

definition BackwardMatch_dist_len_code :: "i32 \<Rightarrow> int \<Rightarrow> int \<Rightarrow> BackwardMatch" where
  "BackwardMatch_dist_len_code dist_arg len len_code =
     \<lparr>distance = dist_arg,
      length_and_code = push_bit 5 len OR (if len = len_code then 0 else len_code)\<rparr>"

definition BackwardMatch_length :: "BackwardMatch \<Rightarrow> int" where
  "BackwardMatch_length m = drop_bit 5 (length_and_code m)"

definition BackwardMatch_length_code :: "BackwardMatch \<Rightarrow> int" where
  "BackwardMatch_length_code m =
     (let code = length_and_code m AND 31
      in if code \<noteq> 0 then code else BackwardMatch_length m)"

text \<open>
  The caller's array \<open>matches\<close> is a function from indices to matches, and the pointer
  \<open>matches\<close> an index into it: \<open>match_array\<close> is the pair of both, \<open>push_match\<close> is
  \<open>*matches++ = m\<close>.
\<close>

type_synonym match_array = "nat \<times> (nat \<Rightarrow> BackwardMatch)"

definition push_match :: "BackwardMatch \<Rightarrow> match_array \<Rightarrow> match_array" where
  "push_match m ma = (fst ma + 1, (snd ma)(fst ma := m))"

definition kMaxZopfliLen :: nat where
  "kMaxZopfliLen = 325"

section \<open>\<open>HashLongestMatch::FindAllMatches\<close>\<close>

text \<open>
  In both loops, the statements under \<open>if (len > best_len)\<close>: the new best length, the
  rewinding of \<open>matches\<close> to \<open>orig_matches\<close> for a length above \<open>kMaxZopfliLen\<close>, and the
  match written.
\<close>

definition HashLongestMatch_accept ::
  "nat \<Rightarrow> i32 \<Rightarrow> nat \<Rightarrow> nat \<times> match_array \<Rightarrow> nat \<times> match_array" where
  "HashLongestMatch_accept orig_matches backward len bm =
     (if len > fst bm then
        (len,
         push_match (BackwardMatch_dist_len backward (int len))
           (if len > kMaxZopfliLen then (orig_matches, snd (snd bm)) else snd bm))
      else bm)"

text \<open>The scan of the positions just before \<open>cur_ix\<close>, from \<open>i\<close> down to \<open>stop + 1\<close>.\<close>

function HashLongestMatch_back_scan ::
  "nat \<Rightarrow> byte_ptr \<Rightarrow> nat \<Rightarrow> u32 \<Rightarrow> u32 \<Rightarrow> u32 \<Rightarrow> int \<Rightarrow> int \<Rightarrow> nat \<times> match_array
     \<Rightarrow> nat \<times> match_array" where
  "HashLongestMatch_back_scan orig_matches data ring_buffer_mask cur_ix max_length max_backward
     stop i bm =
     (if i > stop \<and> fst bm \<le> 2 then
        (let cur_ix_masked = unat cur_ix AND ring_buffer_mask;
             prev_ix = nat i;
             backward = unat cur_ix - prev_ix
         in if backward > unat max_backward then bm
            else
              (let prev_ix = prev_ix AND ring_buffer_mask
               in if data cur_ix_masked \<noteq> data prev_ix \<or>
                     data (cur_ix_masked + 1) \<noteq> data (prev_ix + 1) then
                    HashLongestMatch_back_scan orig_matches data ring_buffer_mask cur_ix
                      max_length max_backward stop (i - 1) bm
                  else
                    HashLongestMatch_back_scan orig_matches data ring_buffer_mask cur_ix
                      max_length max_backward stop (i - 1)
                      (HashLongestMatch_accept orig_matches (of_nat backward)
                         (FindMatchLengthWithLimit (ptr_add data prev_ix)
                            (ptr_add data cur_ix_masked) (unat max_length))
                         bm)))
      else bm)"
  by pat_completeness auto
termination
  by (relation "measure (\<lambda>(om, d, m, c, ml, mb, stop, i, bm). nat (i - stop))") auto

declare HashLongestMatch_back_scan.simps [simp del]

text \<open>The body of the loop over the bucket, after the test of \<open>backward\<close>.\<close>

definition HashLongestMatch_all_bucket_step ::
  "nat \<Rightarrow> byte_ptr \<Rightarrow> nat \<Rightarrow> u32 \<Rightarrow> u32 \<Rightarrow> i32 \<Rightarrow> nat \<times> match_array \<Rightarrow> nat \<times> match_array" where
  "HashLongestMatch_all_bucket_step orig_matches data ring_buffer_mask cur_ix max_length
     prev_ix bm =
     (let cur_ix_masked = unat cur_ix AND ring_buffer_mask;
          backward = cur_ix - prev_ix;
          prev_ix = unat prev_ix AND ring_buffer_mask
      in if cur_ix_masked + fst bm > ring_buffer_mask \<or>
            prev_ix + fst bm > ring_buffer_mask \<or>
            data (cur_ix_masked + fst bm) \<noteq> data (prev_ix + fst bm)
         then bm
         else HashLongestMatch_accept orig_matches backward
                (FindMatchLengthWithLimit (ptr_add data prev_ix) (ptr_add data cur_ix_masked)
                   (unat max_length))
                bm)"

function HashLongestMatch_all_bucket_loop ::
  "nat \<Rightarrow> nat \<Rightarrow> (nat \<Rightarrow> i32) \<Rightarrow> int \<Rightarrow> byte_ptr \<Rightarrow> nat \<Rightarrow> u32 \<Rightarrow> u32 \<Rightarrow> u32 \<Rightarrow> int
     \<Rightarrow> nat \<times> match_array \<Rightarrow> nat \<times> match_array" where
  "HashLongestMatch_all_bucket_loop orig_matches kBlockBits bucket down data ring_buffer_mask
     cur_ix max_length max_backward i bm =
     (if i \<ge> down then
        (let prev_ix = bucket (nat i AND kBlockMask kBlockBits)
         in if 0 \<le> sint prev_ix then
              (if cur_ix - prev_ix > max_backward then bm
               else HashLongestMatch_all_bucket_loop orig_matches kBlockBits bucket down data
                      ring_buffer_mask cur_ix max_length max_backward (i - 1)
                      (HashLongestMatch_all_bucket_step orig_matches data ring_buffer_mask
                         cur_ix max_length prev_ix bm))
            else HashLongestMatch_all_bucket_loop orig_matches kBlockBits bucket down data
                   ring_buffer_mask cur_ix max_length max_backward (i - 1) bm)
      else bm)"
  by pat_completeness auto
termination
  by (relation "measure (\<lambda>(om, k, b, down, d, m, c, ml, mb, i, bm). nat (i - down + 1))") auto

declare HashLongestMatch_all_bucket_loop.simps [simp del]

text \<open>
  The two loops one after the other, from \<open>best_len = 1\<close>: the best length and the array
  when the dictionary part begins.
\<close>

definition HashLongestMatch_scans ::
  "nat \<Rightarrow> nat \<Rightarrow> byte_ptr \<Rightarrow> nat \<Rightarrow> u32 \<Rightarrow> u32 \<Rightarrow> u32 \<Rightarrow> match_array \<Rightarrow> HashLongestMatch
     \<Rightarrow> nat \<times> match_array" where
  "HashLongestMatch_scans kBucketBits kBlockBits data ring_buffer_mask cur_ix max_length
     max_backward matches h =
     (let orig_matches = fst matches;
          cur_ix_masked = unat cur_ix AND ring_buffer_mask;
          stop = (if sint cur_ix - 64 < 0 then 0 else sint cur_ix - 64);
          bm = HashLongestMatch_back_scan orig_matches data ring_buffer_mask cur_ix max_length
                 max_backward stop (sint (cur_ix - 1)) (1, matches);
          key = unat (HashLongestMatch_HashBytes kBucketBits (ptr_add data cur_ix_masked));
          down = (if unat (num h key) > kBlockSize kBlockBits
                  then int (unat (num h key)) - int (kBlockSize kBlockBits) else 0)
      in HashLongestMatch_all_bucket_loop orig_matches kBlockBits (buckets h key) down data
           ring_buffer_mask cur_ix max_length max_backward (int (unat (num h key)) - 1) bm)"

text \<open>The loop over the dictionary matches, from the length \<open>l\<close> up to \<open>maxlen\<close>.\<close>

function dictionary_matches_loop ::
  "int \<Rightarrow> (int \<Rightarrow> int) \<Rightarrow> u32 \<Rightarrow> int \<Rightarrow> int \<Rightarrow> match_array \<Rightarrow> match_array" where
  "dictionary_matches_loop invalid_match dict_matches base maxlen l matches =
     (if l \<le> maxlen then
        dictionary_matches_loop invalid_match dict_matches base maxlen (l + 1)
          (let dict_id = dict_matches l
           in if dict_id < invalid_match then
                push_match
                  (BackwardMatch_dist_len_code (base + of_int (dict_id div 32) + 1) l
                     (dict_id mod 32))
                  matches
              else matches)
      else matches)"
  by pat_completeness auto
termination
  by (relation "measure (\<lambda>(inv, dm, b, maxlen, l, ms). nat (maxlen - l + 1))") auto

declare dictionary_matches_loop.simps [simp del]

text \<open>
  \<open>FindAllMatches\<close> takes the value of \<open>*num_matches\<close> and the array with its pointer, and
  returns both. It is a \<open>const\<close> member function: the hasher does not change.
\<close>

definition HashLongestMatch_FindAllMatches ::
  "externals \<Rightarrow> nat \<Rightarrow> nat \<Rightarrow> byte_ptr \<Rightarrow> nat \<Rightarrow> u32 \<Rightarrow> u32 \<Rightarrow> u32 \<Rightarrow> int \<Rightarrow> match_array
     \<Rightarrow> HashLongestMatch \<Rightarrow> int \<times> match_array" where
  "HashLongestMatch_FindAllMatches ext kBucketBits kBlockBits data ring_buffer_mask cur_ix
     max_length max_backward num_matches matches h =
     (let orig_matches = fst matches;
          cur_ix_masked = unat cur_ix AND ring_buffer_mask;
          bm = HashLongestMatch_scans kBucketBits kBlockBits data ring_buffer_mask cur_ix
                 max_length max_backward matches h;
          best_len = fst bm;
          matches = snd bm;
          minlen = max 4 (int best_len + 1);
          found = FindAllStaticDictionaryMatches ext (ptr_add data cur_ix_masked) minlen
                    (sint max_length);
          matches =
            (if fst found then
               (let maxlen = min (int (kMaxDictionaryMatchLen ext)) (sint max_length)
                in dictionary_matches_loop (kInvalidMatch ext) (snd found) max_backward maxlen
                     minlen matches)
             else matches)
      in (num_matches + (int (fst matches) - int orig_matches), matches))"

text \<open>
  Every match the two loops accept, in the order they accept it, with no rewinding: the
  matches found in the scan. The loops are those of \<open>HashLongestMatch_scans\<close>.
\<close>

definition found_accept :: "i32 \<Rightarrow> nat \<Rightarrow> nat \<times> BackwardMatch list \<Rightarrow> nat \<times> BackwardMatch list" where
  "found_accept backward len bf =
     (if len > fst bf then (len, snd bf @ [BackwardMatch_dist_len backward (int len)]) else bf)"

function found_back_scan ::
  "byte_ptr \<Rightarrow> nat \<Rightarrow> u32 \<Rightarrow> u32 \<Rightarrow> u32 \<Rightarrow> int \<Rightarrow> int \<Rightarrow> nat \<times> BackwardMatch list
     \<Rightarrow> nat \<times> BackwardMatch list" where
  "found_back_scan data ring_buffer_mask cur_ix max_length max_backward stop i bf =
     (if i > stop \<and> fst bf \<le> 2 then
        (let cur_ix_masked = unat cur_ix AND ring_buffer_mask;
             prev_ix = nat i;
             backward = unat cur_ix - prev_ix
         in if backward > unat max_backward then bf
            else
              (let prev_ix = prev_ix AND ring_buffer_mask
               in if data cur_ix_masked \<noteq> data prev_ix \<or>
                     data (cur_ix_masked + 1) \<noteq> data (prev_ix + 1) then
                    found_back_scan data ring_buffer_mask cur_ix max_length max_backward stop
                      (i - 1) bf
                  else
                    found_back_scan data ring_buffer_mask cur_ix max_length max_backward stop
                      (i - 1)
                      (found_accept (of_nat backward)
                         (FindMatchLengthWithLimit (ptr_add data prev_ix)
                            (ptr_add data cur_ix_masked) (unat max_length))
                         bf)))
      else bf)"
  by pat_completeness auto
termination
  by (relation "measure (\<lambda>(d, m, c, ml, mb, stop, i, bf). nat (i - stop))") auto

declare found_back_scan.simps [simp del]

definition found_bucket_step ::
  "byte_ptr \<Rightarrow> nat \<Rightarrow> u32 \<Rightarrow> u32 \<Rightarrow> i32 \<Rightarrow> nat \<times> BackwardMatch list
     \<Rightarrow> nat \<times> BackwardMatch list" where
  "found_bucket_step data ring_buffer_mask cur_ix max_length prev_ix bf =
     (let cur_ix_masked = unat cur_ix AND ring_buffer_mask;
          backward = cur_ix - prev_ix;
          prev_ix = unat prev_ix AND ring_buffer_mask
      in if cur_ix_masked + fst bf > ring_buffer_mask \<or>
            prev_ix + fst bf > ring_buffer_mask \<or>
            data (cur_ix_masked + fst bf) \<noteq> data (prev_ix + fst bf)
         then bf
         else found_accept backward
                (FindMatchLengthWithLimit (ptr_add data prev_ix) (ptr_add data cur_ix_masked)
                   (unat max_length))
                bf)"

function found_bucket_loop ::
  "nat \<Rightarrow> (nat \<Rightarrow> i32) \<Rightarrow> int \<Rightarrow> byte_ptr \<Rightarrow> nat \<Rightarrow> u32 \<Rightarrow> u32 \<Rightarrow> u32 \<Rightarrow> int
     \<Rightarrow> nat \<times> BackwardMatch list \<Rightarrow> nat \<times> BackwardMatch list" where
  "found_bucket_loop kBlockBits bucket down data ring_buffer_mask cur_ix max_length
     max_backward i bf =
     (if i \<ge> down then
        (let prev_ix = bucket (nat i AND kBlockMask kBlockBits)
         in if 0 \<le> sint prev_ix then
              (if cur_ix - prev_ix > max_backward then bf
               else found_bucket_loop kBlockBits bucket down data ring_buffer_mask cur_ix
                      max_length max_backward (i - 1)
                      (found_bucket_step data ring_buffer_mask cur_ix max_length prev_ix bf))
            else found_bucket_loop kBlockBits bucket down data ring_buffer_mask cur_ix
                   max_length max_backward (i - 1) bf)
      else bf)"
  by pat_completeness auto
termination
  by (relation "measure (\<lambda>(k, b, down, d, m, c, ml, mb, i, bf). nat (i - down + 1))") auto

declare found_bucket_loop.simps [simp del]

definition matches_found_in_scan ::
  "nat \<Rightarrow> nat \<Rightarrow> byte_ptr \<Rightarrow> nat \<Rightarrow> u32 \<Rightarrow> u32 \<Rightarrow> u32 \<Rightarrow> HashLongestMatch \<Rightarrow> BackwardMatch list" where
  "matches_found_in_scan kBucketBits kBlockBits data ring_buffer_mask cur_ix max_length
     max_backward h =
     (let cur_ix_masked = unat cur_ix AND ring_buffer_mask;
          stop = (if sint cur_ix - 64 < 0 then 0 else sint cur_ix - 64);
          bf = found_back_scan data ring_buffer_mask cur_ix max_length max_backward stop
                 (sint (cur_ix - 1)) (1, []);
          key = unat (HashLongestMatch_HashBytes kBucketBits (ptr_add data cur_ix_masked));
          down = (if unat (num h key) > kBlockSize kBlockBits
                  then int (unat (num h key)) - int (kBlockSize kBlockBits) else 0)
      in snd (found_bucket_loop kBlockBits (buckets h key) down data ring_buffer_mask cur_ix
                max_length max_backward (int (unat (num h key)) - 1) bf))"

section \<open>\<open>BT4_Matchfinder::AdvanceOneByte\<close>, \<open>FindAllMatches\<close> and \<open>SkipByte\<close>\<close>

text \<open>
  The template parameters \<open>kHash2Log\<close>, \<open>kHash3Log\<close> and \<open>kHash4Log\<close> are arguments. A
  pointer into \<open>child_tab_\<close> is the index of the cell.
\<close>

definition BT4_Hash :: "u32 \<Rightarrow> nat \<Rightarrow> u32" where
  "BT4_Hash seq num_bits = drop_bit (32 - num_bits) (seq * 0x1e35a7bd)"

definition kHash2Offset :: nat where
  "kHash2Offset = 0"

definition kHash3Offset :: "nat \<Rightarrow> nat" where
  "kHash3Offset kHash2Log = kHash2Offset + 2 ^ kHash2Log"

definition kHash4Offset :: "nat \<Rightarrow> nat \<Rightarrow> nat" where
  "kHash4Offset kHash2Log kHash3Log = kHash3Offset kHash2Log + 2 ^ kHash3Log"

definition read_child :: "(nat \<Rightarrow> cell) \<Rightarrow> nat \<Rightarrow> u32" where
  "read_child tab k = cell_value (tab k)"

text \<open>
  The local variables of the loop of \<open>AdvanceOneByte\<close>, with the array of matches and
  \<open>child_tab_\<close> as the loop changes them. \<open>depth_remaining\<close> is an argument of the loop.
\<close>

record bt4_locals =
  prev_ix :: u32
  pending_lt_ptr :: nat
  pending_gt_ptr :: nat
  best_lt_len :: u32
  best_gt_len :: u32
  len :: u32
  bt4_best_len :: u32
  bt4_matches :: match_array
  tree :: "nat \<Rightarrow> cell"

text \<open>
  A part of the loop either returns (\<open>Done\<close>, with the pointer \<open>matches\<close> returned, the value
  of \<open>*best_len_ret\<close> and \<open>child_tab_\<close>) or goes on (\<open>Go\<close>).
\<close>

datatype bt4_flow = Done match_array u32 "nat \<Rightarrow> cell" | Go bt4_locals

text \<open>\<open>*pending_lt_ptr = pair[0]; *pending_gt_ptr = pair[1];\<close>\<close>

definition BT4_splice :: "(nat \<Rightarrow> cell) \<Rightarrow> nat \<Rightarrow> nat \<Rightarrow> nat \<Rightarrow> (nat \<Rightarrow> cell)" where
  "BT4_splice tab lt gt pair =
     (let tab = tab(lt := Assigned (read_child tab pair))
      in tab(gt := Assigned (read_child tab (pair + 1))))"

text \<open>The first statement of the loop body: the comparison at \<open>len\<close> and what it guards.\<close>

definition BT4_extend ::
  "u32 \<Rightarrow> byte_ptr \<Rightarrow> u32 \<Rightarrow> u32 \<Rightarrow> u32 \<Rightarrow> u32 \<Rightarrow> nat \<Rightarrow> u32 \<Rightarrow> bool \<Rightarrow> bt4_locals
     \<Rightarrow> bt4_flow" where
  "BT4_extend wm data cur_ix ring_buffer_mask max_length nice_len orig_matches best_len_ret
     record_matches st =
     (let strptr = ptr_add data (unat (cur_ix AND ring_buffer_mask));
          matchptr = ptr_add data (unat (prev_ix st AND ring_buffer_mask));
          pair = 2 * unat (prev_ix st AND wm)
      in if matchptr (unat (len st)) = strptr (unat (len st)) then
           (let len1 = len st + 1;
                len2 = len1 + of_nat (FindMatchLengthWithLimit (ptr_add strptr (unat len1))
                                        (ptr_add matchptr (unat len1)) (unat (max_length - len1)));
                st = st\<lparr>len := len2\<rparr>
            in if \<not> record_matches then
                 (if len2 \<ge> nice_len then
                    Done (bt4_matches st) best_len_ret
                      (BT4_splice (tree st) (pending_lt_ptr st) (pending_gt_ptr st) pair)
                  else Go st)
               else if len2 > bt4_best_len st then
                 (let st = st\<lparr>bt4_best_len := len2\<rparr>
                  in if len2 \<ge> nice_len then
                       (let matches = push_match
                                        (BackwardMatch_dist_len (cur_ix - prev_ix st)
                                           (int (unat len2)))
                                        (orig_matches, snd (bt4_matches st))
                        in Done matches len2
                             (BT4_splice (tree st) (pending_lt_ptr st) (pending_gt_ptr st) pair))
                     else
                       Go (st\<lparr>bt4_matches :=
                                push_match
                                  (BackwardMatch_dist_len (cur_ix - prev_ix st)
                                     (int (unat len2)))
                                  (bt4_matches st)\<rparr>))
               else Go st)
         else Go st)"

text \<open>The second statement of the loop body: the step to the left or to the right child.\<close>

definition BT4_turn :: "u32 \<Rightarrow> byte_ptr \<Rightarrow> u32 \<Rightarrow> u32 \<Rightarrow> bt4_locals \<Rightarrow> bt4_locals" where
  "BT4_turn wm data cur_ix ring_buffer_mask st =
     (let strptr = ptr_add data (unat (cur_ix AND ring_buffer_mask));
          matchptr = ptr_add data (unat (prev_ix st AND ring_buffer_mask));
          pair = 2 * unat (prev_ix st AND wm)
      in if matchptr (unat (len st)) < strptr (unat (len st)) then
           (let tab = (tree st)(pending_lt_ptr st := Assigned (prev_ix st))
            in st\<lparr>tree := tab, pending_lt_ptr := pair + 1, prev_ix := read_child tab (pair + 1),
                  best_lt_len := len st,
                  len := (if best_gt_len st < len st then best_gt_len st else len st)\<rparr>)
         else
           (let tab = (tree st)(pending_gt_ptr st := Assigned (prev_ix st))
            in st\<lparr>tree := tab, pending_gt_ptr := pair, prev_ix := read_child tab pair,
                  best_gt_len := len st,
                  len := (if best_lt_len st < len st then best_lt_len st else len st)\<rparr>))"

text \<open>
  The loop \<open>for (;;)\<close>. It ends with \<open>depth_remaining\<close>, which falls by one in each round and
  stops the loop at 0.
\<close>

function BT4_descend ::
  "u32 \<Rightarrow> byte_ptr \<Rightarrow> u32 \<Rightarrow> u32 \<Rightarrow> u32 \<Rightarrow> u32 \<Rightarrow> nat \<Rightarrow> u32 \<Rightarrow> bool \<Rightarrow> u32 \<Rightarrow> bt4_locals
     \<Rightarrow> match_array \<times> u32 \<times> (nat \<Rightarrow> cell)" where
  "BT4_descend wm data cur_ix ring_buffer_mask max_length nice_len orig_matches best_len_ret
     record_matches depth_remaining st =
     (case BT4_extend wm data cur_ix ring_buffer_mask max_length nice_len orig_matches
             best_len_ret record_matches st of
        Done matches best tab \<Rightarrow> (matches, best, tab)
      | Go st \<Rightarrow>
          (let st = BT4_turn wm data cur_ix ring_buffer_mask st
           in if cur_ix - prev_ix st > wm - 15 then
                (bt4_matches st, bt4_best_len st,
                 ((tree st)(pending_lt_ptr st := Assigned (- wm)))
                   (pending_gt_ptr st := Assigned (- wm)))
              else if depth_remaining - 1 = 0 then
                (bt4_matches st, bt4_best_len st,
                 ((tree st)(pending_lt_ptr st := Assigned (- wm)))
                   (pending_gt_ptr st := Assigned (- wm)))
              else
                BT4_descend wm data cur_ix ring_buffer_mask max_length nice_len orig_matches
                  best_len_ret record_matches (depth_remaining - 1) st))"
  by pat_completeness auto
termination
proof (relation "measure (\<lambda>(wm, d, c, r, ml, nl, om, bl, rm, depth, st). unat (depth - 1))",
    goal_cases)
  case 1
  show ?case by simp
next
  case (2 wm data cur_ix ring_buffer_mask max_length nice_len orig_matches best_len_ret
      record_matches depth_remaining st st1 st2)
  then have ne: "depth_remaining - 1 \<noteq> 0" by simp
  have eq: "unat (depth_remaining - 1 - 1) = unat (depth_remaining - 1) - 1"
    by (rule unat_minus_one[OF ne])
  have "0 < unat (depth_remaining - 1)"
    using ne by (simp add: unat_gt_0)
  with eq have "unat (depth_remaining - 1 - 1) < unat (depth_remaining - 1)"
    by linarith
  then show ?case by simp
qed

declare BT4_descend.simps [simp del]

text \<open>
  The statements of \<open>AdvanceOneByte\<close> on the three hash subtables: the matches of length 2
  and 3, and the entry of the third subtable before \<open>cur_ix\<close> replaces it, which is the root
  of the tree. The result is the array of matches, that root and \<open>hash_tabs_\<close>.
\<close>

definition BT4_hash_buckets ::
  "nat \<Rightarrow> nat \<Rightarrow> nat \<Rightarrow> byte_ptr \<Rightarrow> u32 \<Rightarrow> u32 \<Rightarrow> match_array \<Rightarrow> bool \<Rightarrow> BT4_Matchfinder
     \<Rightarrow> match_array \<times> u32 \<times> (nat \<Rightarrow> u32)" where
  "BT4_hash_buckets kHash2Log kHash3Log kHash4Log data cur_ix ring_buffer_mask matches
     record_matches m =
     (let wm = window_mask m;
          strptr = ptr_add data (unat (cur_ix AND ring_buffer_mask));
          seq4 = BROTLI_UNALIGNED_LOAD32 strptr;
          seq3 = BROTLI_LOADED_U32_TO_U24 seq4;
          seq2 = BROTLI_LOADED_U32_TO_U16 seq4;
          hash2 = unat (BT4_Hash seq2 kHash2Log);
          prev = hash_tabs m (kHash2Offset + hash2);
          tabs = (hash_tabs m)(kHash2Offset + hash2 := cur_ix);
          matches =
            (if record_matches \<and> cur_ix - prev \<le> wm - 15 \<and>
                seq2 = ucast (BROTLI_UNALIGNED_LOAD16
                                (ptr_add data (unat (prev AND ring_buffer_mask))))
             then push_match (BackwardMatch_dist_len (cur_ix - prev) 2) matches
             else matches);
          hash3 = unat (BT4_Hash seq3 kHash3Log);
          prev = tabs (kHash3Offset kHash2Log + hash3);
          tabs = tabs(kHash3Offset kHash2Log + hash3 := cur_ix);
          matches =
            (if record_matches \<and> cur_ix - prev \<le> wm - 15 \<and>
                seq3 = BROTLI_LOADED_U32_TO_U24
                         (BROTLI_UNALIGNED_LOAD32
                            (ptr_add data (unat (prev AND ring_buffer_mask))))
             then push_match (BackwardMatch_dist_len (cur_ix - prev) 3) matches
             else matches);
          hash4 = unat (BT4_Hash seq4 kHash4Log);
          prev = tabs (kHash4Offset kHash2Log kHash3Log + hash4);
          tabs = tabs(kHash4Offset kHash2Log kHash3Log + hash4 := cur_ix)
      in (matches, prev, tabs))"

definition BT4_AdvanceOneByte ::
  "nat \<Rightarrow> nat \<Rightarrow> nat \<Rightarrow> byte_ptr \<Rightarrow> u32 \<Rightarrow> u32 \<Rightarrow> u32 \<Rightarrow> match_array \<Rightarrow> u32 \<Rightarrow> bool
     \<Rightarrow> BT4_Matchfinder \<Rightarrow> match_array \<times> u32 \<times> BT4_Matchfinder" where
  "BT4_AdvanceOneByte kHash2Log kHash3Log kHash4Log data cur_ix ring_buffer_mask max_length
     matches best_len_ret record_matches m =
     (let orig_matches = fst matches;
          wm = window_mask m;
          nice_len = min (nice_length m) max_length;
          depth_remaining = max_search_depth m;
          best_len = 3
      in if max_length < nice_length m then (matches, best_len_ret, m)
         else
           (case BT4_hash_buckets kHash2Log kHash3Log kHash4Log data cur_ix ring_buffer_mask
                   matches record_matches m of
              (matches, prev, tabs) \<Rightarrow>
                (let lt = 2 * unat (cur_ix AND wm) + 0;
                     gt = 2 * unat (cur_ix AND wm) + 1
                 in if cur_ix - prev > wm - 15 then
                      (matches, best_len,
                       m\<lparr>hash_tabs := tabs,
                         child_tab := ((child_tab m)(lt := Assigned (- wm)))
                                        (gt := Assigned (- wm))\<rparr>)
                    else
                      (case BT4_descend wm data cur_ix ring_buffer_mask max_length nice_len
                              orig_matches best_len_ret record_matches depth_remaining
                              \<lparr>prev_ix = prev, pending_lt_ptr = lt, pending_gt_ptr = gt,
                               best_lt_len = 0, best_gt_len = 0, len = 0,
                               bt4_best_len = best_len, bt4_matches = matches,
                               tree = child_tab m\<rparr> of
                         (matches, best, tab) \<Rightarrow>
                           (matches, best, m\<lparr>hash_tabs := tabs, child_tab := tab\<rparr>)))))"

text \<open>
  \<open>FindAllMatches\<close> takes the value of \<open>*num_matches\<close> and returns the new one. Its local
  \<open>best_len\<close> is declared without a value: \<open>best_len_uninit\<close> is what the variable holds
  then.
\<close>

definition BT4_FindAllMatches ::
  "externals \<Rightarrow> nat \<Rightarrow> nat \<Rightarrow> nat \<Rightarrow> byte_ptr \<Rightarrow> u32 \<Rightarrow> u32 \<Rightarrow> u32 \<Rightarrow> int \<Rightarrow> match_array \<Rightarrow> u32
     \<Rightarrow> BT4_Matchfinder \<Rightarrow> int \<times> match_array \<times> BT4_Matchfinder" where
  "BT4_FindAllMatches ext kHash2Log kHash3Log kHash4Log data cur_ix ring_buffer_mask max_length
     num_matches matches best_len_uninit m =
     (let orig_matches = fst matches
      in case BT4_AdvanceOneByte kHash2Log kHash3Log kHash4Log data cur_ix ring_buffer_mask
                max_length matches best_len_uninit True m of
           (matches, best, m') \<Rightarrow>
             (let minlen = sint (best + 1);
                  found = FindAllStaticDictionaryMatches ext
                            (ptr_add data (unat (cur_ix AND ring_buffer_mask))) minlen
                            (sint max_length);
                  matches =
                    (if fst found then
                       (let maxlen = min (int (kMaxDictionaryMatchLen ext)) (sint max_length)
                        in dictionary_matches_loop (kInvalidMatch ext) (snd found)
                             (min cur_ix (window_mask m - 15)) maxlen minlen matches)
                     else matches)
              in (int (fst matches) - int orig_matches, matches, m')))"

definition BT4_SkipByte ::
  "nat \<Rightarrow> nat \<Rightarrow> nat \<Rightarrow> byte_ptr \<Rightarrow> u32 \<Rightarrow> u32 \<Rightarrow> u32 \<Rightarrow> match_array \<Rightarrow> u32 \<Rightarrow> BT4_Matchfinder
     \<Rightarrow> BT4_Matchfinder" where
  "BT4_SkipByte kHash2Log kHash3Log kHash4Log data cur_ix ring_buffer_mask max_length
     null_matches best_len_uninit m =
     (case BT4_AdvanceOneByte kHash2Log kHash3Log kHash4Log data cur_ix ring_buffer_mask
             max_length null_matches best_len_uninit False m of
        (matches, best, m') \<Rightarrow> m')"

text \<open>
  For the loop of \<open>AdvanceOneByte\<close> at the new node with the child slots \<open>L\<close> and \<open>G\<close>: each
  slot either is still the target of its pending pointer or has been assigned a value of
  \<open>V\<close>, and \<open>prev_ix\<close> and every value in \<open>child_tab_\<close> are in \<open>V\<close>. \<open>previous_positions\<close>
  are the values that the two tables hold before the call.
\<close>

definition assigned_in :: "u32 set \<Rightarrow> (nat \<Rightarrow> cell) \<Rightarrow> nat \<Rightarrow> bool" where
  "assigned_in V tab k \<longleftrightarrow> (\<exists>v \<in> V. tab k = Assigned v)"

definition pending_inv :: "nat \<Rightarrow> nat \<Rightarrow> u32 set \<Rightarrow> bt4_locals \<Rightarrow> bool" where
  "pending_inv L G V st \<longleftrightarrow>
     (pending_lt_ptr st = L \<or> assigned_in V (tree st) L) \<and>
     (pending_gt_ptr st = G \<or> assigned_in V (tree st) G) \<and>
     prev_ix st \<in> V \<and> (\<forall>k. cell_value (tree st k) \<in> V)"

definition previous_positions :: "BT4_Matchfinder \<Rightarrow> u32 set" where
  "previous_positions m = range (hash_tabs m) \<union> range (\<lambda>k. cell_value (child_tab m k))"

text \<open>
  A matchfinder, two buffers and an array of matches for the examples. In \<open>example_bt4\<close>
  position 8 is the root of every tree and has two empty children, and no other cell of
  \<open>child_tab_\<close> has been assigned. \<open>example_data\<close> holds zeros but for a 1 at offset 16.
\<close>

definition example_bt4 :: BT4_Matchfinder where
  "example_bt4 =
     \<lparr>window_mask = 0xFFFF, hash_tabs = (\<lambda>_. 8),
      child_tab = (\<lambda>_. Unassigned 0)(16 := Assigned (- 0xFFFF), 17 := Assigned (- 0xFFFF)),
      max_search_depth = 32, nice_length = 8\<rparr>"

text \<open>
  The same matchfinder where the two children of position 8 are the positions 3 and 5, and
  the same with a search depth of 1.
\<close>

definition example_bt4_node :: BT4_Matchfinder where
  "example_bt4_node =
     example_bt4\<lparr>child_tab := (\<lambda>_. Unassigned 0)(16 := Assigned 3, 17 := Assigned 5)\<rparr>"

definition example_bt4_shallow :: BT4_Matchfinder where
  "example_bt4_shallow = example_bt4_node\<lparr>max_search_depth := 1\<rparr>"

definition example_data :: byte_ptr where
  "example_data = (\<lambda>i. if i = 16 then 1 else 0)"

definition example_matches :: match_array where
  "example_matches = (0, (\<lambda>_. \<lparr>distance = 0, length_and_code = 0\<rparr>))"

text \<open>
  The relation between the state of the two loops of \<open>FindAllMatches\<close> and the matches found
  so far: the best length is the same, no match found is longer than it, the last match
  found has that length, and once it exceeds \<open>kMaxZopfliLen\<close> the array holds one match, of
  that length, at \<open>orig_matches\<close>.
\<close>

definition scan_rel :: "nat \<Rightarrow> nat \<times> match_array \<Rightarrow> nat \<times> BackwardMatch list \<Rightarrow> bool" where
  "scan_rel orig_matches bm bf \<longleftrightarrow>
     fst bm = fst bf \<and>
     (\<forall>m \<in> set (snd bf). BackwardMatch_length m \<le> int (fst bf)) \<and>
     (snd bf \<noteq> [] \<longrightarrow> BackwardMatch_length (last (snd bf)) = int (fst bf)) \<and>
     (fst bm > kMaxZopfliLen \<longrightarrow>
        fst (snd bm) = orig_matches + 1 \<and>
        BackwardMatch_length (snd (snd bm) orig_matches) = int (fst bm))"

text \<open>A buffer of period 4 for the examples: \<open>0, 0, 0, 1, 0, 0, 0, 1, ...\<close>\<close>

definition example_periodic :: byte_ptr where
  "example_periodic = (\<lambda>i. if i mod 4 = 3 then 1 else 0)"

section \<open>Properties of the warm-up\<close>

lemma WarmupHash_loop_Some:
  "1 \<le> k \<Longrightarrow> WarmupHash_loop k store sz dict i (Some h) =
     Inr (Some (Store_positions store dict h i (sz + 1 - k)))"
proof (induction "sz + 1 - k - i" arbitrary: i h)
  case 0
  then have "\<not> i + k - 1 < sz" by simp
  then have "WarmupHash_loop k store sz dict i (Some h) = Inr (Some h)"
    by (subst WarmupHash_loop.simps) simp
  moreover from 0 have "[i..<sz + 1 - k] = []" by simp
  then have "Store_positions store dict h i (sz + 1 - k) = h"
    unfolding Store_positions_def by (simp only: foldl_Nil)
  ultimately show ?case by simp
next
  case (Suc n)
  then have lt: "i + k - 1 < sz" and i: "i < sz + 1 - k" by simp_all
  from Suc have "n = sz + 1 - k - (i + 1)" by simp
  from Suc.hyps(1)[OF this Suc.prems]
  have "WarmupHash_loop k store sz dict (i + 1) (Some (store dict (of_nat i) h)) =
        Inr (Some (Store_positions store dict (store dict (of_nat i) h) (i + 1) (sz + 1 - k)))" .
  moreover have "[i..<sz + 1 - k] = i # [i + 1..<sz + 1 - k]"
    using i by (simp add: upt_conv_Cons)
  then have "Store_positions store dict h i (sz + 1 - k) =
     Store_positions store dict (store dict (of_nat i) h) (i + 1) (sz + 1 - k)"
    unfolding Store_positions_def by (simp only: foldl_Cons)
  moreover have "WarmupHash_loop k store sz dict i (Some h) =
     WarmupHash_loop k store sz dict (i + 1) (Some (store dict (of_nat i) h))"
    using lt by (subst WarmupHash_loop.simps) simp
  ultimately show ?case by simp
qed

lemma WarmupHash_Some:
  "1 \<le> k \<Longrightarrow> WarmupHash k store sz dict (Some h) =
     Inr (Some (Store_positions store dict h 0 (sz + 1 - k)))"
  by (simp add: WarmupHash_def WarmupHash_loop_Some)

lemma WarmupHash_block_Some:
  "WarmupHash_block B K sz dict (Some h) =
     Inr (Some (Store_positions (HashLongestMatch_Store B K) dict h 0
        (sz + 1 - HashLongestMatch_kHashTypeLength)))"
  by (simp add: WarmupHash_block_def WarmupHash_Some HashLongestMatch_kHashTypeLength_def)

lemma WarmupHash_quick_Some:
  "WarmupHash_quick B S sz dict (Some q) =
     Inr (Some (Store_positions (HashLongestMatchQuickly_Store B S) dict q 0
        (sz + 1 - HashLongestMatchQuickly_kHashTypeLength)))"
  by (simp add: WarmupHash_quick_def WarmupHash_Some HashLongestMatchQuickly_kHashTypeLength_def)

lemma Prepend_type:
  "PrependCustomDictionary 1 sz dict hs =
     map_sum id (\<lambda>h. hs\<lparr>hash_h1 := h\<rparr>) (WarmupHash_quick 16 1 sz dict (hash_h1 hs))"
  "PrependCustomDictionary 2 sz dict hs =
     map_sum id (\<lambda>h. hs\<lparr>hash_h2 := h\<rparr>) (WarmupHash_quick 16 2 sz dict (hash_h2 hs))"
  "PrependCustomDictionary 3 sz dict hs =
     map_sum id (\<lambda>h. hs\<lparr>hash_h3 := h\<rparr>) (WarmupHash_quick 16 4 sz dict (hash_h3 hs))"
  "PrependCustomDictionary 4 sz dict hs =
     map_sum id (\<lambda>h. hs\<lparr>hash_h4 := h\<rparr>) (WarmupHash_quick 17 4 sz dict (hash_h4 hs))"
  "PrependCustomDictionary 5 sz dict hs =
     map_sum id (\<lambda>h. hs\<lparr>hash_h5 := h\<rparr>) (WarmupHash_block 14 4 sz dict (hash_h5 hs))"
  "PrependCustomDictionary 6 sz dict hs =
     map_sum id (\<lambda>h. hs\<lparr>hash_h6 := h\<rparr>) (WarmupHash_block 14 5 sz dict (hash_h6 hs))"
  "PrependCustomDictionary 7 sz dict hs =
     map_sum id (\<lambda>h. hs\<lparr>hash_h7 := h\<rparr>) (WarmupHash_block 15 6 sz dict (hash_h7 hs))"
  "PrependCustomDictionary 8 sz dict hs =
     map_sum id (\<lambda>h. hs\<lparr>hash_h8 := h\<rparr>) (WarmupHash_block 15 7 sz dict (hash_h8 hs))"
  "PrependCustomDictionary 9 sz dict hs =
     map_sum id (\<lambda>h. hs\<lparr>hash_h9 := h\<rparr>) (WarmupHash_block 15 8 sz dict (hash_h9 hs))"
  by (simp_all add: PrependCustomDictionary_def)

lemma key0: "unat (HashLongestMatch_HashBytes 14 (\<lambda>_. 0)) = 0"
  by (simp add: HashLongestMatch_HashBytes_def BROTLI_UNALIGNED_LOAD32_def)

lemma Store_calls_replicate:
  "Store_calls store (replicate n data) h = Store_positions store data h 0 n"
proof -
  have "zip (replicate n data) [0..<n] = map (\<lambda>i. (data, i)) [0..<n]"
    by (simp add: zip_replicate1)
  then show ?thesis
    by (simp add: Store_calls_def Store_positions_def foldl_map)
qed

lemma WarmupHash_block_calls:
  "\<exists>ptrs. length ptrs = sz + 1 - HashLongestMatch_kHashTypeLength \<and>
      WarmupHash_block B K sz dict (Some h) =
        Inr (Some (Store_calls (HashLongestMatch_Store B K) ptrs h))"
  by (rule exI[of _ "replicate (sz + 1 - HashLongestMatch_kHashTypeLength) dict"])
    (simp add: WarmupHash_block_Some Store_calls_replicate)

lemma WarmupHash_quick_calls:
  "\<exists>ptrs. length ptrs = sz + 1 - HashLongestMatchQuickly_kHashTypeLength \<and>
      WarmupHash_quick B S sz dict (Some q) =
        Inr (Some (Store_calls (HashLongestMatchQuickly_Store B S) ptrs q))"
  by (rule exI[of _ "replicate (sz + 1 - HashLongestMatchQuickly_kHashTypeLength) dict"])
    (simp add: WarmupHash_quick_Some Store_calls_replicate)

text \<open>
  Claim C3, as the code has it. For each of the hasher types 1 to 9 whose hasher exists,
  \<open>PrependCustomDictionary\<close> performs one \<open>Store\<close> for each position \<open>i\<close> with
  \<open>i + kHashTypeLength - 1 < size\<close>, that is for \<open>i = 0, ..., size - kHashTypeLength\<close>
  (\<open>size + 1 - kHashTypeLength\<close> calls, none when \<open>size < kHashTypeLength\<close>), in increasing
  order, each recording the position \<open>i\<close>, and changes nothing else. For type 10 it changes
  nothing at all. Nothing is said here of the bytes that each call hashes.
\<close>

theorem PrependCustomDictionary_stores:
  "(hash_h1 hs = Some q1 \<longrightarrow>
      (\<exists>ptrs. length ptrs = sz + 1 - HashLongestMatchQuickly_kHashTypeLength \<and>
         PrependCustomDictionary 1 sz dict hs =
           Inr (hs\<lparr>hash_h1 := Some (Store_calls (HashLongestMatchQuickly_Store 16 1) ptrs q1)\<rparr>)))
 \<and> (hash_h2 hs = Some q2 \<longrightarrow>
      (\<exists>ptrs. length ptrs = sz + 1 - HashLongestMatchQuickly_kHashTypeLength \<and>
         PrependCustomDictionary 2 sz dict hs =
           Inr (hs\<lparr>hash_h2 := Some (Store_calls (HashLongestMatchQuickly_Store 16 2) ptrs q2)\<rparr>)))
 \<and> (hash_h3 hs = Some q3 \<longrightarrow>
      (\<exists>ptrs. length ptrs = sz + 1 - HashLongestMatchQuickly_kHashTypeLength \<and>
         PrependCustomDictionary 3 sz dict hs =
           Inr (hs\<lparr>hash_h3 := Some (Store_calls (HashLongestMatchQuickly_Store 16 4) ptrs q3)\<rparr>)))
 \<and> (hash_h4 hs = Some q4 \<longrightarrow>
      (\<exists>ptrs. length ptrs = sz + 1 - HashLongestMatchQuickly_kHashTypeLength \<and>
         PrependCustomDictionary 4 sz dict hs =
           Inr (hs\<lparr>hash_h4 := Some (Store_calls (HashLongestMatchQuickly_Store 17 4) ptrs q4)\<rparr>)))
 \<and> (hash_h5 hs = Some h5 \<longrightarrow>
      (\<exists>ptrs. length ptrs = sz + 1 - HashLongestMatch_kHashTypeLength \<and>
         PrependCustomDictionary 5 sz dict hs =
           Inr (hs\<lparr>hash_h5 := Some (Store_calls (HashLongestMatch_Store 14 4) ptrs h5)\<rparr>)))
 \<and> (hash_h6 hs = Some h6 \<longrightarrow>
      (\<exists>ptrs. length ptrs = sz + 1 - HashLongestMatch_kHashTypeLength \<and>
         PrependCustomDictionary 6 sz dict hs =
           Inr (hs\<lparr>hash_h6 := Some (Store_calls (HashLongestMatch_Store 14 5) ptrs h6)\<rparr>)))
 \<and> (hash_h7 hs = Some h7 \<longrightarrow>
      (\<exists>ptrs. length ptrs = sz + 1 - HashLongestMatch_kHashTypeLength \<and>
         PrependCustomDictionary 7 sz dict hs =
           Inr (hs\<lparr>hash_h7 := Some (Store_calls (HashLongestMatch_Store 15 6) ptrs h7)\<rparr>)))
 \<and> (hash_h8 hs = Some h8 \<longrightarrow>
      (\<exists>ptrs. length ptrs = sz + 1 - HashLongestMatch_kHashTypeLength \<and>
         PrependCustomDictionary 8 sz dict hs =
           Inr (hs\<lparr>hash_h8 := Some (Store_calls (HashLongestMatch_Store 15 7) ptrs h8)\<rparr>)))
 \<and> (hash_h9 hs = Some h9 \<longrightarrow>
      (\<exists>ptrs. length ptrs = sz + 1 - HashLongestMatch_kHashTypeLength \<and>
         PrependCustomDictionary 9 sz dict hs =
           Inr (hs\<lparr>hash_h9 := Some (Store_calls (HashLongestMatch_Store 15 8) ptrs h9)\<rparr>)))
 \<and> PrependCustomDictionary 10 sz dict hs = Inr hs"
proof (intro conjI impI)
  show "PrependCustomDictionary 10 sz dict hs = Inr hs"
    by (simp add: PrependCustomDictionary_def)
next
  assume "hash_h1 hs = Some q1"
  with WarmupHash_quick_calls[of sz 16 1 dict q1]
  show "\<exists>ptrs. length ptrs = sz + 1 - HashLongestMatchQuickly_kHashTypeLength \<and>
         PrependCustomDictionary 1 sz dict hs =
           Inr (hs\<lparr>hash_h1 := Some (Store_calls (HashLongestMatchQuickly_Store 16 1) ptrs q1)\<rparr>)"
    by (auto simp add: Prepend_type)
next
  assume "hash_h2 hs = Some q2"
  with WarmupHash_quick_calls[of sz 16 2 dict q2]
  show "\<exists>ptrs. length ptrs = sz + 1 - HashLongestMatchQuickly_kHashTypeLength \<and>
         PrependCustomDictionary 2 sz dict hs =
           Inr (hs\<lparr>hash_h2 := Some (Store_calls (HashLongestMatchQuickly_Store 16 2) ptrs q2)\<rparr>)"
    by (auto simp add: Prepend_type)
next
  assume "hash_h3 hs = Some q3"
  with WarmupHash_quick_calls[of sz 16 4 dict q3]
  show "\<exists>ptrs. length ptrs = sz + 1 - HashLongestMatchQuickly_kHashTypeLength \<and>
         PrependCustomDictionary 3 sz dict hs =
           Inr (hs\<lparr>hash_h3 := Some (Store_calls (HashLongestMatchQuickly_Store 16 4) ptrs q3)\<rparr>)"
    by (auto simp add: Prepend_type)
next
  assume "hash_h4 hs = Some q4"
  with WarmupHash_quick_calls[of sz 17 4 dict q4]
  show "\<exists>ptrs. length ptrs = sz + 1 - HashLongestMatchQuickly_kHashTypeLength \<and>
         PrependCustomDictionary 4 sz dict hs =
           Inr (hs\<lparr>hash_h4 := Some (Store_calls (HashLongestMatchQuickly_Store 17 4) ptrs q4)\<rparr>)"
    by (auto simp add: Prepend_type)
next
  assume "hash_h5 hs = Some h5"
  with WarmupHash_block_calls[of sz 14 4 dict h5]
  show "\<exists>ptrs. length ptrs = sz + 1 - HashLongestMatch_kHashTypeLength \<and>
         PrependCustomDictionary 5 sz dict hs =
           Inr (hs\<lparr>hash_h5 := Some (Store_calls (HashLongestMatch_Store 14 4) ptrs h5)\<rparr>)"
    by (auto simp add: Prepend_type)
next
  assume "hash_h6 hs = Some h6"
  with WarmupHash_block_calls[of sz 14 5 dict h6]
  show "\<exists>ptrs. length ptrs = sz + 1 - HashLongestMatch_kHashTypeLength \<and>
         PrependCustomDictionary 6 sz dict hs =
           Inr (hs\<lparr>hash_h6 := Some (Store_calls (HashLongestMatch_Store 14 5) ptrs h6)\<rparr>)"
    by (auto simp add: Prepend_type)
next
  assume "hash_h7 hs = Some h7"
  with WarmupHash_block_calls[of sz 15 6 dict h7]
  show "\<exists>ptrs. length ptrs = sz + 1 - HashLongestMatch_kHashTypeLength \<and>
         PrependCustomDictionary 7 sz dict hs =
           Inr (hs\<lparr>hash_h7 := Some (Store_calls (HashLongestMatch_Store 15 6) ptrs h7)\<rparr>)"
    by (auto simp add: Prepend_type)
next
  assume "hash_h8 hs = Some h8"
  with WarmupHash_block_calls[of sz 15 7 dict h8]
  show "\<exists>ptrs. length ptrs = sz + 1 - HashLongestMatch_kHashTypeLength \<and>
         PrependCustomDictionary 8 sz dict hs =
           Inr (hs\<lparr>hash_h8 := Some (Store_calls (HashLongestMatch_Store 15 7) ptrs h8)\<rparr>)"
    by (auto simp add: Prepend_type)
next
  assume "hash_h9 hs = Some h9"
  with WarmupHash_block_calls[of sz 15 8 dict h9]
  show "\<exists>ptrs. length ptrs = sz + 1 - HashLongestMatch_kHashTypeLength \<and>
         PrependCustomDictionary 9 sz dict hs =
           Inr (hs\<lparr>hash_h9 := Some (Store_calls (HashLongestMatch_Store 15 8) ptrs h9)\<rparr>)"
    by (auto simp add: Prepend_type)
qed

theorem PrependCustomDictionary_stores_witness:
  "hash_h1 example_hashers = Some example_quick
   \<and> (\<exists>ptrs. length ptrs = 3 \<and>
         PrependCustomDictionary 1 10 example_dict example_hashers =
           Inr (example_hashers\<lparr>hash_h1 :=
                  Some (Store_calls (HashLongestMatchQuickly_Store 16 1) ptrs example_quick)\<rparr>))
   \<and> hash_h5 example_hashers = Some example_block
   \<and> (\<exists>ptrs. length ptrs = 7 \<and>
         PrependCustomDictionary 5 10 example_dict example_hashers =
           Inr (example_hashers\<lparr>hash_h5 :=
                  Some (Store_calls (HashLongestMatch_Store 14 4) ptrs example_block)\<rparr>))
   \<and> hash_h9 example_hashers = Some example_block
   \<and> (\<exists>ptrs. length ptrs = 0 \<and>
         PrependCustomDictionary 9 3 example_dict example_hashers =
           Inr (example_hashers\<lparr>hash_h9 :=
                  Some (Store_calls (HashLongestMatch_Store 15 8) ptrs example_block)\<rparr>))
   \<and> PrependCustomDictionary 10 10 example_dict example_hashers = Inr example_hashers"
proof -
  have q: "hash_h1 example_hashers = Some example_quick"
    and b: "hash_h5 example_hashers = Some example_block"
    and c: "hash_h9 example_hashers = Some example_block"
    by (simp_all add: example_hashers_def)
  have n: "10 + 1 - HashLongestMatchQuickly_kHashTypeLength = 3"
    "10 + 1 - HashLongestMatch_kHashTypeLength = 7"
    "3 + 1 - HashLongestMatch_kHashTypeLength = 0"
    by (simp_all add: HashLongestMatchQuickly_kHashTypeLength_def
        HashLongestMatch_kHashTypeLength_def)
  note t = PrependCustomDictionary_stores[where hs = example_hashers and sz = 10
      and dict = example_dict and ?q1.0 = example_quick and ?h5.0 = example_block, unfolded n]
  note u = PrependCustomDictionary_stores[where hs = example_hashers and sz = 3
      and dict = example_dict and ?h9.0 = example_block, unfolded n]
  note t1 = t[THEN conjunct1, THEN mp, OF q]
  note t5 = t[THEN conjunct2, THEN conjunct2, THEN conjunct2, THEN conjunct2, THEN conjunct1,
      THEN mp, OF b]
  note t10 = t[THEN conjunct2, THEN conjunct2, THEN conjunct2, THEN conjunct2, THEN conjunct2,
      THEN conjunct2, THEN conjunct2, THEN conjunct2, THEN conjunct2]
  note u9 = u[THEN conjunct2, THEN conjunct2, THEN conjunct2, THEN conjunct2, THEN conjunct2,
      THEN conjunct2, THEN conjunct2, THEN conjunct2, THEN conjunct1, THEN mp, OF c]
  show ?thesis
    by (rule conjI[OF q conjI[OF t1 conjI[OF b conjI[OF t5 conjI[OF c conjI[OF u9 t10]]]]]])
qed

text \<open>
  The claim as it is written (one \<open>Store\<close> for each position of \<open>[0, size - kHashTypeLength)\<close>)
  fails for a dictionary of exactly \<open>kHashTypeLength = 4\<close> bytes and hasher type 5: the code
  stores position 0, the written range is empty.
\<close>

theorem PrependCustomDictionary_range_counterexample:
  "PrependCustomDictionary 5 4 (\<lambda>_. 0) example_hashers
   \<noteq> Inr (example_hashers\<lparr>hash_h5 :=
        Some (spec_WarmupHash HashLongestMatch_kHashTypeLength (HashLongestMatch_Store 14 4)
                4 (\<lambda>_. 0) example_block)\<rparr>)"
proof -
  have spec: "spec_WarmupHash HashLongestMatch_kHashTypeLength (HashLongestMatch_Store 14 4)
                  4 (\<lambda>_. 0) example_block = example_block"
    by (simp add: spec_WarmupHash_def HashLongestMatch_kHashTypeLength_def)
  have code: "WarmupHash_block 14 4 4 (\<lambda>_. 0) (Some example_block) =
     Inr (Some (HashLongestMatch_Store 14 4 (\<lambda>_. 0) 0 example_block))"
    by (simp add: WarmupHash_block_Some Store_positions_def HashLongestMatch_kHashTypeLength_def)
  have "num (HashLongestMatch_Store 14 4 (\<lambda>_. 0) 0 example_block) 0 = 1"
    by (simp add: HashLongestMatch_Store_def Let_def key0 example_block_def)
  moreover have "num example_block 0 = 0"
    by (simp add: example_block_def)
  ultimately have ne: "HashLongestMatch_Store 14 4 (\<lambda>_. 0) 0 example_block \<noteq> example_block"
    by (metis zero_neq_one)
  have h5: "hash_h5 example_hashers = Some example_block"
    by (simp add: example_hashers_def)
  show ?thesis
  proof
    assume "PrependCustomDictionary 5 4 (\<lambda>_. 0) example_hashers
      = Inr (example_hashers\<lparr>hash_h5 :=
        Some (spec_WarmupHash HashLongestMatch_kHashTypeLength (HashLongestMatch_Store 14 4)
                4 (\<lambda>_. 0) example_block)\<rparr>)"
    then have "example_hashers\<lparr>hash_h5 := Some (HashLongestMatch_Store 14 4 (\<lambda>_. 0) 0 example_block)\<rparr>
       = example_hashers\<lparr>hash_h5 := Some example_block\<rparr>"
      by (simp add: Prepend_type h5 code spec)
    then have "hash_h5 (example_hashers\<lparr>hash_h5 := Some (HashLongestMatch_Store 14 4 (\<lambda>_. 0) 0 example_block)\<rparr>)
       = hash_h5 (example_hashers\<lparr>hash_h5 := Some example_block\<rparr>)"
      by (rule arg_cong)
    with ne show False by simp
  qed
qed

text \<open>
  Every call of the loop is \<open>hasher->Store(dict, i)\<close>, where \<open>StoreHashes\<close> of \<open>Hashers\<close> passes
  \<open>&data[p & mask]\<close>: the bytes hashed are those at the start of the dictionary for every
  position. With the dictionary \<open>1, 0, 0, 0, 0\<close> and hasher type 5, the positions 0 and 1
  are both stored under the key of the bytes \<open>1, 0, 0, 0\<close>, and nothing under the key of the
  bytes \<open>0, 0, 0, 0\<close> at position 1.
\<close>

lemma WarmupHash_hashes_the_first_bytes:
  "unat (HashLongestMatch_HashBytes 14 example_dict) = 1933
   \<and> unat (HashLongestMatch_HashBytes 14 (ptr_add example_dict 1)) = 0
   \<and> (\<exists>h. WarmupHash_block 14 4 5 example_dict (Some example_block) = Inr (Some h) \<and>
          num h 1933 = 2 \<and> buckets h 1933 0 = 0 \<and> buckets h 1933 1 = 1 \<and> num h 0 = 0)"
proof -
  have k: "unat (HashLongestMatch_HashBytes 14 example_dict) = 1933"
    by (simp add: HashLongestMatch_HashBytes_def BROTLI_UNALIGNED_LOAD32_def example_dict_def)
  have k1: "unat (HashLongestMatch_HashBytes 14 (ptr_add example_dict 1)) = 0"
    by (simp add: HashLongestMatch_HashBytes_def BROTLI_UNALIGNED_LOAD32_def example_dict_def
        ptr_add_def)
  have "WarmupHash_block 14 4 5 example_dict (Some example_block) =
      Inr (Some (HashLongestMatch_Store 14 4 example_dict 1
                   (HashLongestMatch_Store 14 4 example_dict 0 example_block)))"
    by (simp add: WarmupHash_block_Some Store_positions_def HashLongestMatch_kHashTypeLength_def
        upt_rec[of 0] upt_rec[of "Suc 0"])
  moreover have "num (HashLongestMatch_Store 14 4 example_dict 1
                   (HashLongestMatch_Store 14 4 example_dict 0 example_block)) 1933 = 2"
    "buckets (HashLongestMatch_Store 14 4 example_dict 1
                   (HashLongestMatch_Store 14 4 example_dict 0 example_block)) 1933 0 = 0"
    "buckets (HashLongestMatch_Store 14 4 example_dict 1
                   (HashLongestMatch_Store 14 4 example_dict 0 example_block)) 1933 1 = 1"
    "num (HashLongestMatch_Store 14 4 example_dict 1
                   (HashLongestMatch_Store 14 4 example_dict 0 example_block)) 0 = 0"
    by (simp_all add: HashLongestMatch_Store_def Let_def k example_block_def kBlockMask_def)
  ultimately show ?thesis using k k1 by simp
qed

section \<open>Properties of \<open>Store\<close> on the block hasher\<close>

lemma Stores_snoc:
  "HashLongestMatch_Stores B K (calls @ [(d, ix)]) h =
   HashLongestMatch_Store B K d ix (HashLongestMatch_Stores B K calls h)"
  by (simp add: HashLongestMatch_Stores_def)

lemma stored_under_snoc:
  "stored_under B key (calls @ [(d, ix)]) =
   (if unat (HashLongestMatch_HashBytes B d) = key then stored_under B key calls @ [ix]
    else stored_under B key calls)"
  by (simp add: stored_under_def)

lemma and_kBlockMask: "n AND kBlockMask K = n mod 2 ^ K"
proof -
  have "n AND (2 ^ K - 1) = n AND mask K" by (simp add: mask_eq_exp_minus_1)
  also have "\<dots> = take_bit K n" by (simp add: take_bit_eq_mask)
  also have "\<dots> = n mod 2 ^ K" by (simp add: take_bit_eq_mod)
  finally show ?thesis by (simp add: kBlockMask_def)
qed

lemma block_ring_mod:
  assumes "length (stored_under B key calls) < 2 ^ 16"
  shows "unat (num (HashLongestMatch_Stores B K calls (HashLongestMatch_Reset h)) key)
           = length (stored_under B key calls)
       \<and> (\<forall>j < min (length (stored_under B key calls)) (2 ^ K).
            buckets (HashLongestMatch_Stores B K calls (HashLongestMatch_Reset h)) key
              ((length (stored_under B key calls) - Suc j) mod 2 ^ K)
            = rev (stored_under B key calls) ! j)"
  using assms
proof (induction calls rule: rev_induct)
  case Nil
  then show ?case
    by (simp add: HashLongestMatch_Stores_def HashLongestMatch_Reset_def stored_under_def)
next
  case (snoc c calls)
  obtain d ix where c: "c = (d, ix)" by (cases c)
  let ?s = "HashLongestMatch_Stores B K calls (HashLongestMatch_Reset h)"
  let ?xs = "stored_under B key calls"
  show ?case
  proof (cases "unat (HashLongestMatch_HashBytes B d) = key")
    case False
    with snoc c show ?thesis
      by (simp add: Stores_snoc stored_under_snoc HashLongestMatch_Store_def Let_def)
  next
    case True
    from snoc.prems True c have len: "Suc (length ?xs) < 2 ^ 16"
      by (simp add: stored_under_snoc)
    with snoc.IH have n: "unat (num ?s key) = length ?xs"
      and old: "\<And>j. j < min (length ?xs) (2 ^ K) \<Longrightarrow>
                 buckets ?s key ((length ?xs - Suc j) mod 2 ^ K) = rev ?xs ! j"
      by auto
    have n': "unat (num ?s key + 1) = Suc (length ?xs)"
      using n len by (simp add: unat_word_ariths)
    have slot: "buckets (HashLongestMatch_Store B K d ix ?s) key =
                (buckets ?s key)(length ?xs mod 2 ^ K := ix)"
      using True n by (simp add: HashLongestMatch_Store_def Let_def and_kBlockMask)
    have "buckets (HashLongestMatch_Store B K d ix ?s) key ((length ?xs - j) mod 2 ^ K)
            = rev (?xs @ [ix]) ! j" if j: "j < min (Suc (length ?xs)) (2 ^ K)" for j
    proof (cases j)
      case 0
      then show ?thesis by (simp add: slot)
    next
      case (Suc i)
      with j have i: "i < min (length ?xs) (2 ^ K)" by simp
      have neq: "(length ?xs - Suc i) mod 2 ^ K \<noteq> length ?xs mod 2 ^ K"
      proof
        assume "(length ?xs - Suc i) mod 2 ^ K = length ?xs mod 2 ^ K"
        then have "(2::nat) ^ K dvd length ?xs - (length ?xs - Suc i)"
          using mod_eq_dvd_iff_nat[of "length ?xs - Suc i" "length ?xs" "2 ^ K"] by simp
        then have "(length ?xs - (length ?xs - Suc i)) mod 2 ^ K = 0"
          by simp
        moreover have "length ?xs - (length ?xs - Suc i) = Suc i" using i by simp
        ultimately have "Suc i mod 2 ^ K = 0" by simp
        moreover have "Suc i < 2 ^ K" using j Suc by simp
        ultimately show False by simp
      qed
      from neq Suc old[OF i] show ?thesis by (simp add: slot)
    qed
    with True c n' show ?thesis
      by (simp add: Stores_snoc stored_under_snoc HashLongestMatch_Store_def Let_def)
  qed
qed

text \<open>
  Claim C7. Start from \<open>Reset\<close> and run any sequence of \<open>Store\<close> calls on a block hasher. If
  fewer than \<open>2^16\<close> of them hashed to bucket \<open>key\<close>, then \<open>num_[key]\<close> is the number of those
  calls, and for every \<open>j\<close> below \<open>min(num_[key], 2^kBlockBits)\<close> the slot
  \<open>(num_[key] - 1 - j) & kBlockMask\<close> of the bucket holds the \<open>j\<close>-th most recent of the
  positions stored under \<open>key\<close>.
\<close>

theorem block_hasher_ring_invariant:
  assumes "length (stored_under kBucketBits key calls) < 2 ^ 16"
    and "s = HashLongestMatch_Stores kBucketBits kBlockBits calls (HashLongestMatch_Reset h)"
  shows "unat (num s key) = length (stored_under kBucketBits key calls)
       \<and> (\<forall>j < min (unat (num s key)) (kBlockSize kBlockBits).
            buckets s key ((unat (num s key) - 1 - j) AND kBlockMask kBlockBits)
            = rev (stored_under kBucketBits key calls) ! j)"
  using block_ring_mod[OF assms(1), of kBlockBits h] assms(2)
  by (simp add: and_kBlockMask kBlockSize_def)

theorem block_hasher_ring_invariant_witness:
  "length (stored_under 14 0 [(\<lambda>_. 0, 10), (\<lambda>_. 0, 20), (\<lambda>_. 0, 30)]) < 2 ^ 16
   \<and> unat (num (HashLongestMatch_Stores 14 1 [(\<lambda>_. 0, 10), (\<lambda>_. 0, 20), (\<lambda>_. 0, 30)]
        (HashLongestMatch_Reset
           \<lparr>num = (\<lambda>_. 7), buckets = (\<lambda>_ _. 0), num_dict_lookups = 5, num_dict_matches = 1\<rparr>)) 0) = 3
   \<and> buckets (HashLongestMatch_Stores 14 1 [(\<lambda>_. 0, 10), (\<lambda>_. 0, 20), (\<lambda>_. 0, 30)]
        (HashLongestMatch_Reset
           \<lparr>num = (\<lambda>_. 7), buckets = (\<lambda>_ _. 0), num_dict_lookups = 5, num_dict_matches = 1\<rparr>)) 0
        ((3 - 1 - 0) AND kBlockMask 1) = 30
   \<and> buckets (HashLongestMatch_Stores 14 1 [(\<lambda>_. 0, 10), (\<lambda>_. 0, 20), (\<lambda>_. 0, 30)]
        (HashLongestMatch_Reset
           \<lparr>num = (\<lambda>_. 7), buckets = (\<lambda>_ _. 0), num_dict_lookups = 5, num_dict_matches = 1\<rparr>)) 0
        ((3 - 1 - 1) AND kBlockMask 1) = 20"
proof -
  let ?calls = "[(\<lambda>_. 0, 10), (\<lambda>_. 0, 20), (\<lambda>_. 0, 30)] :: (byte_ptr \<times> i32) list"
  let ?h = "\<lparr>num = (\<lambda>_. 7), buckets = (\<lambda>_ _. 0), num_dict_lookups = 5, num_dict_matches = 1\<rparr>"
  have key: "unat (HashLongestMatch_HashBytes 14 (\<lambda>_. 0)) = 0"
    by (simp add: HashLongestMatch_HashBytes_def BROTLI_UNALIGNED_LOAD32_def)
  have xs: "stored_under 14 0 ?calls = [10, 20, 30]"
    by (simp add: stored_under_def key)
  have len: "length (stored_under 14 0 ?calls) < 2 ^ 16"
    by (simp add: xs)
  note inv = block_hasher_ring_invariant[OF len refl, of 1 ?h]
  from inv
  have n: "unat (num (HashLongestMatch_Stores 14 1 ?calls (HashLongestMatch_Reset ?h)) 0) = 3"
    by (simp add: xs)
  from inv have slots: "\<And>j. j < min 3 (kBlockSize 1) \<Longrightarrow>
          buckets (HashLongestMatch_Stores 14 1 ?calls (HashLongestMatch_Reset ?h)) 0
            ((3 - 1 - j) AND kBlockMask 1) = rev [10, 20, 30] ! j"
    unfolding n xs by blast
  have s0: "buckets (HashLongestMatch_Stores 14 1 ?calls (HashLongestMatch_Reset ?h)) 0
            ((3 - 1 - 0) AND kBlockMask 1) = 30"
    using slots[of 0] by (simp add: kBlockSize_def)
  have s1: "buckets (HashLongestMatch_Stores 14 1 ?calls (HashLongestMatch_Reset ?h)) 0
            ((3 - 1 - 1) AND kBlockMask 1) = 20"
    using slots[of 1] by (simp add: kBlockSize_def)
  from n len s0 s1 show ?thesis
    by blast
qed

section \<open>Properties of \<open>FindLongestMatch\<close>\<close>

lemma outputs_of_simps [simp]:
  "best_len_out (outputs_of st) = best_len_out st"
  "best_len_code_out (outputs_of st) = best_len_code_out st"
  "best_distance_out (outputs_of st) = best_distance_out st"
  "best_score_out (outputs_of st) = best_score_out st"
  by (simp_all add: outputs_of_def)

subsection \<open>Block hasher: a search without a match leaves the local variables alone\<close>

lemma last_distance_step_unfound:
  "\<not> match_found (HashLongestMatch_last_distance_step data m dc c ml mb i st) \<Longrightarrow>
   HashLongestMatch_last_distance_step data m dc c ml mb i st = st"
  by (auto simp add: HashLongestMatch_last_distance_step_def Let_def split: if_splits)

lemma last_distance_loop_unfound:
  "\<not> match_found (HashLongestMatch_last_distance_loop n data m dc c ml mb i st) \<Longrightarrow>
   HashLongestMatch_last_distance_loop n data m dc c ml mb i st = st"
proof (induction n data m dc c ml mb i st rule: HashLongestMatch_last_distance_loop.induct)
  case (1 n data m dc c ml mb i st)
  show ?case
  proof (cases "i < n")
    case True
    let ?st = "HashLongestMatch_last_distance_step data m dc c ml mb i st"
    from True have eq: "HashLongestMatch_last_distance_loop n data m dc c ml mb i st =
        HashLongestMatch_last_distance_loop n data m dc c ml mb (i + 1) ?st"
      by (subst HashLongestMatch_last_distance_loop.simps) simp
    with 1 True have "HashLongestMatch_last_distance_loop n data m dc c ml mb (i + 1) ?st = ?st"
      by simp
    with eq 1(2) show ?thesis using last_distance_step_unfound by metis
  next
    case False
    then show ?thesis by (subst HashLongestMatch_last_distance_loop.simps) simp
  qed
qed

lemma bucket_step_unfound:
  "\<not> match_found (HashLongestMatch_bucket_step ext data m c ml p st) \<Longrightarrow>
   HashLongestMatch_bucket_step ext data m c ml p st = st"
  by (auto simp add: HashLongestMatch_bucket_step_def Let_def split: if_splits)

lemma bucket_loop_unfound:
  "\<not> match_found (HashLongestMatch_bucket_loop ext K b down data m c ml mb i st) \<Longrightarrow>
   HashLongestMatch_bucket_loop ext K b down data m c ml mb i st = st"
proof (induction ext K b down data m c ml mb i st rule: HashLongestMatch_bucket_loop.induct)
  case (1 ext K b down data m c ml mb i st)
  let ?p = "b (nat i AND kBlockMask K)"
  let ?st = "HashLongestMatch_bucket_step ext data m c ml ?p st"
  consider (stop) "\<not> down \<le> i \<or> (0 \<le> sint ?p \<and> mb < c - ?p)"
    | (step) "down \<le> i" "0 \<le> sint ?p" "\<not> mb < c - ?p"
    | (skip) "down \<le> i" "\<not> 0 \<le> sint ?p"
    by blast
  then show ?case
  proof cases
    case stop
    then show ?thesis by (subst HashLongestMatch_bucket_loop.simps) (auto simp add: Let_def)
  next
    case step
    then have eq: "HashLongestMatch_bucket_loop ext K b down data m c ml mb i st =
        HashLongestMatch_bucket_loop ext K b down data m c ml mb (i - 1) ?st"
      by (subst HashLongestMatch_bucket_loop.simps) (simp add: Let_def)
    with 1(1)[OF step(1) refl step(2,3)] 1(3)
    have "HashLongestMatch_bucket_loop ext K b down data m c ml mb (i - 1) ?st = ?st" by simp
    with eq 1(3) show ?thesis using bucket_step_unfound by metis
  next
    case skip
    then have eq: "HashLongestMatch_bucket_loop ext K b down data m c ml mb i st =
        HashLongestMatch_bucket_loop ext K b down data m c ml mb (i - 1) st"
      by (subst HashLongestMatch_bucket_loop.simps) (simp add: Let_def)
    with 1(2)[OF skip(1) refl skip(2)] 1(3) show ?thesis by simp
  qed
qed

lemma dict_step_unfound:
  "\<not> match_found (fst (HashLongestMatch_dict_step ext data m c ml mb key sh)) \<Longrightarrow>
   fst (HashLongestMatch_dict_step ext data m c ml mb key sh) = fst sh"
  by (auto simp add: HashLongestMatch_dict_step_def Let_def split: if_splits)

lemma dict_loop_unfound:
  "\<not> match_found (fst (HashLongestMatch_dict_loop ext data m c ml mb k key sh)) \<Longrightarrow>
   fst (HashLongestMatch_dict_loop ext data m c ml mb k key sh) = fst sh"
proof (induction ext data m c ml mb k key sh rule: HashLongestMatch_dict_loop.induct)
  case (1 ext data m c ml mb k key sh)
  show ?case
  proof (cases "k < 2")
    case True
    let ?sh = "HashLongestMatch_dict_step ext data m c ml mb key sh"
    from True have eq: "HashLongestMatch_dict_loop ext data m c ml mb k key sh =
        HashLongestMatch_dict_loop ext data m c ml mb (k + 1) (key + 1) ?sh"
      by (subst HashLongestMatch_dict_loop.simps) simp
    with 1 True have "fst (HashLongestMatch_dict_loop ext data m c ml mb (k + 1) (key + 1) ?sh) = fst ?sh"
      by simp
    with eq 1(2) show ?thesis using dict_step_unfound by metis
  next
    case False
    then show ?thesis by (subst HashLongestMatch_dict_loop.simps) simp
  qed
qed

lemma dictionary_unfound:
  "\<not> match_found (fst (HashLongestMatch_dictionary ext data m c ml mb sh)) \<Longrightarrow>
   fst (HashLongestMatch_dictionary ext data m c ml mb sh) = fst sh"
  by (auto simp add: HashLongestMatch_dictionary_def Let_def dict_loop_unfound)

lemma search_unfound:
  "\<not> match_found (HashLongestMatch_search ext B K L data m dc c ml mb outs h) \<Longrightarrow>
   HashLongestMatch_search ext B K L data m dc c ml mb outs h =
     \<lparr>best_len_out = 0, best_len_code_out = 0, best_distance_out = best_distance_out outs,
      best_score_out = best_score_out outs, best_score = best_score_out outs,
      best_len = best_len_out outs, match_found = False\<rparr>"
  unfolding HashLongestMatch_search_def Let_def
  by (metis bucket_loop_unfound last_distance_loop_unfound)

lemma block_FindLongestMatch_false:
  assumes "HashLongestMatch_FindLongestMatch ext B K L data m dc c ml mb outs h = (False, outs', h')"
  shows "outs' = \<lparr>best_len_out = 0, best_len_code_out = 0,
                   best_distance_out = best_distance_out outs,
                   best_score_out = best_score_out outs\<rparr>"
proof -
  let ?st = "HashLongestMatch_search ext B K L data m dc c ml mb outs h"
  let ?sh = "HashLongestMatch_dictionary ext data m c ml mb (?st, h)"
  from assms have nf: "\<not> match_found (fst ?sh)" and o: "outs' = outputs_of (fst ?sh)"
    by (simp_all add: HashLongestMatch_FindLongestMatch_def Let_def)
  from nf have "fst ?sh = ?st" using dictionary_unfound by fastforce
  with nf search_unfound[of ext B K L data m dc c ml mb outs h] o show ?thesis
    by (simp add: outputs_of_def)
qed

subsection \<open>Quick hasher: a call that returns false leaves the parameters alone\<close>

lemma outputs_of_init: "outputs_of (HashLongestMatchQuickly_init rb m c outs) = outs"
  by (simp add: HashLongestMatchQuickly_init_def outputs_of_def Let_def)

lemma init_unfound: "\<not> match_found (HashLongestMatchQuickly_init rb m c outs)"
  by (simp add: HashLongestMatchQuickly_init_def Let_def)

lemma quick_last_distance_Return:
  "HashLongestMatchQuickly_last_distance S rb m dc c ml st = Return r outs' \<Longrightarrow> r"
  by (auto simp add: HashLongestMatchQuickly_last_distance_def Let_def split: if_splits)

lemma quick_last_distance_unfound:
  "HashLongestMatchQuickly_last_distance S rb m dc c ml st = Continue st' \<Longrightarrow>
   \<not> match_found st' \<Longrightarrow> st' = st"
  by (auto simp add: HashLongestMatchQuickly_last_distance_def Let_def split: if_splits)

lemma single_probe_Return_False:
  "HashLongestMatchQuickly_single_probe ext rb m c ml mb bl e st = Return False outs' \<Longrightarrow>
   outs' = outputs_of st"
  by (auto simp add: HashLongestMatchQuickly_single_probe_def Let_def split: if_splits)

lemma single_probe_Continue:
  "HashLongestMatchQuickly_single_probe ext rb m c ml mb bl e st = Continue st' \<Longrightarrow> st' = st"
  by (auto simp add: HashLongestMatchQuickly_single_probe_def Let_def split: if_splits)

lemma sweep_step_unfound:
  "\<not> match_found (HashLongestMatchQuickly_sweep_step ext rb m c ml mb e st) \<Longrightarrow>
   HashLongestMatchQuickly_sweep_step ext rb m c ml mb e st = st"
  by (auto simp add: HashLongestMatchQuickly_sweep_step_def Let_def split: if_splits)

lemma sweep_loop_unfound:
  "\<not> match_found (HashLongestMatchQuickly_sweep_loop ext S b key rb m c ml mb i st) \<Longrightarrow>
   HashLongestMatchQuickly_sweep_loop ext S b key rb m c ml mb i st = st"
proof (induction ext S b key rb m c ml mb i st rule: HashLongestMatchQuickly_sweep_loop.induct)
  case (1 ext S b key rb m c ml mb i st)
  show ?case
  proof (cases "i < S")
    case True
    let ?st = "HashLongestMatchQuickly_sweep_step ext rb m c ml mb (b (key + i)) st"
    from True have eq: "HashLongestMatchQuickly_sweep_loop ext S b key rb m c ml mb i st =
        HashLongestMatchQuickly_sweep_loop ext S b key rb m c ml mb (i + 1) ?st"
      by (subst HashLongestMatchQuickly_sweep_loop.simps) simp
    with 1 True have "HashLongestMatchQuickly_sweep_loop ext S b key rb m c ml mb (i + 1) ?st = ?st"
      by simp
    with eq 1(2) show ?thesis using sweep_step_unfound by metis
  next
    case False
    then show ?thesis by (subst HashLongestMatchQuickly_sweep_loop.simps) simp
  qed
qed

lemma quick_dictionary_false:
  "HashLongestMatchQuickly_dictionary ext D rb m c ml mb st q = (False, outs', q') \<Longrightarrow>
   outs' = outputs_of st"
  by (auto simp add: HashLongestMatchQuickly_dictionary_def Let_def split: if_splits)

lemma quick_search_Return_False:
  assumes "HashLongestMatchQuickly_search ext B S rb m dc c ml mb outs q = Return False outs'"
  shows "outs' = outs"
proof -
  let ?st0 = "HashLongestMatchQuickly_init rb m c outs"
  show ?thesis
  proof (cases "HashLongestMatchQuickly_last_distance S rb m dc c ml ?st0")
    case (Return r o1)
    with assms quick_last_distance_Return[OF Return] show ?thesis
      by (simp add: HashLongestMatchQuickly_search_def Let_def)
  next
    case (Continue st1)
    with assms have S: "S = 1" and sp: "HashLongestMatchQuickly_single_probe ext rb m c ml mb (best_len_out outs)
        (quick_buckets q (unat (HashLongestMatchQuickly_HashBytes B (ptr_add rb (unat c AND m))))) st1
        = Return False outs'"
      by (auto simp add: HashLongestMatchQuickly_search_def Let_def split: if_splits)
    from Continue S have "st1 = ?st0"
      by (auto simp add: HashLongestMatchQuickly_last_distance_def Let_def split: if_splits)
    with single_probe_Return_False[OF sp] show ?thesis by (simp add: outputs_of_init)
  qed
qed

lemma quick_search_Continue_unfound:
  assumes "HashLongestMatchQuickly_search ext B S rb m dc c ml mb outs q = Continue st"
    and "\<not> match_found st"
  shows "outputs_of st = outs"
proof -
  let ?st0 = "HashLongestMatchQuickly_init rb m c outs"
  show ?thesis
  proof (cases "HashLongestMatchQuickly_last_distance S rb m dc c ml ?st0")
    case (Return r o1)
    with assms show ?thesis
      by (simp add: HashLongestMatchQuickly_search_def Let_def)
  next
    case (Continue st1)
    show ?thesis
    proof (cases "S = 1")
      case True
      with Continue assms have sp: "HashLongestMatchQuickly_single_probe ext rb m c ml mb (best_len_out outs)
        (quick_buckets q (unat (HashLongestMatchQuickly_HashBytes B (ptr_add rb (unat c AND m))))) st1
        = Continue st"
        by (auto simp add: HashLongestMatchQuickly_search_def Let_def split: if_splits)
      from single_probe_Continue[OF sp] assms(2) quick_last_distance_unfound[OF Continue]
      show ?thesis by (simp add: outputs_of_init)
    next
      case False
      with Continue assms have "st = HashLongestMatchQuickly_sweep_loop ext S (quick_buckets q)
         (unat (HashLongestMatchQuickly_HashBytes B (ptr_add rb (unat c AND m)))) rb m c ml mb 0 st1"
        by (auto simp add: HashLongestMatchQuickly_search_def Let_def split: if_splits)
      with assms(2) sweep_loop_unfound have "st = st1" by metis
      with assms(2) quick_last_distance_unfound[OF Continue]
      show ?thesis by (simp add: outputs_of_init)
    qed
  qed
qed

lemma quick_FindLongestMatch_false:
  assumes "HashLongestMatchQuickly_FindLongestMatch ext B S D rb m dc c ml mb outs q = (False, outs', q')"
  shows "outs' = outs"
proof (cases "HashLongestMatchQuickly_search ext B S rb m dc c ml mb outs q")
  case (Return r o1)
  with assms have "r = False" "o1 = outs'"
    by (simp_all add: HashLongestMatchQuickly_FindLongestMatch_def)
  with Return quick_search_Return_False show ?thesis by metis
next
  case (Continue st)
  with assms have d: "HashLongestMatchQuickly_dictionary ext D rb m c ml mb st q = (False, outs', q')"
    by (simp add: HashLongestMatchQuickly_FindLongestMatch_def)
  then have "\<not> match_found st"
    by (auto simp add: HashLongestMatchQuickly_dictionary_def Let_def split: if_splits)
  with quick_search_Continue_unfound[OF Continue] quick_dictionary_false[OF d]
  show ?thesis by simp
qed

subsection \<open>Scores\<close>

lemma last_distance_step_score:
  "score_inv s0 st \<Longrightarrow> score_inv s0 (HashLongestMatch_last_distance_step data m dc c ml mb i st)"
  by (auto simp add: HashLongestMatch_last_distance_step_def score_inv_def Let_def)

lemma last_distance_loop_score:
  "score_inv s0 st \<Longrightarrow>
   score_inv s0 (HashLongestMatch_last_distance_loop n data m dc c ml mb i st)"
proof (induction n data m dc c ml mb i st rule: HashLongestMatch_last_distance_loop.induct)
  case (1 n data m dc c ml mb i st)
  show ?case
  proof (cases "i < n")
    case True
    with 1 last_distance_step_score show ?thesis
      by (subst HashLongestMatch_last_distance_loop.simps) simp
  next
    case False
    with 1 show ?thesis by (subst HashLongestMatch_last_distance_loop.simps) simp
  qed
qed

lemma bucket_step_score:
  "score_inv s0 st \<Longrightarrow> score_inv s0 (HashLongestMatch_bucket_step ext data m c ml p st)"
  by (auto simp add: HashLongestMatch_bucket_step_def score_inv_def Let_def)

lemma bucket_loop_score:
  "score_inv s0 st \<Longrightarrow>
   score_inv s0 (HashLongestMatch_bucket_loop ext K b down data m c ml mb i st)"
proof (induction ext K b down data m c ml mb i st rule: HashLongestMatch_bucket_loop.induct)
  case (1 ext K b down data m c ml mb i st)
  let ?p = "b (nat i AND kBlockMask K)"
  consider (stop) "\<not> down \<le> i \<or> (0 \<le> sint ?p \<and> mb < c - ?p)"
    | (step) "down \<le> i" "0 \<le> sint ?p" "\<not> mb < c - ?p"
    | (skip) "down \<le> i" "\<not> 0 \<le> sint ?p"
    by blast
  then show ?case
  proof cases
    case stop
    with 1(3) show ?thesis
      by (subst HashLongestMatch_bucket_loop.simps) (auto simp add: Let_def)
  next
    case step
    with 1(1)[OF step(1) refl step(2,3)] 1(3) bucket_step_score show ?thesis
      by (subst HashLongestMatch_bucket_loop.simps) (simp add: Let_def)
  next
    case skip
    with 1(2)[OF skip(1) refl skip(2)] 1(3) show ?thesis
      by (subst HashLongestMatch_bucket_loop.simps) (simp add: Let_def)
  qed
qed

lemma dict_step_score:
  "score_inv s0 (fst sh) \<Longrightarrow>
   score_inv s0 (fst (HashLongestMatch_dict_step ext data m c ml mb key sh))"
  by (auto simp add: HashLongestMatch_dict_step_def score_inv_def Let_def)

lemma dict_loop_score:
  "score_inv s0 (fst sh) \<Longrightarrow>
   score_inv s0 (fst (HashLongestMatch_dict_loop ext data m c ml mb k key sh))"
proof (induction ext data m c ml mb k key sh rule: HashLongestMatch_dict_loop.induct)
  case (1 ext data m c ml mb k key sh)
  show ?case
  proof (cases "k < 2")
    case True
    with 1 dict_step_score show ?thesis
      by (subst HashLongestMatch_dict_loop.simps) simp
  next
    case False
    with 1 show ?thesis by (subst HashLongestMatch_dict_loop.simps) simp
  qed
qed

lemma dictionary_score:
  "score_inv s0 (fst sh) \<Longrightarrow>
   score_inv s0 (fst (HashLongestMatch_dictionary ext data m c ml mb sh))"
  by (simp add: HashLongestMatch_dictionary_def Let_def dict_loop_score)

lemma search_score:
  "score_inv (best_score_out outs) (HashLongestMatch_search ext B K L data m dc c ml mb outs h)"
  unfolding HashLongestMatch_search_def Let_def
  by (intro bucket_loop_score last_distance_loop_score) (simp add: score_inv_def)

lemma block_FindLongestMatch_true_score:
  assumes "HashLongestMatch_FindLongestMatch ext B K L data m dc c ml mb outs h = (True, outs', h')"
  shows "best_score_out outs < best_score_out outs'"
proof -
  let ?st = "HashLongestMatch_search ext B K L data m dc c ml mb outs h"
  let ?sh = "HashLongestMatch_dictionary ext data m c ml mb (?st, h)"
  from assms have f: "match_found (fst ?sh)" and o: "outs' = outputs_of (fst ?sh)"
    by (simp_all add: HashLongestMatch_FindLongestMatch_def Let_def)
  have "score_inv (best_score_out outs) (fst ?sh)"
    by (rule dictionary_score) (simp add: search_score)
  with f o show ?thesis by (simp add: score_inv_def)
qed

text \<open>Quick hasher.\<close>

lemma sweep_step_score:
  "score_inv s0 st \<Longrightarrow> score_inv s0 (HashLongestMatchQuickly_sweep_step ext rb m c ml mb e st)"
  by (auto simp add: HashLongestMatchQuickly_sweep_step_def score_inv_def Let_def)

lemma sweep_loop_score:
  "score_inv s0 st \<Longrightarrow>
   score_inv s0 (HashLongestMatchQuickly_sweep_loop ext S b key rb m c ml mb i st)"
proof (induction ext S b key rb m c ml mb i st rule: HashLongestMatchQuickly_sweep_loop.induct)
  case (1 ext S b key rb m c ml mb i st)
  show ?case
  proof (cases "i < S")
    case True
    with 1 sweep_step_score show ?thesis
      by (subst HashLongestMatchQuickly_sweep_loop.simps) simp
  next
    case False
    with 1 show ?thesis by (subst HashLongestMatchQuickly_sweep_loop.simps) simp
  qed
qed

lemma init_score: "score_inv (best_score_out outs) (HashLongestMatchQuickly_init rb m c outs)"
  by (simp add: score_inv_def HashLongestMatchQuickly_init_def Let_def)

lemma quick_dictionary_true_score:
  "HashLongestMatchQuickly_dictionary ext D rb m c ml mb st q = (True, outs', q') \<Longrightarrow>
   score_inv s0 st \<Longrightarrow> s0 < best_score_out outs'"
  by (auto simp add: HashLongestMatchQuickly_dictionary_def Let_def score_inv_def
      split: if_splits)

lemma quick_FindLongestMatch_true_score:
  assumes "S \<noteq> 1"
    and miss: "HashLongestMatchQuickly_last_distance S rb m dc c ml
             (HashLongestMatchQuickly_init rb m c outs)
           = Continue (HashLongestMatchQuickly_init rb m c outs)"
    and "HashLongestMatchQuickly_FindLongestMatch ext B S D rb m dc c ml mb outs q = (True, outs', q')"
  shows "best_score_out outs < best_score_out outs'"
proof -
  let ?st0 = "HashLongestMatchQuickly_init rb m c outs"
  let ?st = "HashLongestMatchQuickly_sweep_loop ext S (quick_buckets q)
         (unat (HashLongestMatchQuickly_HashBytes B (ptr_add rb (unat c AND m)))) rb m c ml mb 0 ?st0"
  from assms(1) miss have s: "HashLongestMatchQuickly_search ext B S rb m dc c ml mb outs q = Continue ?st"
    by (simp add: HashLongestMatchQuickly_search_def Let_def)
  have inv: "score_inv (best_score_out outs) ?st"
    by (rule sweep_loop_score) (rule init_score)
  from assms(3) s have "HashLongestMatchQuickly_dictionary ext D rb m c ml mb ?st q = (True, outs', q')"
    by (simp add: HashLongestMatchQuickly_FindLongestMatch_def)
  from quick_dictionary_true_score[OF this inv] show ?thesis .
qed

subsection \<open>Distances\<close>

lemma sub_less_imp:
  fixes c b :: "32 word"
  assumes "unat (c - b) < unat c"
  shows "b \<noteq> 0 \<and> b \<le> c"
proof -
  from assms have "b \<noteq> 0" by auto
  moreover have "unat b \<le> unat c"
  proof (rule ccontr)
    assume "\<not> unat b \<le> unat c"
    then have "unat (c - b) = unat c + 2 ^ size c - unat b"
      by (simp add: unat_sub_if_size)
    moreover have "unat b < 2 ^ size c"
      using unsigned_less[of b] by (simp add: word_size)
    ultimately show False using assms by simp
  qed
  ultimately show ?thesis by (simp add: word_le_nat_alt)
qed

lemma last_distance_step_distance:
  "distance_inv nz mb st \<Longrightarrow>
   distance_inv nz mb (HashLongestMatch_last_distance_step data m dc c ml mb i st)"
  by (auto simp add: HashLongestMatch_last_distance_step_def distance_inv_def Let_def)

lemma last_distance_loop_distance:
  "distance_inv nz mb st \<Longrightarrow>
   distance_inv nz mb (HashLongestMatch_last_distance_loop n data m dc c ml mb i st)"
proof (induction n data m dc c ml mb i st rule: HashLongestMatch_last_distance_loop.induct)
  case (1 n data m dc c ml mb i st)
  show ?case
  proof (cases "i < n")
    case True
    with 1 last_distance_step_distance show ?thesis
      by (subst HashLongestMatch_last_distance_loop.simps) simp
  next
    case False
    with 1 show ?thesis by (subst HashLongestMatch_last_distance_loop.simps) simp
  qed
qed

lemma bucket_step_distance:
  "distance_inv nz mb st \<Longrightarrow> \<not> mb < c - p \<Longrightarrow> (nz \<longrightarrow> p \<noteq> c) \<Longrightarrow>
   distance_inv nz mb (HashLongestMatch_bucket_step ext data m c ml p st)"
  by (auto simp add: HashLongestMatch_bucket_step_def distance_inv_def Let_def)

lemma bucket_loop_distance:
  "distance_inv nz mb st \<Longrightarrow> (nz \<longrightarrow> (\<forall>j. b j \<noteq> c)) \<Longrightarrow>
   distance_inv nz mb (HashLongestMatch_bucket_loop ext K b down data m c ml mb i st)"
proof (induction ext K b down data m c ml mb i st rule: HashLongestMatch_bucket_loop.induct)
  case (1 ext K b down data m c ml mb i st)
  let ?p = "b (nat i AND kBlockMask K)"
  consider (stop) "\<not> down \<le> i \<or> (0 \<le> sint ?p \<and> mb < c - ?p)"
    | (step) "down \<le> i" "0 \<le> sint ?p" "\<not> mb < c - ?p"
    | (skip) "down \<le> i" "\<not> 0 \<le> sint ?p"
    by blast
  then show ?case
  proof cases
    case stop
    with 1(3) show ?thesis
      by (subst HashLongestMatch_bucket_loop.simps) (auto simp add: Let_def)
  next
    case step
    from 1(4) have "nz \<longrightarrow> ?p \<noteq> c" by simp
    from bucket_step_distance[OF 1(3) step(3) this]
    have "distance_inv nz mb (HashLongestMatch_bucket_step ext data m c ml ?p st)" .
    with 1(1)[OF step(1) refl step(2,3)] 1(4) step show ?thesis
      by (subst HashLongestMatch_bucket_loop.simps) (simp add: Let_def)
  next
    case skip
    with 1(2)[OF skip(1) refl skip(2)] 1(3,4) show ?thesis
      by (subst HashLongestMatch_bucket_loop.simps) (simp add: Let_def)
  qed
qed

lemma search_distance:
  "(nz \<longrightarrow> (\<forall>j. HashLongestMatch_bucket_at B data m c h j \<noteq> c)) \<Longrightarrow>
   distance_inv nz mb (HashLongestMatch_search ext B K L data m dc c ml mb outs h)"
  unfolding HashLongestMatch_search_def Let_def HashLongestMatch_bucket_at_def
  by (intro bucket_loop_distance last_distance_loop_distance) (simp_all add: distance_inv_def)

lemma block_local_match_FindLongestMatch:
  assumes "HashLongestMatch_local_match ext B K L data m dc c ml mb outs h = Some outs'"
  shows "HashLongestMatch_FindLongestMatch ext B K L data m dc c ml mb outs h = (True, outs', h)"
  using assms
  by (auto simp add: HashLongestMatch_local_match_def HashLongestMatch_FindLongestMatch_def
      HashLongestMatch_dictionary_def Let_def split: if_splits)

lemma block_local_match_distance:
  assumes "HashLongestMatch_local_match ext B K L data m dc c ml mb outs h = Some outs'"
  shows "best_distance_out outs' \<le> mb"
    and "(\<forall>j. HashLongestMatch_bucket_at B data m c h j \<noteq> c) \<Longrightarrow> best_distance_out outs' \<noteq> 0"
proof -
  let ?st = "HashLongestMatch_search ext B K L data m dc c ml mb outs h"
  from assms have f: "match_found ?st" and o: "outs' = outputs_of ?st"
    by (auto simp add: HashLongestMatch_local_match_def Let_def split: if_splits)
  from search_distance[of False B data m c h mb ext K L dc ml outs] f o
  show "best_distance_out outs' \<le> mb" by (simp add: distance_inv_def)
  assume "\<forall>j. HashLongestMatch_bucket_at B data m c h j \<noteq> c"
  with search_distance[of True B data m c h mb ext K L dc ml outs] f o
  show "best_distance_out outs' \<noteq> 0" by (simp add: distance_inv_def)
qed

text \<open>Quick hasher.\<close>

lemma quick_last_distance_Return_distance:
  "HashLongestMatchQuickly_last_distance S rb m dc c ml st = Return r outs' \<Longrightarrow>
   quick_distance_ok (dc 0) c mb (best_distance_out outs')"
  by (auto simp add: HashLongestMatchQuickly_last_distance_def Let_def quick_distance_ok_def
      dest: sub_less_imp split: if_splits)

lemma quick_last_distance_Continue_distance:
  "HashLongestMatchQuickly_last_distance S rb m dc c ml st = Continue st' \<Longrightarrow>
   \<not> match_found st \<Longrightarrow>
   match_found st' \<longrightarrow> quick_distance_ok (dc 0) c mb (best_distance_out st')"
  by (auto simp add: HashLongestMatchQuickly_last_distance_def Let_def quick_distance_ok_def
      dest: sub_less_imp split: if_splits)

lemma single_probe_Return_distance:
  "HashLongestMatchQuickly_single_probe ext rb m c ml mb bl e st = Return True outs' \<Longrightarrow>
   quick_distance_ok d0 c mb (best_distance_out outs')"
  by (auto simp add: HashLongestMatchQuickly_single_probe_def Let_def quick_distance_ok_def
      split: if_splits)

lemma sweep_step_distance:
  "match_found st \<longrightarrow> quick_distance_ok d0 c mb (best_distance_out st) \<Longrightarrow>
   match_found (HashLongestMatchQuickly_sweep_step ext rb m c ml mb e st) \<longrightarrow>
   quick_distance_ok d0 c mb
     (best_distance_out (HashLongestMatchQuickly_sweep_step ext rb m c ml mb e st))"
  by (auto simp add: HashLongestMatchQuickly_sweep_step_def Let_def quick_distance_ok_def)

lemma sweep_loop_distance:
  "match_found st \<longrightarrow> quick_distance_ok d0 c mb (best_distance_out st) \<Longrightarrow>
   match_found (HashLongestMatchQuickly_sweep_loop ext S b key rb m c ml mb i st) \<longrightarrow>
   quick_distance_ok d0 c mb
     (best_distance_out (HashLongestMatchQuickly_sweep_loop ext S b key rb m c ml mb i st))"
proof (induction ext S b key rb m c ml mb i st rule: HashLongestMatchQuickly_sweep_loop.induct)
  case (1 ext S b key rb m c ml mb i st)
  show ?case
  proof (cases "i < S")
    case True
    from sweep_step_distance[OF 1(2)] 1(1)[OF True] True show ?thesis
      by (subst (1 2) HashLongestMatchQuickly_sweep_loop.simps) simp
  next
    case False
    with 1 show ?thesis by (subst (1 2) HashLongestMatchQuickly_sweep_loop.simps) simp
  qed
qed

lemma quick_local_match_distance:
  assumes "HashLongestMatchQuickly_local_match ext B S rb m dc c ml mb outs q = Some outs'"
  shows "quick_distance_ok (dc 0) c mb (best_distance_out outs')"
proof -
  let ?st0 = "HashLongestMatchQuickly_init rb m c outs"
  let ?key = "unat (HashLongestMatchQuickly_HashBytes B (ptr_add rb (unat c AND m)))"
  show ?thesis
  proof (cases "HashLongestMatchQuickly_last_distance S rb m dc c ml ?st0")
    case (Return r o1)
    with assms have "o1 = outs'"
      by (auto simp add: HashLongestMatchQuickly_local_match_def
          HashLongestMatchQuickly_search_def Let_def split: if_splits)
    with quick_last_distance_Return_distance[OF Return] show ?thesis by simp
  next
    case (Continue st1)
    note st1 = quick_last_distance_Continue_distance[OF Continue init_unfound, of mb]
    show ?thesis
    proof (cases "S = 1")
      case True
      with Continue have st1_eq: "st1 = ?st0"
        by (auto simp add: HashLongestMatchQuickly_last_distance_def Let_def split: if_splits)
      from True Continue assms
      have "HashLongestMatchQuickly_single_probe ext rb m c ml mb (best_len_out outs)
              (quick_buckets q ?key) st1 = Return True outs'"
        using single_probe_Continue[of ext rb m c ml mb "best_len_out outs" "quick_buckets q ?key" st1]
          init_unfound[of rb m c outs] st1_eq
        by (auto simp add: HashLongestMatchQuickly_local_match_def
            HashLongestMatchQuickly_search_def Let_def split: if_splits flow.splits)
      from single_probe_Return_distance[OF this] show ?thesis .
    next
      case False
      let ?st = "HashLongestMatchQuickly_sweep_loop ext S (quick_buckets q) ?key rb m c ml mb 0 st1"
      from False Continue assms have "match_found ?st" "outs' = outputs_of ?st"
        by (auto simp add: HashLongestMatchQuickly_local_match_def
            HashLongestMatchQuickly_search_def Let_def split: if_splits)
      with sweep_loop_distance[OF st1, of ext S "quick_buckets q" ?key rb m ml 0]
      show ?thesis by simp
    qed
  qed
qed

lemma quick_local_match_FindLongestMatch:
  assumes "HashLongestMatchQuickly_local_match ext B S rb m dc c ml mb outs q = Some outs'"
  shows "HashLongestMatchQuickly_FindLongestMatch ext B S D rb m dc c ml mb outs q = (True, outs', q)"
  using assms
  by (auto simp add: HashLongestMatchQuickly_local_match_def
      HashLongestMatchQuickly_FindLongestMatch_def HashLongestMatchQuickly_dictionary_def
      split: flow.splits if_splits)

subsection \<open>Evaluation on concrete inputs\<close>

lemma FML_numeral:
  "FindMatchLengthWithLimit s1 s2 (numeral k) =
     (if s1 0 = s2 0
      then Suc (FindMatchLengthWithLimit (ptr_add s1 1) (ptr_add s2 1) (pred_numeral k))
      else 0)"
  by (simp add: numeral_eq_Suc)

lemma FML_same: "FindMatchLengthWithLimit (\<lambda>_. x) (\<lambda>_. x) n = n"
  by (induction n) (simp_all add: ptr_add_def)

lemmas loop_simps =
  HashLongestMatch_last_distance_loop.simps HashLongestMatch_bucket_loop.simps
  HashLongestMatch_dict_loop.simps HashLongestMatchQuickly_sweep_loop.simps

lemmas block_defs =
  HashLongestMatch_FindLongestMatch_def HashLongestMatch_dictionary_def
  HashLongestMatch_search_def HashLongestMatch_last_distance_step_def
  HashLongestMatch_bucket_step_def HashLongestMatch_dict_step_def outputs_of_def
  example_block_def example_externals_def kBlockSize_def kBlockMask_def
  kDistanceCacheIndex_def kDistanceCacheOffset_def
  BackwardReferenceScoreUsingLastDistance_def kDistanceShortCodeBitCost_def
  BackwardReferenceScore_def ptr_add_def FML_same Let_def

lemma ex_block_false:
  "HashLongestMatch_FindLongestMatch example_externals 14 4 4 (\<lambda>_. 0xAA) 0xFFFF (\<lambda>_. 0) 8 8 8
     \<lparr>best_len_out = 5, best_len_code_out = 5, best_distance_out = 3, best_score_out = 1\<rparr>
     example_block
   = (False,
      \<lparr>best_len_out = 0, best_len_code_out = 0, best_distance_out = 3, best_score_out = 1\<rparr>,
      example_block\<lparr>num_dict_lookups := 2\<rparr>)"
  by (simp add: block_defs loop_simps)

lemma ex_block_true:
  "HashLongestMatch_FindLongestMatch example_externals 14 4 4 (\<lambda>_. 0xAA) 0xFFFF (\<lambda>_. 1) 8 8 8
     \<lparr>best_len_out = 0, best_len_code_out = 0, best_distance_out = 0, best_score_out = 0\<rparr>
     example_block
   = (True,
      \<lparr>best_len_out = 8, best_len_code_out = 8, best_distance_out = 1, best_score_out = 43.8\<rparr>,
      example_block)"
  by (simp add: block_defs loop_simps)

subsection \<open>The key of the static dictionary\<close>

lemma bit_double_word: "bit (a * 2 :: 32 word) n \<longleftrightarrow> 0 < n \<and> n < 32 \<and> bit a (n - 1)"
  using bit_push_bit_iff [of 1 a n] unfolding push_bit_eq_mult
  by (auto simp add: possible_bit_word)

lemma shift_key: "push_bit 1 (drop_bit 18 (x :: 32 word)) = drop_bit 17 x AND NOT 1"
proof (rule bit_word_eqI)
  fix n assume "n < LENGTH(32)"
  show "bit (push_bit 1 (drop_bit 18 x)) n = bit (drop_bit 17 x AND NOT 1) n"
  proof (cases n)
    case 0
    then show ?thesis by (simp add: bit_simps bit_0 even_and_iff)
  next
    case (Suc k)
    then show ?thesis by (auto simp add: bit_simps bit_double_word)
  qed
qed

lemma dictionary_key_spec: "push_bit 1 (Hash 14 p) = spec_dictionary_key p"
proof -
  have "Hash 14 p = drop_bit 18 (BROTLI_UNALIGNED_LOAD32 p * kHashMul32)"
    and "Hash 15 p = drop_bit 17 (BROTLI_UNALIGNED_LOAD32 p * kHashMul32)"
    by (simp_all add: Hash_def)
  then show ?thesis
    unfolding spec_dictionary_key_def by (simp only: shift_key)
qed

lemma dictionary_key_spec_mult: "Hash 14 p * 2 = spec_dictionary_key p"
  using dictionary_key_spec[of p] by (simp add: push_bit_eq_mult)

lemma dictionary_key_succ: "spec_dictionary_key p + 1 = spec_dictionary_key p OR 1"
proof -
  have "even (Hash 14 p * 2)" by simp
  then have "even (spec_dictionary_key p)" by (simp only: dictionary_key_spec_mult)
  then show ?thesis by (simp add: or_one_eq)
qed

lemma score_table [simp]:
  "BackwardReferenceScore (ext\<lparr>kStaticDictionaryHash := t\<rparr>) = BackwardReferenceScore ext"
  by (intro ext) (simp add: BackwardReferenceScore_def)

lemma quick_dictionary_table:
  assumes "t (unat (spec_dictionary_key (ptr_add rb (unat c AND m)))) =
           kStaticDictionaryHash ext (unat (spec_dictionary_key (ptr_add rb (unat c AND m))))"
  shows "HashLongestMatchQuickly_dictionary (ext\<lparr>kStaticDictionaryHash := t\<rparr>) D rb m c ml mb st q =
         HashLongestMatchQuickly_dictionary ext D rb m c ml mb st q"
  using assms
  by (simp add: HashLongestMatchQuickly_dictionary_def dictionary_key_spec_mult Let_def)

lemma dict_step_table:
  assumes "t (unat key) = kStaticDictionaryHash ext (unat key)"
  shows "HashLongestMatch_dict_step (ext\<lparr>kStaticDictionaryHash := t\<rparr>) data m c ml mb key sh =
         HashLongestMatch_dict_step ext data m c ml mb key sh"
  using assms by (simp add: HashLongestMatch_dict_step_def Let_def)

lemma dict_loop_two:
  "HashLongestMatch_dict_loop ext data m c ml mb 0 key sh =
     HashLongestMatch_dict_step ext data m c ml mb (key + 1)
       (HashLongestMatch_dict_step ext data m c ml mb key sh)"
  by (simp add: HashLongestMatch_dict_loop.simps)

lemma block_dictionary_table:
  assumes "t (unat (spec_dictionary_key (ptr_add data (unat c AND m)))) =
           kStaticDictionaryHash ext (unat (spec_dictionary_key (ptr_add data (unat c AND m))))"
    and "t (unat (spec_dictionary_key (ptr_add data (unat c AND m)) OR 1)) =
           kStaticDictionaryHash ext (unat (spec_dictionary_key (ptr_add data (unat c AND m)) OR 1))"
  shows "HashLongestMatch_dictionary (ext\<lparr>kStaticDictionaryHash := t\<rparr>) data m c ml mb sh =
         HashLongestMatch_dictionary ext data m c ml mb sh"
  using assms
  by (simp add: HashLongestMatch_dictionary_def dictionary_key_spec_mult Let_def dict_loop_two
      dict_step_table dictionary_key_succ)

lemma word_matches_pos: "dictionary_word_matches ext p ml mb s v \<Longrightarrow> v > 0"
  by (auto simp add: dictionary_word_matches_def Let_def word_greater_zero_iff)

lemma quick_dictionary_miss:
  assumes "D" "\<not> match_found st" "quick_num_dict_lookups q div 2 ^ 7 \<le> quick_num_dict_matches q"
    and "kStaticDictionaryHash ext (unat (spec_dictionary_key (ptr_add rb (unat c AND m)))) = 0"
  shows "HashLongestMatchQuickly_dictionary ext D rb m c ml mb st q =
     (False, outputs_of st, q\<lparr>quick_num_dict_lookups := quick_num_dict_lookups q + 1\<rparr>)"
  using assms
  by (simp add: HashLongestMatchQuickly_dictionary_def dictionary_key_spec_mult Let_def)

lemma quick_dictionary_hit:
  assumes "D" "\<not> match_found st" "quick_num_dict_lookups q div 2 ^ 7 \<le> quick_num_dict_matches q"
    and "dictionary_word_matches ext (ptr_add rb (unat c AND m)) ml mb (best_score st)
           (kStaticDictionaryHash ext (unat (spec_dictionary_key (ptr_add rb (unat c AND m)))))"
  shows "HashLongestMatchQuickly_dictionary ext D rb m c ml mb st q =
     (True,
      dictionary_word_outputs ext mb
        (kStaticDictionaryHash ext (unat (spec_dictionary_key (ptr_add rb (unat c AND m))))),
      q\<lparr>quick_num_dict_lookups := quick_num_dict_lookups q + 1,
        quick_num_dict_matches := quick_num_dict_matches q + 1\<rparr>)"
  using assms word_matches_pos[OF assms(4)]
  by (simp add: HashLongestMatchQuickly_dictionary_def dictionary_key_spec_mult Let_def
      dictionary_word_matches_def dictionary_word_outputs_def kCutoffTransformsCount_def
      kCutoffTransforms_def outputs_of_def)

lemma dict_step_miss:
  "kStaticDictionaryHash ext (unat key) = 0 \<Longrightarrow>
   HashLongestMatch_dict_step ext data m c ml mb key (st, h) =
     (st, h\<lparr>num_dict_lookups := num_dict_lookups h + 1\<rparr>)"
  by (simp add: HashLongestMatch_dict_step_def Let_def)

lemma dict_step_hit:
  assumes "dictionary_word_matches ext (ptr_add data (unat c AND m)) ml mb (best_score st)
             (kStaticDictionaryHash ext (unat key))"
  shows "match_found (fst (HashLongestMatch_dict_step ext data m c ml mb key (st, h)))
       \<and> outputs_of (fst (HashLongestMatch_dict_step ext data m c ml mb key (st, h))) =
           dictionary_word_outputs ext mb (kStaticDictionaryHash ext (unat key))
       \<and> best_score (fst (HashLongestMatch_dict_step ext data m c ml mb key (st, h))) =
           best_score_out (dictionary_word_outputs ext mb (kStaticDictionaryHash ext (unat key)))
       \<and> snd (HashLongestMatch_dict_step ext data m c ml mb key (st, h)) =
           h\<lparr>num_dict_lookups := num_dict_lookups h + 1,
             num_dict_matches := num_dict_matches h + 1\<rparr>"
  using assms word_matches_pos[OF assms]
  by (simp add: HashLongestMatch_dict_step_def Let_def
      dictionary_word_matches_def dictionary_word_outputs_def kCutoffTransformsCount_def
      kCutoffTransforms_def outputs_of_def)

lemma dict_step_miss_fst:
  "kStaticDictionaryHash ext (unat key) = 0 \<Longrightarrow>
   fst (HashLongestMatch_dict_step ext data m c ml mb key sh) = fst sh"
  by (simp add: HashLongestMatch_dict_step_def Let_def)

lemma block_dictionary_two:
  "\<not> match_found st \<Longrightarrow> num_dict_lookups h div 2 ^ 7 \<le> num_dict_matches h \<Longrightarrow>
   HashLongestMatch_dictionary ext data m c ml mb (st, h) =
     HashLongestMatch_dict_step ext data m c ml mb
       (spec_dictionary_key (ptr_add data (unat c AND m)) OR 1)
       (HashLongestMatch_dict_step ext data m c ml mb
          (spec_dictionary_key (ptr_add data (unat c AND m))) (st, h))"
  by (simp add: HashLongestMatch_dictionary_def dictionary_key_spec_mult Let_def dict_loop_two
      dictionary_key_succ)

lemma block_dictionary_miss:
  assumes "\<not> match_found st" "num_dict_lookups h div 2 ^ 7 \<le> num_dict_matches h"
    and "kStaticDictionaryHash ext (unat (spec_dictionary_key (ptr_add data (unat c AND m)))) = 0"
    and "kStaticDictionaryHash ext (unat (spec_dictionary_key (ptr_add data (unat c AND m)) OR 1)) = 0"
  shows "HashLongestMatch_dictionary ext data m c ml mb (st, h) =
     (st, h\<lparr>num_dict_lookups := num_dict_lookups h + 2\<rparr>)"
  unfolding block_dictionary_two[OF assms(1,2)] dict_step_miss[OF assms(3)]
  using assms(4) by (simp add: dict_step_miss)

lemma block_dictionary_hit_first:
  assumes "\<not> match_found st" "num_dict_lookups h div 2 ^ 7 \<le> num_dict_matches h"
    and "dictionary_word_matches ext (ptr_add data (unat c AND m)) ml mb (best_score st)
           (kStaticDictionaryHash ext (unat (spec_dictionary_key (ptr_add data (unat c AND m)))))"
    and "kStaticDictionaryHash ext (unat (spec_dictionary_key (ptr_add data (unat c AND m)) OR 1)) = 0"
  shows "match_found (fst (HashLongestMatch_dictionary ext data m c ml mb (st, h)))
       \<and> outputs_of (fst (HashLongestMatch_dictionary ext data m c ml mb (st, h))) =
           dictionary_word_outputs ext mb
             (kStaticDictionaryHash ext (unat (spec_dictionary_key (ptr_add data (unat c AND m)))))"
  unfolding block_dictionary_two[OF assms(1,2)] dict_step_miss_fst[OF assms(4)]
  using dict_step_hit[OF assms(3), of h] by simp

lemma block_dictionary_hit_second:
  assumes "\<not> match_found st" "num_dict_lookups h div 2 ^ 7 \<le> num_dict_matches h"
    and "kStaticDictionaryHash ext (unat (spec_dictionary_key (ptr_add data (unat c AND m)))) = 0"
    and "dictionary_word_matches ext (ptr_add data (unat c AND m)) ml mb (best_score st)
           (kStaticDictionaryHash ext (unat (spec_dictionary_key (ptr_add data (unat c AND m)) OR 1)))"
  shows "match_found (fst (HashLongestMatch_dictionary ext data m c ml mb (st, h)))
       \<and> outputs_of (fst (HashLongestMatch_dictionary ext data m c ml mb (st, h))) =
           dictionary_word_outputs ext mb
             (kStaticDictionaryHash ext (unat (spec_dictionary_key (ptr_add data (unat c AND m)) OR 1)))"
  unfolding block_dictionary_two[OF assms(1,2)] dict_step_miss[OF assms(3)]
  using dict_step_hit[OF assms(4)] by simp

subsection \<open>Examples\<close>

lemmas quick_defs =
  HashLongestMatchQuickly_FindLongestMatch_def HashLongestMatchQuickly_dictionary_def
  HashLongestMatchQuickly_search_def HashLongestMatchQuickly_init_def
  HashLongestMatchQuickly_last_distance_def HashLongestMatchQuickly_single_probe_def
  HashLongestMatchQuickly_sweep_step_def outputs_of_def
  example_quick_def example_externals_def
  BackwardReferenceScoreUsingLastDistance_def kDistanceShortCodeBitCost_def
  BackwardReferenceScore_def ptr_add_def FML_same Let_def

lemma word_one_le: "1 \<le> (d :: 32 word) \<longleftrightarrow> d \<noteq> 0"
  by (simp add: word_le_nat_alt unat_gt_0 [symmetric] Suc_le_eq)

lemma bit_length_4: "bit_length 4 = 3"
  by (simp add: bit_length.simps)

lemma ex_quick_false:
  "HashLongestMatchQuickly_FindLongestMatch example_externals 16 1 True (\<lambda>_. 0xAA) 0xFFFF
     (\<lambda>_. 0) 8 8 4
     \<lparr>best_len_out = 0, best_len_code_out = 0, best_distance_out = 3, best_score_out = 1\<rparr>
     example_quick
   = (False,
      \<lparr>best_len_out = 0, best_len_code_out = 0, best_distance_out = 3, best_score_out = 1\<rparr>,
      example_quick)"
  by (simp add: quick_defs)

lemma ex_quick_last_distance:
  "HashLongestMatchQuickly_FindLongestMatch example_externals 16 1 True (\<lambda>_. 0xAA) 0xFFFF
     (\<lambda>_. 1) 8 8 8
     \<lparr>best_len_out = 0, best_len_code_out = 0, best_distance_out = 0, best_score_out = 1000\<rparr>
     example_quick
   = (True,
      \<lparr>best_len_out = 8, best_len_code_out = 8, best_distance_out = 1, best_score_out = 43.8\<rparr>,
      example_quick)"
  by (simp add: quick_defs)

lemma ex_quick_far:
  "HashLongestMatchQuickly_FindLongestMatch example_externals 16 2 False (\<lambda>_. 0xAA) 0xFFFF
     (\<lambda>_. 36000) 40000 8 32752
     \<lparr>best_len_out = 0, best_len_code_out = 0, best_distance_out = 0, best_score_out = 0\<rparr>
     example_quick
   = (True,
      \<lparr>best_len_out = 8, best_len_code_out = 8, best_distance_out = 36000,
       best_score_out = 43.8\<rparr>,
      example_quick)"
  by (simp add: quick_defs loop_simps)

lemma ex_quick_sweep:
  "HashLongestMatchQuickly_FindLongestMatch example_externals 16 2 False (\<lambda>_. 0xAA) 0xFFFF
     (\<lambda>_. 0) 8 8 8
     \<lparr>best_len_out = 0, best_len_code_out = 0, best_distance_out = 0, best_score_out = 0\<rparr>
     (example_quick\<lparr>quick_buckets := (\<lambda>_. 4)\<rparr>)
   = (True,
      \<lparr>best_len_out = 8, best_len_code_out = 8, best_distance_out = 4, best_score_out = 40.8\<rparr>,
      example_quick\<lparr>quick_buckets := (\<lambda>_. 4)\<rparr>)"
  by (simp add: quick_defs loop_simps bit_length_4)

lemma ex_quick_miss:
  "HashLongestMatchQuickly_last_distance 2 (\<lambda>_. 0xAA) 0xFFFF (\<lambda>_. 0) 8 8
     (HashLongestMatchQuickly_init (\<lambda>_. 0xAA) 0xFFFF 8
        \<lparr>best_len_out = 0, best_len_code_out = 0, best_distance_out = 0, best_score_out = 0\<rparr>)
   = Continue (HashLongestMatchQuickly_init (\<lambda>_. 0xAA) 0xFFFF 8
        \<lparr>best_len_out = 0, best_len_code_out = 0, best_distance_out = 0, best_score_out = 0\<rparr>)"
  by (simp add: quick_defs)

subsection \<open>The claims on \<open>FindLongestMatch\<close>\<close>


text \<open>
  Claim C4, as the code has it. When \<open>FindLongestMatch\<close> of a quick hasher returns false, the
  four in/out parameters hold the values they had on entry. When \<open>FindLongestMatch\<close> of a
  block hasher returns false, \<open>*best_distance_out\<close> and \<open>*best_score_out\<close> hold the values
  they had on entry, and \<open>*best_len_out\<close> and \<open>*best_len_code_out\<close> are 0: the function
  sets both to 0 before it searches.
\<close>

theorem FindLongestMatch_false_outputs:
  "(HashLongestMatchQuickly_FindLongestMatch ext kBucketBits kBucketSweep kUseDictionary
      ring_buffer ring_buffer_mask distance_cache cur_ix max_length max_backward outs q
      = (False, outs', q') \<longrightarrow> outs' = outs)
   \<and> (HashLongestMatch_FindLongestMatch ext kBucketBits' kBlockBits kNumLastDistancesToCheck
      data ring_buffer_mask distance_cache cur_ix max_length max_backward outs h
      = (False, outs'', h') \<longrightarrow>
       outs'' = \<lparr>best_len_out = 0, best_len_code_out = 0,
                 best_distance_out = best_distance_out outs,
                 best_score_out = best_score_out outs\<rparr>)"
proof (intro conjI impI)
  assume "HashLongestMatchQuickly_FindLongestMatch ext kBucketBits kBucketSweep kUseDictionary
      ring_buffer ring_buffer_mask distance_cache cur_ix max_length max_backward outs q
      = (False, outs', q')"
  then show "outs' = outs" by (rule quick_FindLongestMatch_false)
next
  assume "HashLongestMatch_FindLongestMatch ext kBucketBits' kBlockBits kNumLastDistancesToCheck
      data ring_buffer_mask distance_cache cur_ix max_length max_backward outs h
      = (False, outs'', h')"
  then show "outs'' = \<lparr>best_len_out = 0, best_len_code_out = 0,
                 best_distance_out = best_distance_out outs,
                 best_score_out = best_score_out outs\<rparr>"
    by (rule block_FindLongestMatch_false)
qed

theorem FindLongestMatch_false_outputs_witness:
  "HashLongestMatchQuickly_FindLongestMatch example_externals 16 1 True (\<lambda>_. 0xAA) 0xFFFF
     (\<lambda>_. 0) 8 8 4
     \<lparr>best_len_out = 0, best_len_code_out = 0, best_distance_out = 3, best_score_out = 1\<rparr>
     example_quick
   = (False,
      \<lparr>best_len_out = 0, best_len_code_out = 0, best_distance_out = 3, best_score_out = 1\<rparr>,
      example_quick)
  \<and> HashLongestMatch_FindLongestMatch example_externals 14 4 4 (\<lambda>_. 0xAA) 0xFFFF (\<lambda>_. 0) 8 8 8
     \<lparr>best_len_out = 5, best_len_code_out = 5, best_distance_out = 3, best_score_out = 1\<rparr>
     example_block
   = (False,
      \<lparr>best_len_out = 0, best_len_code_out = 0, best_distance_out = 3, best_score_out = 1\<rparr>,
      example_block\<lparr>num_dict_lookups := 2\<rparr>)
  \<and> \<lparr>best_len_out = 0, best_len_code_out = 0, best_distance_out = 3, best_score_out = 1\<rparr> =
     \<lparr>best_len_out = 0, best_len_code_out = 0,
      best_distance_out = best_distance_out
        \<lparr>best_len_out = 5, best_len_code_out = 5, best_distance_out = (3 :: i32),
         best_score_out = (1 :: real)\<rparr>,
      best_score_out = best_score_out
        \<lparr>best_len_out = 5, best_len_code_out = 5, best_distance_out = (3 :: i32),
         best_score_out = (1 :: real)\<rparr>\<rparr>"
proof -
  note q = FindLongestMatch_false_outputs[THEN conjunct1, THEN mp, OF ex_quick_false]
  note b = FindLongestMatch_false_outputs[THEN conjunct2, THEN mp, OF ex_block_false]
  from q have "True" by simp
  show ?thesis by (rule conjI[OF ex_quick_false conjI[OF ex_block_false b]])
qed

text \<open>
  The claim as it is written fails for the block hasher: entered with
  \<open>*best_len_out = *best_len_code_out = 5\<close> and nothing to find, it returns false with both
  at 0.
\<close>

theorem block_FindLongestMatch_resets_length_counterexample:
  "HashLongestMatch_FindLongestMatch example_externals 14 4 4 (\<lambda>_. 0xAA) 0xFFFF (\<lambda>_. 0) 8 8 8
     \<lparr>best_len_out = 5, best_len_code_out = 5, best_distance_out = 3, best_score_out = 1\<rparr>
     example_block
   = (False,
      \<lparr>best_len_out = 0, best_len_code_out = 0, best_distance_out = 3, best_score_out = 1\<rparr>,
      example_block\<lparr>num_dict_lookups := 2\<rparr>)
  \<and> best_len_out
       \<lparr>best_len_out = 0, best_len_code_out = 0, best_distance_out = (3 :: i32),
        best_score_out = (1 :: real)\<rparr>
     \<noteq> best_len_out
       \<lparr>best_len_out = 5, best_len_code_out = 5, best_distance_out = (3 :: i32),
        best_score_out = (1 :: real)\<rparr>"
  by (rule conjI[OF ex_block_false]) simp

text \<open>
  Claim C1, as the code has it. When \<open>FindLongestMatch\<close> of a block hasher returns true, the
  score written to \<open>*best_score_out\<close> is strictly greater than the score on entry. For a quick
  hasher with \<open>kBucketSweep\<close> other than 1 the same holds when the probe of the last distance
  \<open>distance_cache[0]\<close> finds no match. (Scores are compared as real numbers.)
\<close>

theorem FindLongestMatch_true_score:
  "(HashLongestMatch_FindLongestMatch ext kBucketBits kBlockBits kNumLastDistancesToCheck
      data ring_buffer_mask distance_cache cur_ix max_length max_backward outs h
      = (True, outs', h') \<longrightarrow> best_score_out outs < best_score_out outs')
   \<and> (kBucketSweep \<noteq> 1 \<and>
       HashLongestMatchQuickly_last_distance kBucketSweep data ring_buffer_mask distance_cache
         cur_ix max_length (HashLongestMatchQuickly_init data ring_buffer_mask cur_ix outs)
         = Continue (HashLongestMatchQuickly_init data ring_buffer_mask cur_ix outs) \<and>
       HashLongestMatchQuickly_FindLongestMatch ext kBucketBits' kBucketSweep kUseDictionary
         data ring_buffer_mask distance_cache cur_ix max_length max_backward outs q
         = (True, outs'', q') \<longrightarrow> best_score_out outs < best_score_out outs'')"
proof (intro conjI impI)
  assume "HashLongestMatch_FindLongestMatch ext kBucketBits kBlockBits kNumLastDistancesToCheck
      data ring_buffer_mask distance_cache cur_ix max_length max_backward outs h
      = (True, outs', h')"
  then show "best_score_out outs < best_score_out outs'"
    by (rule block_FindLongestMatch_true_score)
next
  assume a: "kBucketSweep \<noteq> 1 \<and>
       HashLongestMatchQuickly_last_distance kBucketSweep data ring_buffer_mask distance_cache
         cur_ix max_length (HashLongestMatchQuickly_init data ring_buffer_mask cur_ix outs)
         = Continue (HashLongestMatchQuickly_init data ring_buffer_mask cur_ix outs) \<and>
       HashLongestMatchQuickly_FindLongestMatch ext kBucketBits' kBucketSweep kUseDictionary
         data ring_buffer_mask distance_cache cur_ix max_length max_backward outs q
         = (True, outs'', q')"
  show "best_score_out outs < best_score_out outs''"
    by (rule quick_FindLongestMatch_true_score[OF a[THEN conjunct1]
          a[THEN conjunct2, THEN conjunct1] a[THEN conjunct2, THEN conjunct2]])
qed

theorem FindLongestMatch_true_score_witness:
  "HashLongestMatch_FindLongestMatch example_externals 14 4 4 (\<lambda>_. 0xAA) 0xFFFF (\<lambda>_. 1) 8 8 8
     \<lparr>best_len_out = 0, best_len_code_out = 0, best_distance_out = 0, best_score_out = 0\<rparr>
     example_block
   = (True,
      \<lparr>best_len_out = 8, best_len_code_out = 8, best_distance_out = 1, best_score_out = 43.8\<rparr>,
      example_block)
   \<and> best_score_out
        \<lparr>best_len_out = 0, best_len_code_out = 0, best_distance_out = (0 :: i32),
         best_score_out = (0 :: real)\<rparr>
     < best_score_out
        \<lparr>best_len_out = 8, best_len_code_out = 8, best_distance_out = (1 :: i32),
         best_score_out = (43.8 :: real)\<rparr>
   \<and> (2 :: nat) \<noteq> 1
   \<and> HashLongestMatchQuickly_last_distance 2 (\<lambda>_. 0xAA) 0xFFFF (\<lambda>_. 0) 8 8
       (HashLongestMatchQuickly_init (\<lambda>_. 0xAA) 0xFFFF 8
          \<lparr>best_len_out = 0, best_len_code_out = 0, best_distance_out = 0, best_score_out = 0\<rparr>)
     = Continue (HashLongestMatchQuickly_init (\<lambda>_. 0xAA) 0xFFFF 8
          \<lparr>best_len_out = 0, best_len_code_out = 0, best_distance_out = 0, best_score_out = 0\<rparr>)
   \<and> HashLongestMatchQuickly_FindLongestMatch example_externals 16 2 False (\<lambda>_. 0xAA) 0xFFFF
       (\<lambda>_. 0) 8 8 8
       \<lparr>best_len_out = 0, best_len_code_out = 0, best_distance_out = 0, best_score_out = 0\<rparr>
       (example_quick\<lparr>quick_buckets := (\<lambda>_. 4)\<rparr>)
     = (True,
        \<lparr>best_len_out = 8, best_len_code_out = 8, best_distance_out = 4, best_score_out = 40.8\<rparr>,
        example_quick\<lparr>quick_buckets := (\<lambda>_. 4)\<rparr>)
   \<and> best_score_out
        \<lparr>best_len_out = 0, best_len_code_out = 0, best_distance_out = (0 :: i32),
         best_score_out = (0 :: real)\<rparr>
     < best_score_out
        \<lparr>best_len_out = 8, best_len_code_out = 8, best_distance_out = (4 :: i32),
         best_score_out = (40.8 :: real)\<rparr>"
proof -
  have two: "(2 :: nat) \<noteq> 1" by simp
  note b = FindLongestMatch_true_score[THEN conjunct1, THEN mp, OF ex_block_true]
  note q = FindLongestMatch_true_score[THEN conjunct2, THEN mp,
      OF conjI[OF two conjI[OF ex_quick_miss ex_quick_sweep]]]
  show ?thesis
    by (rule conjI[OF ex_block_true conjI[OF b conjI[OF two conjI[OF ex_quick_miss
          conjI[OF ex_quick_sweep q]]]]])
qed

text \<open>
  The claim as it is written fails for the quick hasher H1: a match of length 8 at the last
  distance is accepted, and its score 43.8 is written out, although the score on entry was
  1000.
\<close>

theorem quick_last_distance_score_counterexample:
  "HashLongestMatchQuickly_FindLongestMatch example_externals 16 1 True (\<lambda>_. 0xAA) 0xFFFF
     (\<lambda>_. 1) 8 8 8
     \<lparr>best_len_out = 0, best_len_code_out = 0, best_distance_out = 0, best_score_out = 1000\<rparr>
     example_quick
   = (True,
      \<lparr>best_len_out = 8, best_len_code_out = 8, best_distance_out = 1, best_score_out = 43.8\<rparr>,
      example_quick)
   \<and> \<not> best_score_out
        \<lparr>best_len_out = 0, best_len_code_out = 0, best_distance_out = (0 :: i32),
         best_score_out = (1000 :: real)\<rparr>
       < best_score_out
        \<lparr>best_len_out = 8, best_len_code_out = 8, best_distance_out = (1 :: i32),
         best_score_out = (43.8 :: real)\<rparr>"
  by (rule conjI[OF ex_quick_last_distance]) simp

text \<open>
  Claim C2 does not hold of the code. \<open>HashLongestMatchQuickly::FindLongestMatch\<close> is
  documented as not looking for matches further away than \<open>max_backward\<close>, and the block
  hasher tests \<open>backward > max_backward\<close> on the last distances; the quick hasher tests its
  last distance \<open>distance_cache[0]\<close> with \<open>prev_ix < cur_ix\<close> only. H2 (which has no
  dictionary) at position 40000 of a buffer of equal bytes, with \<open>max_backward = 32752\<close> and
  \<open>distance_cache[0] = 36000\<close>, returns true and reports the distance 36000.
\<close>

theorem quick_FindLongestMatch_beyond_max_backward:
  "HashLongestMatchQuickly_FindLongestMatch example_externals 16 2 False (\<lambda>_. 0xAA) 0xFFFF
     (\<lambda>_. 36000) 40000 8 32752
     \<lparr>best_len_out = 0, best_len_code_out = 0, best_distance_out = 0, best_score_out = 0\<rparr>
     example_quick
   = (True,
      \<lparr>best_len_out = 8, best_len_code_out = 8, best_distance_out = 36000,
       best_score_out = 43.8\<rparr>,
      example_quick)
   \<and> \<not> best_distance_out
        \<lparr>best_len_out = 8, best_len_code_out = 8, best_distance_out = (36000 :: i32),
         best_score_out = (43.8 :: real)\<rparr> \<le> 32752"
  by (rule conjI[OF ex_quick_far]) (simp add: word_le_nat_alt)

text \<open>
  The block hasher, on the same input, rejects the last distance and finds nothing. In
  general every match it finds before the dictionary part is within \<open>max_backward\<close>
  (\<open>block_local_match_distance\<close>); the quick hasher's matches are within \<open>max_backward\<close>
  unless they come from \<open>distance_cache[0]\<close> (\<open>quick_local_match_distance\<close>).
\<close>

lemma block_FindLongestMatch_rejects_far_distance:
  "HashLongestMatch_FindLongestMatch example_externals 14 4 4 (\<lambda>_. 0xAA) 0xFFFF
     (\<lambda>_. 36000) 40000 8 32752
     \<lparr>best_len_out = 0, best_len_code_out = 0, best_distance_out = 0, best_score_out = 0\<rparr>
     example_block
   = (False,
      \<lparr>best_len_out = 0, best_len_code_out = 0, best_distance_out = 0, best_score_out = 0\<rparr>,
      example_block\<lparr>num_dict_lookups := 2\<rparr>)"
  by (simp add: block_defs loop_simps)

text \<open>
  The lower bound of the claim fails on the block hasher, whose loop over the bucket has no
  test \<open>backward == 0\<close> (the quick hasher has one): when the bucket scanned holds \<open>cur_ix\<close>
  itself, the match reported is at distance 0.
\<close>

lemma block_FindLongestMatch_distance_zero:
  "HashLongestMatch_FindLongestMatch example_externals 14 4 4 (\<lambda>_. 0xAA) 0xFFFF (\<lambda>_. 0) 8 8 8
     \<lparr>best_len_out = 0, best_len_code_out = 0, best_distance_out = 0, best_score_out = 0\<rparr>
     (example_block\<lparr>num := (\<lambda>_. 1), buckets := (\<lambda>_ _. 8)\<rparr>)
   = (True,
      \<lparr>best_len_out = 8, best_len_code_out = 8, best_distance_out = 0, best_score_out = 44.4\<rparr>,
      example_block\<lparr>num := (\<lambda>_. 1), buckets := (\<lambda>_ _. 8)\<rparr>)"
  by (simp add: block_defs loop_simps bit_length.simps)

lemma ex_key: "spec_dictionary_key (ptr_add (\<lambda>_. 0) k) = 0"
  by (simp add: spec_dictionary_key_def Hash_def BROTLI_UNALIGNED_LOAD32_def ptr_add_def)

lemma bit_length_9: "bit_length 9 = 4"
  by (simp add: bit_length.simps)

lemma FML_zero: "FindMatchLengthWithLimit (\<lambda>i. 0) (\<lambda>i. 0) n = n"
  by (rule FML_same)

lemma ex_k: "unat (spec_dictionary_key (ptr_add (\<lambda>_. 0) (unat (8 :: u32) AND 0xFFFF))) = 0"
  by (simp add: ex_key)

lemma ex_k1: "unat (spec_dictionary_key (ptr_add (\<lambda>_. 0) (unat (8 :: u32) AND 0xFFFF)) OR 1) = 1"
  by (simp add: ex_key)

lemma ex_word_matches:
  "kStaticDictionaryHash ext i = 4 \<Longrightarrow> kBrotliDictionary ext = (\<lambda>_. 0) \<Longrightarrow>
   Log2Floor ext = Log2Floor example_externals \<Longrightarrow>
   dictionary_word_matches ext (ptr_add (\<lambda>_. 0) j) 8 8 0 (kStaticDictionaryHash ext i)"
  by (simp add: dictionary_word_matches_def Let_def ptr_add_def FML_zero
      BackwardReferenceScore_def example_externals_def bit_length_9)

lemma ex_word_outputs:
  "Log2Floor ext = Log2Floor example_externals \<Longrightarrow>
   dictionary_word_outputs ext 8 4 =
     \<lparr>best_len_out = 4, best_len_code_out = 4, best_distance_out = 9, best_score_out = 18\<rparr>"
  by (simp add: dictionary_word_outputs_def Let_def
      BackwardReferenceScore_def example_externals_def bit_length_9)

text \<open>
  Claim C8. The key \<open>Hash<14>(p) << 1\<close> of the source is the key \<open>Hash<15>(p) & ~1\<close> of the
  specification. Let \<open>k\<close> be that key at the current position. The dictionary part of the
  quick hasher examines the entry \<open>k\<close> of \<open>kStaticDictionaryHash\<close> and no other: two tables
  that agree at \<open>k\<close> give the same result; and when the part is entered (\<open>kUseDictionary\<close>,
  no match found yet, the quota of lookups not used up), an entry 0 at \<open>k\<close> makes it return
  false after one lookup, and an entry at \<open>k\<close> whose word matches makes it return true with
  that word. The dictionary part of the block hasher examines the entries \<open>k\<close> and \<open>k | 1\<close>
  and no other: two tables that agree at both give the same result; and when the part is
  entered, two entries 0 leave no match after two lookups, a matching word at \<open>k\<close> (with 0
  at \<open>k | 1\<close>) is reported, and a matching word at \<open>k | 1\<close> (with 0 at \<open>k\<close>) is reported.
\<close>

theorem static_dictionary_key_and_probes:
  "push_bit 1 (Hash 14 x) = spec_dictionary_key x
   \<and> (let p = ptr_add data (unat cur_ix AND ring_buffer_mask);
          k = unat (spec_dictionary_key p);
          k1 = unat (spec_dictionary_key p OR 1);
          table = kStaticDictionaryHash ext;
          quick_quota = (quick_num_dict_lookups q div 2 ^ 7 \<le> quick_num_dict_matches q);
          quota = (num_dict_lookups h div 2 ^ 7 \<le> num_dict_matches h)
      in (t k = table k \<longrightarrow>
            HashLongestMatchQuickly_dictionary (ext\<lparr>kStaticDictionaryHash := t\<rparr>) kUseDictionary
              data ring_buffer_mask cur_ix max_length max_backward st q =
            HashLongestMatchQuickly_dictionary ext kUseDictionary data ring_buffer_mask cur_ix
              max_length max_backward st q)
       \<and> (kUseDictionary \<and> \<not> match_found st \<and> quick_quota \<and> table k = 0 \<longrightarrow>
            HashLongestMatchQuickly_dictionary ext kUseDictionary data ring_buffer_mask cur_ix
              max_length max_backward st q =
            (False, outputs_of st, q\<lparr>quick_num_dict_lookups := quick_num_dict_lookups q + 1\<rparr>))
       \<and> (kUseDictionary \<and> \<not> match_found st \<and> quick_quota \<and>
          dictionary_word_matches ext p max_length max_backward (best_score st) (table k) \<longrightarrow>
            HashLongestMatchQuickly_dictionary ext kUseDictionary data ring_buffer_mask cur_ix
              max_length max_backward st q =
            (True, dictionary_word_outputs ext max_backward (table k),
             q\<lparr>quick_num_dict_lookups := quick_num_dict_lookups q + 1,
               quick_num_dict_matches := quick_num_dict_matches q + 1\<rparr>))
       \<and> (t k = table k \<and> t k1 = table k1 \<longrightarrow>
            HashLongestMatch_dictionary (ext\<lparr>kStaticDictionaryHash := t\<rparr>) data ring_buffer_mask
              cur_ix max_length max_backward (bst, h) =
            HashLongestMatch_dictionary ext data ring_buffer_mask cur_ix max_length max_backward
              (bst, h))
       \<and> (\<not> match_found bst \<and> quota \<and> table k = 0 \<and> table k1 = 0 \<longrightarrow>
            HashLongestMatch_dictionary ext data ring_buffer_mask cur_ix max_length max_backward
              (bst, h) =
            (bst, h\<lparr>num_dict_lookups := num_dict_lookups h + 2\<rparr>))
       \<and> (\<not> match_found bst \<and> quota \<and>
          dictionary_word_matches ext p max_length max_backward (best_score bst) (table k) \<and>
          table k1 = 0 \<longrightarrow>
            match_found (fst (HashLongestMatch_dictionary ext data ring_buffer_mask cur_ix
                                max_length max_backward (bst, h))) \<and>
            outputs_of (fst (HashLongestMatch_dictionary ext data ring_buffer_mask cur_ix
                               max_length max_backward (bst, h))) =
              dictionary_word_outputs ext max_backward (table k))
       \<and> (\<not> match_found bst \<and> quota \<and> table k = 0 \<and>
          dictionary_word_matches ext p max_length max_backward (best_score bst) (table k1) \<longrightarrow>
            match_found (fst (HashLongestMatch_dictionary ext data ring_buffer_mask cur_ix
                                max_length max_backward (bst, h))) \<and>
            outputs_of (fst (HashLongestMatch_dictionary ext data ring_buffer_mask cur_ix
                               max_length max_backward (bst, h))) =
              dictionary_word_outputs ext max_backward (table k1)))"
  unfolding Let_def
proof (intro conjI impI; (elim conjE)?)
  show "push_bit 1 (Hash 14 x) = spec_dictionary_key x" by (rule dictionary_key_spec)
qed (simp_all add: quick_dictionary_table quick_dictionary_miss quick_dictionary_hit
    block_dictionary_table block_dictionary_miss block_dictionary_hit_first
    block_dictionary_hit_second)

theorem static_dictionary_key_and_probes_witness:
  "HashLongestMatchQuickly_dictionary example_table_first True (\<lambda>_. 0) 0xFFFF 8 8 8
     example_quick_locals example_quick
   = (True,
      \<lparr>best_len_out = 4, best_len_code_out = 4, best_distance_out = 9, best_score_out = 18\<rparr>,
      example_quick\<lparr>quick_num_dict_lookups := 1, quick_num_dict_matches := 1\<rparr>)
   \<and> HashLongestMatchQuickly_dictionary example_table_second True (\<lambda>_. 0) 0xFFFF 8 8 8
     example_quick_locals example_quick
   = (False, outputs_of example_quick_locals, example_quick\<lparr>quick_num_dict_lookups := 1\<rparr>)
   \<and> match_found (fst (HashLongestMatch_dictionary example_table_first (\<lambda>_. 0) 0xFFFF 8 8 8
                         (example_locals, example_block)))
   \<and> outputs_of (fst (HashLongestMatch_dictionary example_table_first (\<lambda>_. 0) 0xFFFF 8 8 8
                         (example_locals, example_block)))
     = \<lparr>best_len_out = 4, best_len_code_out = 4, best_distance_out = 9, best_score_out = 18\<rparr>
   \<and> match_found (fst (HashLongestMatch_dictionary example_table_second (\<lambda>_. 0) 0xFFFF 8 8 8
                         (example_locals, example_block)))
   \<and> outputs_of (fst (HashLongestMatch_dictionary example_table_second (\<lambda>_. 0) 0xFFFF 8 8 8
                         (example_locals, example_block)))
     = \<lparr>best_len_out = 4, best_len_code_out = 4, best_distance_out = 9, best_score_out = 18\<rparr>
   \<and> HashLongestMatchQuickly_dictionary
       (example_table_first\<lparr>kStaticDictionaryHash := (\<lambda>i. if i = 0 then 4 else 7)\<rparr>) True
       (\<lambda>_. 0) 0xFFFF 8 8 8 example_quick_locals example_quick
     = HashLongestMatchQuickly_dictionary example_table_first True
       (\<lambda>_. 0) 0xFFFF 8 8 8 example_quick_locals example_quick
   \<and> HashLongestMatch_dictionary
       (example_table_second\<lparr>kStaticDictionaryHash := (\<lambda>i. if i = 0 then 0 else if i = 1 then 4 else 7)\<rparr>)
       (\<lambda>_. 0) 0xFFFF 8 8 8 (example_locals, example_block)
     = HashLongestMatch_dictionary example_table_second
       (\<lambda>_. 0) 0xFFFF 8 8 8 (example_locals, example_block)"
proof -
  have f: "kStaticDictionaryHash example_table_first 0 = 4"
    "kStaticDictionaryHash example_table_first (Suc 0) = 0"
    "kBrotliDictionary example_table_first = (\<lambda>_. 0)"
    "Log2Floor example_table_first = Log2Floor example_externals"
    and s: "kStaticDictionaryHash example_table_second 0 = 0"
    "kStaticDictionaryHash example_table_second 1 = 4"
    "kStaticDictionaryHash example_table_second (Suc 0) = 4"
    "kBrotliDictionary example_table_second = (\<lambda>_. 0)"
    "Log2Floor example_table_second = Log2Floor example_externals"
    by (simp_all add: example_table_first_def example_table_second_def example_externals_def)
  have st: "\<not> match_found example_quick_locals" "best_score example_quick_locals = 0"
    "\<not> match_found example_locals" "best_score example_locals = 0"
    "quick_num_dict_lookups example_quick div 2 ^ 7 \<le> quick_num_dict_matches example_quick"
    "num_dict_lookups example_block div 2 ^ 7 \<le> num_dict_matches example_block"
    "quick_num_dict_lookups example_quick = 0" "quick_num_dict_matches example_quick = 0"
    by (simp_all add: example_quick_locals_def example_locals_def example_quick_def
        example_block_def)
  note wf = ex_word_matches[OF f(1) f(3) f(4)]
  note ws = ex_word_matches[OF s(2) s(4) s(5)]
  note tf = static_dictionary_key_and_probes[where ext = example_table_first
      and data = "\<lambda>_. 0" and ring_buffer_mask = "0xFFFF" and cur_ix = 8 and max_length = 8
      and max_backward = 8 and kUseDictionary = True and st = example_quick_locals
      and q = example_quick and bst = example_locals and h = example_block
      and t = "\<lambda>i. if i = 0 then 4 else 7",
      unfolded Let_def ex_k ex_k1 st(2,4), THEN conjunct2]
  note ts = static_dictionary_key_and_probes[where ext = example_table_second
      and data = "\<lambda>_. 0" and ring_buffer_mask = "0xFFFF" and cur_ix = 8 and max_length = 8
      and max_backward = 8 and kUseDictionary = True and st = example_quick_locals
      and q = example_quick and bst = example_locals and h = example_block
      and t = "\<lambda>i. if i = 0 then 0 else if i = 1 then 4 else 7",
      unfolded Let_def ex_k ex_k1 st(2,4), THEN conjunct2]
  have a: "HashLongestMatchQuickly_dictionary example_table_first True (\<lambda>_. 0) 0xFFFF 8 8 8
     example_quick_locals example_quick
   = (True,
      \<lparr>best_len_out = 4, best_len_code_out = 4, best_distance_out = 9, best_score_out = 18\<rparr>,
      example_quick\<lparr>quick_num_dict_lookups := 1, quick_num_dict_matches := 1\<rparr>)"
    using tf[THEN conjunct2, THEN conjunct2, THEN conjunct1] wf[of 8] st(1,5)
    by (simp add: f ex_word_outputs st(7,8))
  have b: "HashLongestMatchQuickly_dictionary example_table_second True (\<lambda>_. 0) 0xFFFF 8 8 8
     example_quick_locals example_quick
   = (False, outputs_of example_quick_locals, example_quick\<lparr>quick_num_dict_lookups := 1\<rparr>)"
    using ts[THEN conjunct2, THEN conjunct1] st(1,5) by (simp add: s st(7))
  have c: "match_found (fst (HashLongestMatch_dictionary example_table_first (\<lambda>_. 0) 0xFFFF 8 8 8
                         (example_locals, example_block)))
   \<and> outputs_of (fst (HashLongestMatch_dictionary example_table_first (\<lambda>_. 0) 0xFFFF 8 8 8
                         (example_locals, example_block)))
     = \<lparr>best_len_out = 4, best_len_code_out = 4, best_distance_out = 9, best_score_out = 18\<rparr>"
    using tf[THEN conjunct2, THEN conjunct2, THEN conjunct2, THEN conjunct2, THEN conjunct2,
        THEN conjunct1] wf[of 8] st(3,6)
    by (simp add: f ex_word_outputs)
  have d: "match_found (fst (HashLongestMatch_dictionary example_table_second (\<lambda>_. 0) 0xFFFF 8 8 8
                         (example_locals, example_block)))
   \<and> outputs_of (fst (HashLongestMatch_dictionary example_table_second (\<lambda>_. 0) 0xFFFF 8 8 8
                         (example_locals, example_block)))
     = \<lparr>best_len_out = 4, best_len_code_out = 4, best_distance_out = 9, best_score_out = 18\<rparr>"
    using ts[THEN conjunct2, THEN conjunct2, THEN conjunct2, THEN conjunct2, THEN conjunct2,
        THEN conjunct2] ws[of 8] st(3,6)
    by (simp add: s ex_word_outputs)
  have e: "HashLongestMatchQuickly_dictionary
       (example_table_first\<lparr>kStaticDictionaryHash := (\<lambda>i. if i = 0 then 4 else 7)\<rparr>) True
       (\<lambda>_. 0) 0xFFFF 8 8 8 example_quick_locals example_quick
     = HashLongestMatchQuickly_dictionary example_table_first True
       (\<lambda>_. 0) 0xFFFF 8 8 8 example_quick_locals example_quick"
    using tf[THEN conjunct1] by (simp add: f)
  have g: "HashLongestMatch_dictionary
       (example_table_second\<lparr>kStaticDictionaryHash := (\<lambda>i. if i = 0 then 0 else if i = 1 then 4 else 7)\<rparr>)
       (\<lambda>_. 0) 0xFFFF 8 8 8 (example_locals, example_block)
     = HashLongestMatch_dictionary example_table_second
       (\<lambda>_. 0) 0xFFFF 8 8 8 (example_locals, example_block)"
    using ts[THEN conjunct2, THEN conjunct2, THEN conjunct2, THEN conjunct1] by (simp add: s)
  show ?thesis
    by (rule conjI[OF a conjI[OF b conjI[OF c[THEN conjunct1] conjI[OF c[THEN conjunct2]
          conjI[OF d[THEN conjunct1] conjI[OF d[THEN conjunct2] conjI[OF e g]]]]]]])
qed

section \<open>Properties of the binary tree matchfinder and of \<open>FindAllMatches\<close>\<close>

lemma splice_assigned:
  assumes "lt = L \<or> assigned_in V tab L" and "gt = G \<or> assigned_in V tab G"
    and "\<forall>k. cell_value (tab k) \<in> V"
  shows "assigned_in V (BT4_splice tab lt gt pair) L \<and> assigned_in V (BT4_splice tab lt gt pair) G"
proof -
  let ?v0 = "cell_value (tab pair)"
  let ?v1 = "cell_value ((tab(lt := Assigned ?v0)) (pair + 1))"
  have v0: "?v0 \<in> V" using assms(3) by blast
  then have v1: "?v1 \<in> V" using assms(3) by simp
  have "BT4_splice tab lt gt pair = (tab(lt := Assigned ?v0))(gt := Assigned ?v1)"
    by (simp add: BT4_splice_def read_child_def Let_def)
  then show ?thesis
    using assms(1,2) v0 v1 unfolding assigned_in_def by auto
qed

lemma extend_Done:
  assumes "BT4_extend wm data c r ml nl om bl rm st = Done ms b tab'"
    and "pending_inv L G V st"
  shows "assigned_in V tab' L \<and> assigned_in V tab' G"
proof -
  from assms(1) have "tab' = BT4_splice (tree st) (pending_lt_ptr st) (pending_gt_ptr st)
      (2 * unat (prev_ix st AND wm))"
    by (auto simp add: BT4_extend_def Let_def split: if_splits)
  moreover from assms(2) have "pending_lt_ptr st = L \<or> assigned_in V (tree st) L"
    "pending_gt_ptr st = G \<or> assigned_in V (tree st) G"
    "\<forall>k. cell_value (tree st k) \<in> V"
    by (simp_all add: pending_inv_def)
  ultimately show ?thesis using splice_assigned by simp
qed

lemma extend_Go:
  "BT4_extend wm data c r ml nl om bl rm st = Go st' \<Longrightarrow> pending_inv L G V st \<Longrightarrow>
   pending_inv L G V st'"
  by (auto simp add: BT4_extend_def Let_def pending_inv_def split: if_splits)

lemma turn_inv:
  assumes "pending_inv L G V st"
  shows "pending_inv L G V (BT4_turn wm data c r st)"
proof -
  let ?pair = "2 * unat (prev_ix st AND wm)"
  let ?lt = "ptr_add data (unat (prev_ix st AND r)) (unat (len st))
               < ptr_add data (unat (c AND r)) (unat (len st))"
  from assms have lt: "pending_lt_ptr st = L \<or> assigned_in V (tree st) L"
    and gt: "pending_gt_ptr st = G \<or> assigned_in V (tree st) G"
    and p: "prev_ix st \<in> V" and all: "\<And>k. cell_value (tree st k) \<in> V"
    by (simp_all add: pending_inv_def)
  show ?thesis
  proof (cases ?lt)
    case True
    let ?tab = "(tree st)(pending_lt_ptr st := Assigned (prev_ix st))"
    from True have st': "BT4_turn wm data c r st =
        st\<lparr>tree := ?tab, pending_lt_ptr := ?pair + 1, prev_ix := cell_value (?tab (?pair + 1)),
           best_lt_len := len st,
           len := (if best_gt_len st < len st then best_gt_len st else len st)\<rparr>"
      by (simp add: BT4_turn_def Let_def read_child_def)
    have tabV: "\<And>k. cell_value (?tab k) \<in> V"
      using p all by simp
    have "assigned_in V ?tab L" using lt p by (auto simp add: assigned_in_def)
    moreover have "pending_gt_ptr st = G \<or> assigned_in V ?tab G"
      using gt p by (auto simp add: assigned_in_def)
    ultimately show ?thesis
      unfolding st' pending_inv_def using tabV by simp
  next
    case False
    let ?tab = "(tree st)(pending_gt_ptr st := Assigned (prev_ix st))"
    from False have st': "BT4_turn wm data c r st =
        st\<lparr>tree := ?tab, pending_gt_ptr := ?pair, prev_ix := cell_value (?tab ?pair),
           best_gt_len := len st,
           len := (if best_lt_len st < len st then best_lt_len st else len st)\<rparr>"
      by (simp add: BT4_turn_def Let_def read_child_def)
    have tabV: "\<And>k. cell_value (?tab k) \<in> V"
      using p all by simp
    have "assigned_in V ?tab G" using gt p by (auto simp add: assigned_in_def)
    moreover have "pending_lt_ptr st = L \<or> assigned_in V ?tab L"
      using lt p by (auto simp add: assigned_in_def)
    ultimately show ?thesis
      unfolding st' pending_inv_def using tabV by simp
  qed
qed

lemma exit_assigned:
  assumes "pending_inv L G V st" and "s \<in> V"
  shows "assigned_in V (((tree st)(pending_lt_ptr st := Assigned s))(pending_gt_ptr st := Assigned s)) L
       \<and> assigned_in V (((tree st)(pending_lt_ptr st := Assigned s))(pending_gt_ptr st := Assigned s)) G"
  using assms by (auto simp add: pending_inv_def assigned_in_def)

lemma descend_assigned:
  "pending_inv L G V st \<Longrightarrow> - wm \<in> V \<Longrightarrow>
   assigned_in V (snd (snd (BT4_descend wm data c r ml nl om bl rm depth st))) L \<and>
   assigned_in V (snd (snd (BT4_descend wm data c r ml nl om bl rm depth st))) G"
proof (induction wm data c r ml nl om bl rm depth st rule: BT4_descend.induct)
  case (1 wm data c r ml nl om bl rm depth st)
  note eq = BT4_descend.simps[of wm data c r ml nl om bl rm depth st]
  show ?case
  proof (cases "BT4_extend wm data c r ml nl om bl rm st")
    case (Done ms1 b1 tab1)
    then have "snd (snd (BT4_descend wm data c r ml nl om bl rm depth st)) = tab1"
      by (simp add: eq)
    with extend_Done[OF Done "1.prems"(1)] show ?thesis by simp
  next
    case (Go st1)
    note inv1 = extend_Go[OF Go "1.prems"(1)]
    let ?st2 = "BT4_turn wm data c r st1"
    note inv2 = turn_inv[OF inv1, of wm data c r]
    show ?thesis
    proof (cases "c - prev_ix ?st2 > wm - 15 \<or> depth - 1 = 0")
      case True
      with Go have "snd (snd (BT4_descend wm data c r ml nl om bl rm depth st)) =
          ((tree ?st2)(pending_lt_ptr ?st2 := Assigned (- wm)))
            (pending_gt_ptr ?st2 := Assigned (- wm))"
        by (auto simp add: eq Let_def)
      with exit_assigned[OF inv2 "1.prems"(2)] show ?thesis by (simp only:)
    next
      case False
      with Go have "BT4_descend wm data c r ml nl om bl rm depth st =
          BT4_descend wm data c r ml nl om bl rm (depth - 1) ?st2"
        by (simp add: eq Let_def)
      moreover from False have "\<not> wm - 15 < c - prev_ix ?st2" "depth - 1 \<noteq> 0" by simp_all
      note "1.IH"[OF Go refl this inv2 "1.prems"(2)]
      ultimately show ?thesis by simp
    qed
  qed
qed

lemma BT4_Hash_less: "unat (BT4_Hash x k) < 2 ^ k"
proof (cases "k \<le> 32")
  case True
  have "unat (x * 0x1e35a7bd) < 2 ^ 32"
    using unsigned_less[of "x * 0x1e35a7bd"] by simp
  also have "(2::nat) ^ 32 = 2 ^ (32 - k) * 2 ^ k"
    using True by (simp flip: power_add)
  finally have "unat (x * 0x1e35a7bd) div 2 ^ (32 - k) < 2 ^ k"
    by (simp add: less_mult_imp_div_less mult.commute)
  moreover have "unat (drop_bit (32 - k) (x * 0x1e35a7bd)) = drop_bit (32 - k) (unat (x * 0x1e35a7bd))"
    by (rule unat_drop_bit_eq)
  moreover have "drop_bit (32 - k) (unat (x * 0x1e35a7bd)) = unat (x * 0x1e35a7bd) div 2 ^ (32 - k)"
    by (rule drop_bit_eq_div)
  ultimately show ?thesis unfolding BT4_Hash_def by (simp only:)
next
  case False
  have "unat (BT4_Hash x k) < 2 ^ 32"
    using unsigned_less[of "BT4_Hash x k"] by simp
  also have "(2::nat) ^ 32 < 2 ^ k"
    by (rule power_strict_increasing) (use False in simp_all)
  finally show ?thesis .
qed

text \<open>
  Claim C9. When \<open>AdvanceOneByte\<close> is called with \<open>max_length < nice_length_\<close>, it returns the
  pointer \<open>matches\<close> it was given, with the array, \<open>*best_len_ret\<close>, \<open>hash_tabs_\<close> and
  \<open>child_tab_\<close> as they were: no match is recorded and no position is inserted.
\<close>

theorem BT4_AdvanceOneByte_skips_tail:
  "max_length < nice_length m \<Longrightarrow>
   BT4_AdvanceOneByte kHash2Log kHash3Log kHash4Log data cur_ix ring_buffer_mask max_length
     matches best_len_ret record_matches m = (matches, best_len_ret, m)"
  by (simp add: BT4_AdvanceOneByte_def Let_def)

lemma hash_buckets_root:
  "BT4_hash_buckets k2 k3 k4 data c r matches rm m = (ms0, rt, tabs) \<Longrightarrow>
   rt \<in> range (hash_tabs m)"
proof -
  let ?seq4 = "BROTLI_UNALIGNED_LOAD32 (ptr_add data (unat (c AND r)))"
  let ?i2 = "kHash2Offset + unat (BT4_Hash (BROTLI_LOADED_U32_TO_U16 ?seq4) k2)"
  let ?i3 = "kHash3Offset k2 + unat (BT4_Hash (BROTLI_LOADED_U32_TO_U24 ?seq4) k3)"
  let ?i4 = "kHash4Offset k2 k3 + unat (BT4_Hash ?seq4 k4)"
  assume a: "BT4_hash_buckets k2 k3 k4 data c r matches rm m = (ms0, rt, tabs)"
  have "?i2 < ?i3" using BT4_Hash_less[of "BROTLI_LOADED_U32_TO_U16 ?seq4" k2]
    by (simp add: kHash3Offset_def kHash2Offset_def)
  moreover have "?i3 < ?i4" using BT4_Hash_less[of "BROTLI_LOADED_U32_TO_U24 ?seq4" k3]
    by (simp add: kHash4Offset_def kHash3Offset_def kHash2Offset_def)
  ultimately have ne: "?i4 \<noteq> ?i2" "?i4 \<noteq> ?i3" by simp_all
  from a ne have "rt = hash_tabs m ?i4"
    by (simp add: BT4_hash_buckets_def Let_def)
  then show ?thesis by simp
qed

text \<open>
  Claim C6. When \<open>AdvanceOneByte\<close> runs with \<open>max_length >= nice_length_\<close>, then on its return
  both child slots of the new node, \<open>child_tab_[2 * (cur_ix & window_mask_)]\<close> and the next
  cell, have been assigned, each either the sentinel \<open>-window_mask_\<close> or a value that the
  tables held before the call. This holds for every state of the matchfinder, whatever the
  two tables hold and whether or not the two slots had been assigned before; the function
  returns on every input.
\<close>

theorem BT4_AdvanceOneByte_assigns_children:
  assumes "\<not> max_length < nice_length m"
  shows "\<exists>v w.
     child_tab (snd (snd (BT4_AdvanceOneByte kHash2Log kHash3Log kHash4Log data cur_ix
                            ring_buffer_mask max_length matches best_len_ret record_matches m)))
       (2 * unat (cur_ix AND window_mask m)) = Assigned v
     \<and> child_tab (snd (snd (BT4_AdvanceOneByte kHash2Log kHash3Log kHash4Log data cur_ix
                            ring_buffer_mask max_length matches best_len_ret record_matches m)))
       (2 * unat (cur_ix AND window_mask m) + 1) = Assigned w
     \<and> v \<in> insert (- window_mask m) (previous_positions m)
     \<and> w \<in> insert (- window_mask m) (previous_positions m)"
proof -
  let ?V = "insert (- window_mask m) (previous_positions m)"
  let ?L = "2 * unat (cur_ix AND window_mask m)"
  let ?m' = "snd (snd (BT4_AdvanceOneByte kHash2Log kHash3Log kHash4Log data cur_ix
                            ring_buffer_mask max_length matches best_len_ret record_matches m))"
  obtain ms0 rt tabs where hb: "BT4_hash_buckets kHash2Log kHash3Log kHash4Log data cur_ix
      ring_buffer_mask matches record_matches m = (ms0, rt, tabs)"
    by (cases "BT4_hash_buckets kHash2Log kHash3Log kHash4Log data cur_ix
      ring_buffer_mask matches record_matches m") auto
  note rt = hash_buckets_root[OF hb]
  have "assigned_in ?V (child_tab ?m') ?L \<and> assigned_in ?V (child_tab ?m') (?L + 1)"
  proof (cases "cur_ix - rt > window_mask m - 15")
    case True
    with assms hb have "child_tab ?m' =
        ((child_tab m)(?L := Assigned (- window_mask m)))(?L + 1 := Assigned (- window_mask m))"
      by (simp add: BT4_AdvanceOneByte_def Let_def)
    then show ?thesis by (simp add: assigned_in_def)
  next
    case False
    let ?st0 = "\<lparr>prev_ix = rt, pending_lt_ptr = ?L, pending_gt_ptr = ?L + 1,
          best_lt_len = 0, best_gt_len = 0, len = 0, bt4_best_len = 3,
          bt4_matches = ms0, tree = child_tab m\<rparr>"
    have inv: "pending_inv ?L (?L + 1) ?V ?st0"
      using rt by (auto simp add: pending_inv_def previous_positions_def)
    from assms hb False have "child_tab ?m' =
        snd (snd (BT4_descend (window_mask m) data cur_ix ring_buffer_mask max_length
                    (min (nice_length m) max_length) (fst matches) best_len_ret record_matches
                    (max_search_depth m) ?st0))"
      by (simp add: BT4_AdvanceOneByte_def Let_def split: prod.splits)
    with descend_assigned[OF inv, of "window_mask m"] show ?thesis by simp
  qed
  then show ?thesis by (auto simp add: assigned_in_def)
qed

lemma ex_hash_buckets:
  "BT4_hash_buckets 10 15 17 example_data 9 0xFFFF example_matches True example_bt4 =
     (push_match (BackwardMatch_dist_len 1 3)
        (push_match (BackwardMatch_dist_len 1 2) example_matches),
      8, (\<lambda>_. 8)(0 := 9, 1024 := 9, 33792 := 9))"
  by (simp add: BT4_hash_buckets_def Let_def example_bt4_def example_data_def ptr_add_def
      BROTLI_UNALIGNED_LOAD32_def BROTLI_UNALIGNED_LOAD16_def BROTLI_LOADED_U32_TO_U24_def
      BROTLI_LOADED_U32_TO_U16_def BT4_Hash_def kHash2Offset_def kHash3Offset_def
      kHash4Offset_def)

lemma ex_descend:
  "BT4_descend 0xFFFF example_data 9 0xFFFF 8 8 0 0 True 32
     \<lparr>prev_ix = 8, pending_lt_ptr = 18, pending_gt_ptr = 19, best_lt_len = 0, best_gt_len = 0,
      len = 0, bt4_best_len = 3,
      bt4_matches = push_match (BackwardMatch_dist_len 1 3)
        (push_match (BackwardMatch_dist_len 1 2) example_matches),
      tree = (\<lambda>_. Unassigned 0)(16 := Assigned (- 0xFFFF), 17 := Assigned (- 0xFFFF))\<rparr>
   = (push_match (BackwardMatch_dist_len 1 7)
           (push_match (BackwardMatch_dist_len 1 3)
             (push_match (BackwardMatch_dist_len 1 2) example_matches)),
          7,
          (\<lambda>_. Unassigned 0)(16 := Assigned (- 0xFFFF), 18 := Assigned 8,
             17 := Assigned (- 0xFFFF), 19 := Assigned (- 0xFFFF)))"
  by (simp add: BT4_descend.simps BT4_extend_def BT4_turn_def read_child_def Let_def
      example_data_def ptr_add_def FML_numeral push_match_def example_matches_def)

lemma ex_advance:
  "BT4_AdvanceOneByte 10 15 17 example_data 9 0xFFFF 8 example_matches 0 True example_bt4
   = (push_match (BackwardMatch_dist_len 1 7)
           (push_match (BackwardMatch_dist_len 1 3)
             (push_match (BackwardMatch_dist_len 1 2) example_matches)),
          7,
          example_bt4\<lparr>hash_tabs := (\<lambda>_. 8)(0 := 9, 1024 := 9, 33792 := 9),
            child_tab :=
              (\<lambda>_. Unassigned 0)(16 := Assigned (- 0xFFFF), 18 := Assigned 8,
                 17 := Assigned (- 0xFFFF), 19 := Assigned (- 0xFFFF))\<rparr>)"
proof -
  have "fst example_matches = 0" by (simp add: example_matches_def)
  then show ?thesis
    by (simp add: BT4_AdvanceOneByte_def ex_hash_buckets Let_def) (simp add: example_bt4_def ex_descend)
qed

lemma ex_nice: "\<not> (8 :: u32) < nice_length example_bt4"
  by (simp add: example_bt4_def)

lemmas bt4_eval =
  BT4_AdvanceOneByte_def BT4_hash_buckets_def Let_def example_bt4_def example_bt4_node_def
  example_bt4_shallow_def example_data_def
  ptr_add_def BROTLI_UNALIGNED_LOAD32_def BROTLI_UNALIGNED_LOAD16_def
  BROTLI_LOADED_U32_TO_U24_def BROTLI_LOADED_U32_TO_U16_def BT4_Hash_def kHash2Offset_def
  kHash3Offset_def kHash4Offset_def BT4_descend.simps BT4_extend_def BT4_turn_def
  BT4_splice_def read_child_def FML_numeral push_match_def example_matches_def BT4_Reset_def

text \<open>
  \<open>AdvanceOneByte\<close> at position 9 on the five ways out of the function after the test of
  \<open>max_length\<close>: the loop ends at a child out of the window; the loop ends with
  \<open>depth_remaining\<close>; a match of \<open>nice_len\<close> bytes ends it, with and without
  \<open>record_matches\<close>; the root is out of the window and the loop is not entered.
\<close>

lemma ex_assign_loop:
  "child_tab (snd (snd (BT4_AdvanceOneByte 10 15 17 example_data 9 0xFFFF 8 example_matches 0
                          True example_bt4))) 18 = Assigned 8
   \<and> child_tab (snd (snd (BT4_AdvanceOneByte 10 15 17 example_data 9 0xFFFF 8 example_matches 0
                          True example_bt4))) 19 = Assigned (- 0xFFFF)"
  by (simp add: bt4_eval)

lemma ex_assign_depth:
  "child_tab (snd (snd (BT4_AdvanceOneByte 10 15 17 example_data 9 0xFFFF 8 example_matches 0
                          True example_bt4_shallow))) 18 = Assigned 8
   \<and> child_tab (snd (snd (BT4_AdvanceOneByte 10 15 17 example_data 9 0xFFFF 8 example_matches 0
                          True example_bt4_shallow))) 19 = Assigned (- 0xFFFF)"
  by (simp add: bt4_eval)

lemma ex_assign_nice:
  "child_tab (snd (snd (BT4_AdvanceOneByte 10 15 17 (\<lambda>_. 0) 9 0xFFFF 8 example_matches 0
                          True example_bt4_node))) 18 = Assigned 3
   \<and> child_tab (snd (snd (BT4_AdvanceOneByte 10 15 17 (\<lambda>_. 0) 9 0xFFFF 8 example_matches 0
                          True example_bt4_node))) 19 = Assigned 5"
  by (simp add: bt4_eval)

lemma ex_assign_skip:
  "child_tab (snd (snd (BT4_AdvanceOneByte 10 15 17 (\<lambda>_. 0) 9 0xFFFF 8 example_matches 0
                          False example_bt4_node))) 18 = Assigned 3
   \<and> child_tab (snd (snd (BT4_AdvanceOneByte 10 15 17 (\<lambda>_. 0) 9 0xFFFF 8 example_matches 0
                          False example_bt4_node))) 19 = Assigned 5"
  by (simp add: bt4_eval)

lemma ex_assign_reset:
  "child_tab (snd (snd (BT4_AdvanceOneByte 10 15 17 (\<lambda>_. 0) 9 0xFFFF 8 example_matches 0
                          True (BT4_Reset example_bt4)))) 18 = Assigned (- 0xFFFF)
   \<and> child_tab (snd (snd (BT4_AdvanceOneByte 10 15 17 (\<lambda>_. 0) 9 0xFFFF 8 example_matches 0
                          True (BT4_Reset example_bt4)))) 19 = Assigned (- 0xFFFF)"
  by (simp add: bt4_eval)

lemma ex_nice_node: "\<not> (8 :: u32) < nice_length example_bt4_node"
  by (simp add: example_bt4_node_def example_bt4_def)

lemma ex_nice_shallow: "\<not> (8 :: u32) < nice_length example_bt4_shallow"
  by (simp add: example_bt4_shallow_def example_bt4_node_def example_bt4_def)

lemma ex_nice_reset: "\<not> (8 :: u32) < nice_length (BT4_Reset example_bt4)"
  by (simp add: BT4_Reset_def example_bt4_def)

lemma ex_unassigned:
  "child_tab example_bt4 18 = Unassigned 0 \<and> child_tab example_bt4 19 = Unassigned 0
   \<and> child_tab example_bt4_shallow 18 = Unassigned 0
   \<and> child_tab example_bt4_shallow 19 = Unassigned 0
   \<and> child_tab example_bt4_node 18 = Unassigned 0 \<and> child_tab example_bt4_node 19 = Unassigned 0
   \<and> child_tab (BT4_Reset example_bt4) 18 = Unassigned 0
   \<and> child_tab (BT4_Reset example_bt4) 19 = Unassigned 0"
  by (simp add: example_bt4_shallow_def example_bt4_node_def example_bt4_def BT4_Reset_def)

theorem BT4_AdvanceOneByte_assigns_children_witness:
  "(\<not> (8 :: u32) < nice_length example_bt4
   \<and> \<not> (8 :: u32) < nice_length example_bt4_shallow
   \<and> \<not> (8 :: u32) < nice_length example_bt4_node
   \<and> \<not> (8 :: u32) < nice_length (BT4_Reset example_bt4))
   \<and> (child_tab example_bt4 18 = Unassigned 0 \<and> child_tab example_bt4 19 = Unassigned 0
   \<and> child_tab example_bt4_shallow 18 = Unassigned 0
   \<and> child_tab example_bt4_shallow 19 = Unassigned 0
   \<and> child_tab example_bt4_node 18 = Unassigned 0 \<and> child_tab example_bt4_node 19 = Unassigned 0
   \<and> child_tab (BT4_Reset example_bt4) 18 = Unassigned 0
   \<and> child_tab (BT4_Reset example_bt4) 19 = Unassigned 0)
   \<and> (child_tab (snd (snd (BT4_AdvanceOneByte 10 15 17 example_data 9 0xFFFF 8 example_matches 0
                          True example_bt4))) 18 = Assigned 8
   \<and> child_tab (snd (snd (BT4_AdvanceOneByte 10 15 17 example_data 9 0xFFFF 8 example_matches 0
                          True example_bt4))) 19 = Assigned (- 0xFFFF))
   \<and> (child_tab (snd (snd (BT4_AdvanceOneByte 10 15 17 example_data 9 0xFFFF 8 example_matches 0
                          True example_bt4_shallow))) 18 = Assigned 8
   \<and> child_tab (snd (snd (BT4_AdvanceOneByte 10 15 17 example_data 9 0xFFFF 8 example_matches 0
                          True example_bt4_shallow))) 19 = Assigned (- 0xFFFF))
   \<and> (child_tab (snd (snd (BT4_AdvanceOneByte 10 15 17 (\<lambda>_. 0) 9 0xFFFF 8 example_matches 0
                          True example_bt4_node))) 18 = Assigned 3
   \<and> child_tab (snd (snd (BT4_AdvanceOneByte 10 15 17 (\<lambda>_. 0) 9 0xFFFF 8 example_matches 0
                          True example_bt4_node))) 19 = Assigned 5)
   \<and> (child_tab (snd (snd (BT4_AdvanceOneByte 10 15 17 (\<lambda>_. 0) 9 0xFFFF 8 example_matches 0
                          False example_bt4_node))) 18 = Assigned 3
   \<and> child_tab (snd (snd (BT4_AdvanceOneByte 10 15 17 (\<lambda>_. 0) 9 0xFFFF 8 example_matches 0
                          False example_bt4_node))) 19 = Assigned 5)
   \<and> (child_tab (snd (snd (BT4_AdvanceOneByte 10 15 17 (\<lambda>_. 0) 9 0xFFFF 8 example_matches 0
                          True (BT4_Reset example_bt4)))) 18 = Assigned (- 0xFFFF)
   \<and> child_tab (snd (snd (BT4_AdvanceOneByte 10 15 17 (\<lambda>_. 0) 9 0xFFFF 8 example_matches 0
                          True (BT4_Reset example_bt4)))) 19 = Assigned (- 0xFFFF))
   \<and> (\<exists>v w.
        child_tab (snd (snd (BT4_AdvanceOneByte 10 15 17 example_data 9 0xFFFF 8 example_matches 0
                               True example_bt4)))
          (2 * unat ((9 :: u32) AND window_mask example_bt4)) = Assigned v
        \<and> child_tab (snd (snd (BT4_AdvanceOneByte 10 15 17 example_data 9 0xFFFF 8 example_matches 0
                               True example_bt4)))
          (2 * unat ((9 :: u32) AND window_mask example_bt4) + 1) = Assigned w
        \<and> v \<in> insert (- window_mask example_bt4) (previous_positions example_bt4)
        \<and> w \<in> insert (- window_mask example_bt4) (previous_positions example_bt4))
   \<and> (\<exists>v w.
        child_tab (snd (snd (BT4_AdvanceOneByte 10 15 17 example_data 9 0xFFFF 8 example_matches 0
                               True example_bt4_shallow)))
          (2 * unat ((9 :: u32) AND window_mask example_bt4_shallow)) = Assigned v
        \<and> child_tab (snd (snd (BT4_AdvanceOneByte 10 15 17 example_data 9 0xFFFF 8 example_matches 0
                               True example_bt4_shallow)))
          (2 * unat ((9 :: u32) AND window_mask example_bt4_shallow) + 1) = Assigned w
        \<and> v \<in> insert (- window_mask example_bt4_shallow) (previous_positions example_bt4_shallow)
        \<and> w \<in> insert (- window_mask example_bt4_shallow) (previous_positions example_bt4_shallow))
   \<and> (\<exists>v w.
        child_tab (snd (snd (BT4_AdvanceOneByte 10 15 17 (\<lambda>_. 0) 9 0xFFFF 8 example_matches 0
                               True example_bt4_node)))
          (2 * unat ((9 :: u32) AND window_mask example_bt4_node)) = Assigned v
        \<and> child_tab (snd (snd (BT4_AdvanceOneByte 10 15 17 (\<lambda>_. 0) 9 0xFFFF 8 example_matches 0
                               True example_bt4_node)))
          (2 * unat ((9 :: u32) AND window_mask example_bt4_node) + 1) = Assigned w
        \<and> v \<in> insert (- window_mask example_bt4_node) (previous_positions example_bt4_node)
        \<and> w \<in> insert (- window_mask example_bt4_node) (previous_positions example_bt4_node))
   \<and> (\<exists>v w.
        child_tab (snd (snd (BT4_AdvanceOneByte 10 15 17 (\<lambda>_. 0) 9 0xFFFF 8 example_matches 0
                               False example_bt4_node)))
          (2 * unat ((9 :: u32) AND window_mask example_bt4_node)) = Assigned v
        \<and> child_tab (snd (snd (BT4_AdvanceOneByte 10 15 17 (\<lambda>_. 0) 9 0xFFFF 8 example_matches 0
                               False example_bt4_node)))
          (2 * unat ((9 :: u32) AND window_mask example_bt4_node) + 1) = Assigned w
        \<and> v \<in> insert (- window_mask example_bt4_node) (previous_positions example_bt4_node)
        \<and> w \<in> insert (- window_mask example_bt4_node) (previous_positions example_bt4_node))
   \<and> (\<exists>v w.
        child_tab (snd (snd (BT4_AdvanceOneByte 10 15 17 (\<lambda>_. 0) 9 0xFFFF 8 example_matches 0
                               True (BT4_Reset example_bt4))))
          (2 * unat ((9 :: u32) AND window_mask (BT4_Reset example_bt4))) = Assigned v
        \<and> child_tab (snd (snd (BT4_AdvanceOneByte 10 15 17 (\<lambda>_. 0) 9 0xFFFF 8 example_matches 0
                               True (BT4_Reset example_bt4))))
          (2 * unat ((9 :: u32) AND window_mask (BT4_Reset example_bt4)) + 1) = Assigned w
        \<and> v \<in> insert (- window_mask (BT4_Reset example_bt4)) (previous_positions (BT4_Reset example_bt4))
        \<and> w \<in> insert (- window_mask (BT4_Reset example_bt4)) (previous_positions (BT4_Reset example_bt4)))"
proof -
  have h: "\<not> (8 :: u32) < nice_length example_bt4
   \<and> \<not> (8 :: u32) < nice_length example_bt4_shallow
   \<and> \<not> (8 :: u32) < nice_length example_bt4_node
   \<and> \<not> (8 :: u32) < nice_length (BT4_Reset example_bt4)"
    by (rule conjI[OF ex_nice conjI[OF ex_nice_shallow conjI[OF ex_nice_node ex_nice_reset]]])
  note t_loop = BT4_AdvanceOneByte_assigns_children[OF ex_nice, of 10 15 17 "example_data" 9 "0xFFFF"
      example_matches 0 True]
  note t_depth = BT4_AdvanceOneByte_assigns_children[OF ex_nice_shallow, of 10 15 17 "example_data" 9 "0xFFFF"
      example_matches 0 True]
  note t_nice = BT4_AdvanceOneByte_assigns_children[OF ex_nice_node, of 10 15 17 "\<lambda>_. 0" 9 "0xFFFF"
      example_matches 0 True]
  note t_skip = BT4_AdvanceOneByte_assigns_children[OF ex_nice_node, of 10 15 17 "\<lambda>_. 0" 9 "0xFFFF"
      example_matches 0 False]
  note t_reset = BT4_AdvanceOneByte_assigns_children[OF ex_nice_reset, of 10 15 17 "\<lambda>_. 0" 9 "0xFFFF"
      example_matches 0 True]
  show ?thesis
    by (rule conjI[OF h conjI[OF ex_unassigned conjI[OF ex_assign_loop conjI[OF ex_assign_depth conjI[OF ex_assign_nice conjI[OF ex_assign_skip conjI[OF ex_assign_reset conjI[OF t_loop conjI[OF t_depth conjI[OF t_nice conjI[OF t_skip t_reset]]]]]]]]]]])
qed

theorem BT4_AdvanceOneByte_skips_tail_witness:
  "(7 :: u32) < nice_length example_bt4
   \<and> BT4_AdvanceOneByte 10 15 17 example_data 9 0xFFFF 7 example_matches 0 True example_bt4
     = (example_matches, 0, example_bt4)"
proof -
  have lt: "(7 :: u32) < nice_length example_bt4" by (simp add: example_bt4_def)
  from BT4_AdvanceOneByte_skips_tail[OF lt] lt show ?thesis by blast
qed

lemma block_FindAllMatches_num:
  "HashLongestMatch_FindAllMatches ext B K data rbm c ml mb n matches h =
     (n + fst (HashLongestMatch_FindAllMatches ext B K data rbm c ml mb 0 matches h),
      snd (HashLongestMatch_FindAllMatches ext B K data rbm c ml mb 0 matches h))"
  by (simp add: HashLongestMatch_FindAllMatches_def Let_def)

text \<open>
  Claim C10. \<open>FindAllMatches\<close> of the block hasher adds to the value of \<open>*num_matches\<close> on
  entry the number of matches between \<open>orig_matches\<close> and the pointer \<open>matches\<close> at the end,
  and the array it leaves does not depend on that value. \<open>FindAllMatches\<close> of the binary
  tree matchfinder returns the same for every value of \<open>*num_matches\<close> on entry, and the
  value it leaves there is the number of matches of this call.
\<close>

theorem FindAllMatches_num_matches:
  "fst (HashLongestMatch_FindAllMatches ext kBucketBits kBlockBits data ring_buffer_mask cur_ix
          max_length max_backward num_matches matches h)
     = num_matches +
       (int (fst (snd (HashLongestMatch_FindAllMatches ext kBucketBits kBlockBits data
                         ring_buffer_mask cur_ix max_length max_backward num_matches matches h)))
        - int (fst matches))
   \<and> snd (HashLongestMatch_FindAllMatches ext kBucketBits kBlockBits data ring_buffer_mask cur_ix
          max_length max_backward num_matches matches h)
     = snd (HashLongestMatch_FindAllMatches ext kBucketBits kBlockBits data ring_buffer_mask cur_ix
          max_length max_backward num_matches' matches h)
   \<and> BT4_FindAllMatches ext kHash2Log kHash3Log kHash4Log data cur_ix bt4_ring_buffer_mask
       max_length num_matches matches best_len_uninit m
     = BT4_FindAllMatches ext kHash2Log kHash3Log kHash4Log data cur_ix bt4_ring_buffer_mask
       max_length num_matches' matches best_len_uninit m
   \<and> (case BT4_FindAllMatches ext kHash2Log kHash3Log kHash4Log data cur_ix
            bt4_ring_buffer_mask max_length num_matches matches best_len_uninit m of
        (n, matches', m') \<Rightarrow> n = int (fst matches') - int (fst matches))"
  by (auto simp add: HashLongestMatch_FindAllMatches_def BT4_FindAllMatches_def Let_def
      split: prod.splits)

lemma ex_back_scan:
  "HashLongestMatch_scans 14 4 (\<lambda>_. 0xAA) 0xFFFF 8 8 8 example_matches example_block
   = (8, push_match (BackwardMatch_dist_len 1 8) example_matches)"
  by (simp add: HashLongestMatch_scans_def HashLongestMatch_back_scan.simps
      HashLongestMatch_all_bucket_loop.simps HashLongestMatch_accept_def example_block_def
      example_matches_def kMaxZopfliLen_def kBlockSize_def ptr_add_def FML_same Let_def)

lemma ex_block_FindAllMatches:
  "HashLongestMatch_FindAllMatches example_externals 14 4 (\<lambda>_. 0xAA) 0xFFFF 8 8 8 5
     example_matches example_block
   = (6, push_match (BackwardMatch_dist_len 1 8) example_matches)"
  by (simp add: HashLongestMatch_FindAllMatches_def ex_back_scan Let_def)
    (simp add: example_externals_def example_matches_def push_match_def)

lemma ex_bt4_FindAllMatches:
  "BT4_FindAllMatches example_externals 10 15 17 example_data 9 0xFFFF 8 5 example_matches 0
     example_bt4
   = (3,
          push_match (BackwardMatch_dist_len 1 7)
            (push_match (BackwardMatch_dist_len 1 3)
              (push_match (BackwardMatch_dist_len 1 2) example_matches)),
          example_bt4\<lparr>hash_tabs := (\<lambda>_. 8)(0 := 9, 1024 := 9, 33792 := 9),
            child_tab :=
              (\<lambda>_. Unassigned 0)(16 := Assigned (- 0xFFFF), 18 := Assigned 8,
                 17 := Assigned (- 0xFFFF), 19 := Assigned (- 0xFFFF))\<rparr>)"
  by (simp add: BT4_FindAllMatches_def ex_advance Let_def)
    (simp add: example_externals_def example_matches_def push_match_def)

theorem FindAllMatches_num_matches_witness:
  "HashLongestMatch_FindAllMatches example_externals 14 4 (\<lambda>_. 0xAA) 0xFFFF 8 8 8 5
     example_matches example_block
   = (6, push_match (BackwardMatch_dist_len 1 8) example_matches)
   \<and> (6 :: int) = 5 + (int (fst (push_match (BackwardMatch_dist_len 1 8) example_matches))
                      - int (fst example_matches))
   \<and> BT4_FindAllMatches example_externals 10 15 17 example_data 9 0xFFFF 8 5 example_matches 0
       example_bt4
     = BT4_FindAllMatches example_externals 10 15 17 example_data 9 0xFFFF 8 0 example_matches 0
       example_bt4
   \<and> BT4_FindAllMatches example_externals 10 15 17 example_data 9 0xFFFF 8 5 example_matches 0
       example_bt4
     = (3,
          push_match (BackwardMatch_dist_len 1 7)
            (push_match (BackwardMatch_dist_len 1 3)
              (push_match (BackwardMatch_dist_len 1 2) example_matches)),
          example_bt4\<lparr>hash_tabs := (\<lambda>_. 8)(0 := 9, 1024 := 9, 33792 := 9),
            child_tab :=
              (\<lambda>_. Unassigned 0)(16 := Assigned (- 0xFFFF), 18 := Assigned 8,
                 17 := Assigned (- 0xFFFF), 19 := Assigned (- 0xFFFF))\<rparr>)"
proof -
  note t = FindAllMatches_num_matches[where ext = example_externals and kBucketBits = 14
      and kBlockBits = 4 and data = "\<lambda>_. 0xAA" and ring_buffer_mask = "0xFFFF" and cur_ix = 8
      and max_length = 8 and max_backward = 8 and num_matches = 5
      and matches = example_matches and h = example_block]
  note u = FindAllMatches_num_matches[where ext = example_externals and kHash2Log = 10
      and kHash3Log = 15 and kHash4Log = 17 and data = example_data and cur_ix = 9
      and bt4_ring_buffer_mask = "0xFFFF" and max_length = 8 and num_matches = 5
      and num_matches' = 0 and matches = example_matches and best_len_uninit = 0
      and m = example_bt4]
  have a: "(6 :: int) = 5 + (int (fst (push_match (BackwardMatch_dist_len 1 8) example_matches))
                      - int (fst example_matches))"
    using t[THEN conjunct1] by (simp only: ex_block_FindAllMatches fst_conv snd_conv)
  note b = u[THEN conjunct2, THEN conjunct2, THEN conjunct1]
  show ?thesis
    by (rule conjI[OF ex_block_FindAllMatches conjI[OF a conjI[OF b ex_bt4_FindAllMatches]]])
qed

section \<open>\<open>HashLongestMatch::FindAllMatches\<close> and matches longer than \<open>kMaxZopfliLen\<close>\<close>

lemma length_dist_len [simp]: "BackwardMatch_length (BackwardMatch_dist_len d l) = l"
  by (simp add: BackwardMatch_length_def BackwardMatch_dist_len_def drop_bit_eq_div
      push_bit_eq_mult)

lemma accept_rel:
  "scan_rel om bm bf \<Longrightarrow>
   scan_rel om (HashLongestMatch_accept om backward l bm) (found_accept backward l bf)"
  by (auto simp add: scan_rel_def HashLongestMatch_accept_def found_accept_def push_match_def)

lemma back_scan_rel:
  "scan_rel om bm bf \<Longrightarrow>
   scan_rel om (HashLongestMatch_back_scan om data rbm c ml mb stop i bm)
     (found_back_scan data rbm c ml mb stop i bf)"
proof (induction om data rbm c ml mb stop i bm arbitrary: bf
    rule: HashLongestMatch_back_scan.induct)
  case (1 om data rbm c ml mb stop i bm)
  from "1.prems" have fst_eq: "fst bf = fst bm" by (simp add: scan_rel_def)
  let ?cm = "unat c AND rbm"
  let ?p = "nat i AND rbm"
  let ?l = "FindMatchLengthWithLimit (ptr_add data ?p) (ptr_add data ?cm) (unat ml)"
  consider (stop) "\<not> (i > stop \<and> fst bm \<le> 2) \<or> unat c - nat i > unat mb"
    | (skip) "i > stop" "fst bm \<le> 2" "\<not> unat c - nat i > unat mb"
        "data ?cm \<noteq> data ?p \<or> data (?cm + 1) \<noteq> data (?p + 1)"
    | (step) "i > stop" "fst bm \<le> 2" "\<not> unat c - nat i > unat mb"
        "\<not> (data ?cm \<noteq> data ?p \<or> data (?cm + 1) \<noteq> data (?p + 1))"
    by blast
  then show ?case
  proof cases
    case stop
    then have "HashLongestMatch_back_scan om data rbm c ml mb stop i bm = bm"
      "found_back_scan data rbm c ml mb stop i bf = bf"
      by (subst HashLongestMatch_back_scan.simps found_back_scan.simps;
          auto simp add: Let_def fst_eq)+
    with "1.prems" show ?thesis by simp
  next
    case skip
    then have "HashLongestMatch_back_scan om data rbm c ml mb stop i bm =
        HashLongestMatch_back_scan om data rbm c ml mb stop (i - 1) bm"
      "found_back_scan data rbm c ml mb stop i bf = found_back_scan data rbm c ml mb stop (i - 1) bf"
      by (subst HashLongestMatch_back_scan.simps found_back_scan.simps;
          auto simp add: Let_def fst_eq)+
    moreover from skip have "scan_rel om (HashLongestMatch_back_scan om data rbm c ml mb stop (i - 1) bm)
        (found_back_scan data rbm c ml mb stop (i - 1) bf)"
      by (intro "1.IH"(1)[OF _ refl refl refl _ refl _ "1.prems"]) auto
    ultimately show ?thesis by simp
  next
    case step
    let ?bm = "HashLongestMatch_accept om (of_nat (unat c - nat i)) ?l bm"
    let ?bf = "found_accept (of_nat (unat c - nat i)) ?l bf"
    from step have "HashLongestMatch_back_scan om data rbm c ml mb stop i bm =
        HashLongestMatch_back_scan om data rbm c ml mb stop (i - 1) ?bm"
      "found_back_scan data rbm c ml mb stop i bf = found_back_scan data rbm c ml mb stop (i - 1) ?bf"
      by (subst HashLongestMatch_back_scan.simps found_back_scan.simps;
          auto simp add: Let_def fst_eq)+
    moreover from step have "scan_rel om (HashLongestMatch_back_scan om data rbm c ml mb stop (i - 1) ?bm)
        (found_back_scan data rbm c ml mb stop (i - 1) ?bf)"
      by (intro "1.IH"(2)[OF _ refl refl refl _ refl _ accept_rel[OF "1.prems"]]) auto
    ultimately show ?thesis by simp
  qed
qed

lemma all_bucket_step_rel:
  "scan_rel om bm bf \<Longrightarrow>
   scan_rel om (HashLongestMatch_all_bucket_step om data rbm c ml p bm)
     (found_bucket_step data rbm c ml p bf)"
proof -
  assume r: "scan_rel om bm bf"
  then have "fst bf = fst bm" by (simp add: scan_rel_def)
  with accept_rel[OF r] r show ?thesis
    by (simp add: HashLongestMatch_all_bucket_step_def found_bucket_step_def Let_def)
qed

lemma all_bucket_loop_rel:
  "scan_rel om bm bf \<Longrightarrow>
   scan_rel om (HashLongestMatch_all_bucket_loop om K b down data rbm c ml mb i bm)
     (found_bucket_loop K b down data rbm c ml mb i bf)"
proof (induction om K b down data rbm c ml mb i bm arbitrary: bf
    rule: HashLongestMatch_all_bucket_loop.induct)
  case (1 om K b down data rbm c ml mb i bm)
  let ?p = "b (nat i AND kBlockMask K)"
  consider (stop) "\<not> down \<le> i \<or> (0 \<le> sint ?p \<and> mb < c - ?p)"
    | (step) "down \<le> i" "0 \<le> sint ?p" "\<not> mb < c - ?p"
    | (skip) "down \<le> i" "\<not> 0 \<le> sint ?p"
    by blast
  then show ?case
  proof cases
    case stop
    then have "HashLongestMatch_all_bucket_loop om K b down data rbm c ml mb i bm = bm"
      "found_bucket_loop K b down data rbm c ml mb i bf = bf"
      by (subst HashLongestMatch_all_bucket_loop.simps found_bucket_loop.simps;
          auto simp add: Let_def)+
    with "1.prems" show ?thesis by simp
  next
    case step
    let ?bm = "HashLongestMatch_all_bucket_step om data rbm c ml ?p bm"
    let ?bf = "found_bucket_step data rbm c ml ?p bf"
    from step have "HashLongestMatch_all_bucket_loop om K b down data rbm c ml mb i bm =
        HashLongestMatch_all_bucket_loop om K b down data rbm c ml mb (i - 1) ?bm"
      "found_bucket_loop K b down data rbm c ml mb i bf =
        found_bucket_loop K b down data rbm c ml mb (i - 1) ?bf"
      by (subst HashLongestMatch_all_bucket_loop.simps found_bucket_loop.simps;
          simp add: Let_def)+
    moreover from "1.IH"(1)[OF step(1) refl step(2,3) all_bucket_step_rel[OF "1.prems"]]
    have "scan_rel om (HashLongestMatch_all_bucket_loop om K b down data rbm c ml mb (i - 1) ?bm)
        (found_bucket_loop K b down data rbm c ml mb (i - 1) ?bf)" .
    ultimately show ?thesis by simp
  next
    case skip
    then have "HashLongestMatch_all_bucket_loop om K b down data rbm c ml mb i bm =
        HashLongestMatch_all_bucket_loop om K b down data rbm c ml mb (i - 1) bm"
      "found_bucket_loop K b down data rbm c ml mb i bf =
        found_bucket_loop K b down data rbm c ml mb (i - 1) bf"
      by (subst HashLongestMatch_all_bucket_loop.simps found_bucket_loop.simps;
          simp add: Let_def)+
    moreover from "1.IH"(2)[OF skip(1) refl skip(2) "1.prems"]
    have "scan_rel om (HashLongestMatch_all_bucket_loop om K b down data rbm c ml mb (i - 1) bm)
        (found_bucket_loop K b down data rbm c ml mb (i - 1) bf)" .
    ultimately show ?thesis by simp
  qed
qed

lemma scans_rel:
  "\<exists>best. scan_rel (fst matches)
     (HashLongestMatch_scans B K data rbm c ml mb matches h)
     (best, matches_found_in_scan B K data rbm c ml mb h)"
proof -
  have init: "scan_rel (fst matches) (1, matches) (1, [])"
    by (simp add: scan_rel_def kMaxZopfliLen_def)
  let ?stop = "if sint c - 64 < 0 then 0 else sint c - 64"
  let ?key = "unat (HashLongestMatch_HashBytes B (ptr_add data (unat c AND rbm)))"
  let ?down = "if unat (num h ?key) > kBlockSize K
                  then int (unat (num h ?key)) - int (kBlockSize K) else 0"
  let ?bf = "found_bucket_loop K (buckets h ?key) ?down data rbm c ml mb
      (int (unat (num h ?key)) - 1)
      (found_back_scan data rbm c ml mb ?stop (sint (c - 1)) (1, []))"
  have "scan_rel (fst matches) (HashLongestMatch_scans B K data rbm c ml mb matches h) ?bf"
    unfolding HashLongestMatch_scans_def Let_def
    by (intro all_bucket_loop_rel back_scan_rel init)
  moreover have "matches_found_in_scan B K data rbm c ml mb h = snd ?bf"
    by (simp add: matches_found_in_scan_def Let_def)
  ultimately have "scan_rel (fst matches) (HashLongestMatch_scans B K data rbm c ml mb matches h)
     (fst ?bf, matches_found_in_scan B K data rbm c ml mb h)"
    by simp
  then show ?thesis by blast
qed

lemma dictionary_matches_loop_empty:
  "maxlen < l \<Longrightarrow> dictionary_matches_loop im dm base maxlen l matches = matches"
  by (subst dictionary_matches_loop.simps) simp

text \<open>
  Claim C5. Let the static dictionary have no word longer than \<open>kMaxZopfliLen\<close>. If one of
  the matches that \<open>FindAllMatches\<close> of a block hasher finds in its two loops is longer than
  \<open>kMaxZopfliLen = 325\<close>, then on return the pointer \<open>matches\<close> is one past \<open>orig_matches\<close>,
  \<open>*num_matches\<close> has grown by one, and the match at \<open>orig_matches\<close> has the greatest length
  of all the matches found in the loops: the dictionary part has added nothing.
\<close>

theorem FindAllMatches_zopfli_rewind:
  assumes "kMaxDictionaryMatchLen ext \<le> kMaxZopfliLen"
    and "\<exists>m \<in> set (matches_found_in_scan kBucketBits kBlockBits data ring_buffer_mask cur_ix
                       max_length max_backward h).
           BackwardMatch_length m > int kMaxZopfliLen"
    and "HashLongestMatch_FindAllMatches ext kBucketBits kBlockBits data ring_buffer_mask cur_ix
           max_length max_backward num_matches matches h = (num_matches', matches')"
  shows "fst matches' = fst matches + 1
       \<and> num_matches' = num_matches + 1
       \<and> BackwardMatch_length (snd matches' (fst matches)) =
           Max (BackwardMatch_length `
                  set (matches_found_in_scan kBucketBits kBlockBits data ring_buffer_mask cur_ix
                         max_length max_backward h))"
proof -
  let ?found = "matches_found_in_scan kBucketBits kBlockBits data ring_buffer_mask cur_ix
                         max_length max_backward h"
  let ?bm = "HashLongestMatch_scans kBucketBits kBlockBits data ring_buffer_mask cur_ix
                         max_length max_backward matches h"
  from scans_rel obtain best where r: "scan_rel (fst matches) ?bm (best, ?found)" by blast
  then have best: "best = fst ?bm"
    and le: "\<And>m. m \<in> set ?found \<Longrightarrow> BackwardMatch_length m \<le> int (fst ?bm)"
    and last: "?found \<noteq> [] \<Longrightarrow> BackwardMatch_length (last ?found) = int (fst ?bm)"
    and long: "fst ?bm > kMaxZopfliLen \<Longrightarrow>
        fst (snd ?bm) = fst matches + 1 \<and>
        BackwardMatch_length (snd (snd ?bm) (fst matches)) = int (fst ?bm)"
    by (simp_all add: scan_rel_def)
  from assms(2) obtain m where m: "m \<in> set ?found" "BackwardMatch_length m > int kMaxZopfliLen"
    by blast
  with le[OF m(1)] have big: "fst ?bm > kMaxZopfliLen" by simp
  from m(1) have ne: "?found \<noteq> []" by auto
  have mx: "Max (BackwardMatch_length ` set ?found) = int (fst ?bm)"
  proof (rule Max_eqI)
    show "finite (BackwardMatch_length ` set ?found)" by simp
    show "\<And>y. y \<in> BackwardMatch_length ` set ?found \<Longrightarrow> y \<le> int (fst ?bm)"
      using le by auto
    show "int (fst ?bm) \<in> BackwardMatch_length ` set ?found"
      using last[OF ne] last_in_set[OF ne] by force
  qed
  let ?minlen = "max 4 (int (fst ?bm) + 1)"
  let ?maxlen = "min (int (kMaxDictionaryMatchLen ext)) (sint max_length)"
  have "?maxlen < ?minlen" using big assms(1) by simp
  then have dict: "\<And>im dm base. dictionary_matches_loop im dm base ?maxlen ?minlen (snd ?bm) = snd ?bm"
    by (rule dictionary_matches_loop_empty)
  from assms(3) have "matches' = snd ?bm"
    and "num_matches' = num_matches + (int (fst (snd ?bm)) - int (fst matches))"
    by (auto simp add: HashLongestMatch_FindAllMatches_def Let_def dict split: if_splits)
  with long[OF big] mx show ?thesis by simp
qed

lemma FML_all_equal:
  "(\<And>j. j < n \<Longrightarrow> s1 j = s2 j) \<Longrightarrow> FindMatchLengthWithLimit s1 s2 n = n"
proof (induction n arbitrary: s1 s2)
  case 0
  then show ?case by simp
next
  case (Suc n)
  have "FindMatchLengthWithLimit (ptr_add s1 1) (ptr_add s2 1) n = n"
    by (rule Suc.IH) (use Suc.prems in \<open>simp add: ptr_add_def\<close>)
  with Suc.prems[of 0] show ?case by simp
qed

lemma periodic_values:
  "example_periodic 5 = 0" "example_periodic 6 = 0" "example_periodic 7 = 1"
  "example_periodic 8 = 0" "example_periodic 9 = 0" "example_periodic 10 = 0"
  by (simp_all add: example_periodic_def)

lemma periodic_short:
  "FindMatchLengthWithLimit (ptr_add example_periodic 8) (ptr_add example_periodic 9) 400 = 2"
  by (simp add: FML_numeral ptr_add_def example_periodic_def)

lemma periodic_long:
  "FindMatchLengthWithLimit (ptr_add example_periodic 5) (ptr_add example_periodic 9) 400 = 400"
proof (rule FML_all_equal)
  fix j :: nat
  have "(5 + j) mod 4 = (9 + j) mod 4" by presburger
  then show "ptr_add example_periodic 5 j = ptr_add example_periodic 9 j"
    by (simp add: ptr_add_def example_periodic_def)
qed

lemma ex_found:
  "matches_found_in_scan 14 4 example_periodic 0xFFFF 9 400 64 example_block
   = [BackwardMatch_dist_len 1 2, BackwardMatch_dist_len 4 400]"
  by (simp add: matches_found_in_scan_def found_back_scan.simps found_bucket_loop.simps
      found_accept_def example_block_def kBlockSize_def periodic_values periodic_short
      periodic_long Let_def)

lemma ex_zopfli:
  "HashLongestMatch_FindAllMatches example_externals 14 4 example_periodic 0xFFFF 9 400 64 0
     example_matches example_block
   = (1, push_match (BackwardMatch_dist_len 4 400) example_matches)"
proof -
  have "HashLongestMatch_scans 14 4 example_periodic 0xFFFF 9 400 64 example_matches example_block
    = (400, push_match (BackwardMatch_dist_len 4 400) example_matches)"
    by (simp add: HashLongestMatch_scans_def HashLongestMatch_back_scan.simps
      HashLongestMatch_all_bucket_loop.simps HashLongestMatch_accept_def example_block_def
      example_matches_def kMaxZopfliLen_def kBlockSize_def periodic_values periodic_short
      periodic_long push_match_def Let_def)
  then show ?thesis
    by (simp add: HashLongestMatch_FindAllMatches_def Let_def)
      (simp add: example_externals_def example_matches_def push_match_def)
qed

theorem FindAllMatches_zopfli_rewind_witness:
  "kMaxDictionaryMatchLen example_externals \<le> kMaxZopfliLen
   \<and> matches_found_in_scan 14 4 example_periodic 0xFFFF 9 400 64 example_block
     = [BackwardMatch_dist_len 1 2, BackwardMatch_dist_len 4 400]
   \<and> BackwardMatch_length (BackwardMatch_dist_len 4 400) > int kMaxZopfliLen
   \<and> HashLongestMatch_FindAllMatches example_externals 14 4 example_periodic 0xFFFF 9 400 64 0
       example_matches example_block
     = (1, push_match (BackwardMatch_dist_len 4 400) example_matches)
   \<and> fst (push_match (BackwardMatch_dist_len 4 400) example_matches) = fst example_matches + 1
   \<and> BackwardMatch_length
       (snd (push_match (BackwardMatch_dist_len 4 400) example_matches) (fst example_matches))
     = Max (BackwardMatch_length `
              set (matches_found_in_scan 14 4 example_periodic 0xFFFF 9 400 64 example_block))"
proof -
  have k: "kMaxDictionaryMatchLen example_externals \<le> kMaxZopfliLen"
    by (simp add: example_externals_def kMaxZopfliLen_def)
  have long: "BackwardMatch_length (BackwardMatch_dist_len 4 400) > int kMaxZopfliLen"
    by (simp add: kMaxZopfliLen_def)
  have ex: "\<exists>m \<in> set (matches_found_in_scan 14 4 example_periodic 0xFFFF 9 400 64 example_block).
      BackwardMatch_length m > int kMaxZopfliLen"
    unfolding ex_found using long by simp
  note t = FindAllMatches_zopfli_rewind[OF k ex ex_zopfli]
  show ?thesis
    by (rule conjI[OF k conjI[OF ex_found conjI[OF long conjI[OF ex_zopfli
          conjI[OF t[THEN conjunct1] t[THEN conjunct2, THEN conjunct2]]]]]])
qed


end
